theory Spec2Isabelle
  imports Complex_Main "HOL-Library.Word"
begin

section \<open>Values, errors and arrays\<close>

text \<open>
  The solver of \<^verbatim>\<open>picaso/climate.py\<close> computes on double precision numbers. A number
  is modelled as an exact real or one of the three special values of IEEE-754
  (rounding and overflow of finite values are not modelled). The special values are
  kept because the code tests for them (\<^verbatim>\<open>np.isnan\<close>) and because every comparison
  with a NaN is false, which decides which branch the code takes.
\<close>

datatype fl = Fin real | PInf | NInf | NaN

text \<open>
  The exceptions of the source. \<open>ArrayIsSingular\<close> is the
  \<^verbatim>\<open>ValueError("Array is singular, ...")\<close> of \<^verbatim>\<open>lu_decomp\<close>; \<open>ShapeError\<close> is the
  \<^verbatim>\<open>ValueError\<close> of numpy for a negative dimension, operands that do not broadcast or
  a reduction of an empty array. \<open>IndexError\<close> stands for an access outside an array.
  The compiled code does not check an index: such an access reads or writes the memory
  that lies at that position. The model stops there with \<open>IndexError\<close>, except in the
  damper of \<^verbatim>\<open>t_start\<close>, whose last pass is outside the profile in every run and is
  followed into the memory that lies there. The functions are compiled with \<^verbatim>\<open>@jit(nopython=True)\<close>, whose default error
  model raises \<open>ZeroDivisionError\<close> on a scalar division by zero.
\<close>

datatype error =
  IndexError | ZeroDivisionError | ArrayIsSingular | ShapeError | UnboundLocalError

instantiation fl :: "{plus, minus, uminus, times, abs, ord}"
begin

fun uminus_fl :: "fl \<Rightarrow> fl" where
  "uminus_fl (Fin x) = Fin (- x)"
| "uminus_fl PInf = NInf"
| "uminus_fl NInf = PInf"
| "uminus_fl NaN = NaN"

fun plus_fl :: "fl \<Rightarrow> fl \<Rightarrow> fl" where
  "plus_fl (Fin x) (Fin y) = Fin (x + y)"
| "plus_fl NaN y = NaN"
| "plus_fl x NaN = NaN"
| "plus_fl PInf NInf = NaN"
| "plus_fl NInf PInf = NaN"
| "plus_fl PInf y = PInf"
| "plus_fl NInf y = NInf"
| "plus_fl x PInf = PInf"
| "plus_fl x NInf = NInf"

definition minus_fl :: "fl \<Rightarrow> fl \<Rightarrow> fl" where
  "minus_fl x y = x + (- y)"

fun times_fl :: "fl \<Rightarrow> fl \<Rightarrow> fl" where
  "times_fl (Fin x) (Fin y) = Fin (x * y)"
| "times_fl NaN y = NaN"
| "times_fl x NaN = NaN"
| "times_fl (Fin x) PInf = (if x = 0 then NaN else if 0 < x then PInf else NInf)"
| "times_fl (Fin x) NInf = (if x = 0 then NaN else if 0 < x then NInf else PInf)"
| "times_fl PInf (Fin y) = (if y = 0 then NaN else if 0 < y then PInf else NInf)"
| "times_fl NInf (Fin y) = (if y = 0 then NaN else if 0 < y then NInf else PInf)"
| "times_fl PInf PInf = PInf"
| "times_fl PInf NInf = NInf"
| "times_fl NInf PInf = NInf"
| "times_fl NInf NInf = PInf"

fun abs_fl :: "fl \<Rightarrow> fl" where
  "abs_fl (Fin x) = Fin \<bar>x\<bar>"
| "abs_fl PInf = PInf"
| "abs_fl NInf = PInf"
| "abs_fl NaN = NaN"

fun less_fl :: "fl \<Rightarrow> fl \<Rightarrow> bool" where
  "less_fl (Fin x) (Fin y) = (x < y)"
| "less_fl NaN y = False"
| "less_fl x NaN = False"
| "less_fl x NInf = False"
| "less_fl PInf y = False"
| "less_fl NInf y = True"
| "less_fl x PInf = True"

fun less_eq_fl :: "fl \<Rightarrow> fl \<Rightarrow> bool" where
  "less_eq_fl (Fin x) (Fin y) = (x \<le> y)"
| "less_eq_fl NaN y = False"
| "less_eq_fl x NaN = False"
| "less_eq_fl NInf y = True"
| "less_eq_fl x PInf = True"
| "less_eq_fl x NInf = False"
| "less_eq_fl PInf y = False"

instance ..

end

text \<open>
  Scalar division: the divisor is compared with zero first and the division raises;
  otherwise the quotient is the IEEE one.
\<close>

fun fdiv :: "fl \<Rightarrow> fl \<Rightarrow> error + fl" where
  "fdiv x (Fin y) =
     (if y = 0 then Inl ZeroDivisionError
      else case x of
        Fin a \<Rightarrow> Inr (Fin (a / y))
      | PInf \<Rightarrow> Inr (if 0 < y then PInf else NInf)
      | NInf \<Rightarrow> Inr (if 0 < y then NInf else PInf)
      | NaN \<Rightarrow> Inr NaN)"
| "fdiv x NaN = Inr NaN"
| "fdiv (Fin a) PInf = Inr (Fin 0)"
| "fdiv (Fin a) NInf = Inr (Fin 0)"
| "fdiv x y = Inr NaN"

fun fsqrt :: "fl \<Rightarrow> fl" where
  "fsqrt (Fin x) = (if 0 \<le> x then Fin (sqrt x) else NaN)"
| "fsqrt PInf = PInf"
| "fsqrt x = NaN"

fun fexp :: "fl \<Rightarrow> fl" where
  "fexp (Fin x) = Fin (exp x)"
| "fexp PInf = PInf"
| "fexp NInf = Fin 0"
| "fexp NaN = NaN"

fun flog :: "fl \<Rightarrow> fl" where
  "flog (Fin x) = (if 0 < x then Fin (ln x) else if x = 0 then NInf else NaN)"
| "flog PInf = PInf"
| "flog x = NaN"

fun flog10 :: "fl \<Rightarrow> fl" where
  "flog10 (Fin x) = (if 0 < x then Fin (log 10 x) else if x = 0 then NInf else NaN)"
| "flog10 PInf = PInf"
| "flog10 x = NaN"

text \<open>\<^verbatim>\<open>10**x\<close>\<close>

fun fpow10 :: "fl \<Rightarrow> fl" where
  "fpow10 (Fin x) = Fin (10 powr x)"
| "fpow10 PInf = PInf"
| "fpow10 NInf = Fin 0"
| "fpow10 NaN = NaN"

definition isnan :: "fl \<Rightarrow> bool" where
  "isnan x = (x = NaN)"

definition isfinite :: "fl \<Rightarrow> bool" where
  "isfinite x = (case x of Fin r \<Rightarrow> True | _ \<Rightarrow> False)"

text \<open>
  The builtin \<^verbatim>\<open>max(a, b)\<close> keeps its first argument unless the second compares
  greater, so a NaN in first place is returned.
\<close>

definition py_max :: "fl \<Rightarrow> fl \<Rightarrow> fl" where
  "py_max a b = (if a < b then b else a)"

definition of_py_int :: "int \<Rightarrow> fl" where
  "of_py_int i = Fin (of_int i)"

text \<open>
  Sequencing of computations that may raise.
\<close>

definition rbind :: "error + 'a \<Rightarrow> ('a \<Rightarrow> error + 'b) \<Rightarrow> error + 'b" where
  "rbind m f = (case m of Inl e \<Rightarrow> Inl e | Inr x \<Rightarrow> f x)"

text \<open>
  Indexing of a numpy array by an integer: an index from \<open>-n\<close> to \<open>-1\<close> counts from
  the end, every index outside \<open>-n .. n-1\<close> is an error.
\<close>

definition py_index :: "nat \<Rightarrow> int \<Rightarrow> error + nat" where
  "py_index n i =
     (if 0 \<le> i \<and> i < int n then Inr (nat i)
      else if - int n \<le> i \<and> i < 0 then Inr (nat (i + int n))
      else Inl IndexError)"

definition getitem :: "'a list \<Rightarrow> int \<Rightarrow> error + 'a" where
  "getitem xs i = rbind (py_index (length xs) i) (\<lambda>k. Inr (xs ! k))"

definition setitem :: "'a list \<Rightarrow> int \<Rightarrow> 'a \<Rightarrow> error + 'a list" where
  "setitem xs i v = rbind (py_index (length xs) i) (\<lambda>k. Inr (xs[k := v]))"

definition getitem2 :: "'a list list \<Rightarrow> int \<Rightarrow> int \<Rightarrow> error + 'a" where
  "getitem2 a i j = rbind (getitem a i) (\<lambda>row. getitem row j)"

definition setitem2 :: "'a list list \<Rightarrow> int \<Rightarrow> int \<Rightarrow> 'a \<Rightarrow> error + 'a list list" where
  "setitem2 a i j v =
     rbind (getitem a i) (\<lambda>row. rbind (setitem row j v) (\<lambda>row'. setitem a i row'))"

text \<open>
  \<^verbatim>\<open>for i in range(lo, hi)\<close> over a state, stopping at the first exception. The range
  is fixed when the loop starts.
\<close>

definition py_range :: "int \<Rightarrow> int \<Rightarrow> int list" where
  "py_range lo hi = [lo..hi - 1]"

primrec for_each :: "'i list \<Rightarrow> ('i \<Rightarrow> 's \<Rightarrow> error + 's) \<Rightarrow> 's \<Rightarrow> error + 's" where
  "for_each [] body s = Inr s"
| "for_each (i # rest) body s = rbind (body i s) (for_each rest body)"

section \<open>ConvectiveGradient: locate\<close>

text \<open>
  \<^verbatim>\<open>int(0.5*(ju+jl))\<close>: half of an integer, truncated towards zero.
\<close>

definition int_half :: "int \<Rightarrow> int" where
  "int_half x = (if 0 \<le> x then x div 2 else - ((- x) div 2))"

function locate_loop :: "fl list \<Rightarrow> fl \<Rightarrow> int \<Rightarrow> int \<Rightarrow> error + int" where
  "locate_loop array v jl ju =
     (if ju - jl > 1 then
        (let jm = int_half (ju + jl) in
         case getitem array jm of
           Inl e \<Rightarrow> Inl e
         | Inr x \<Rightarrow> if x \<le> v then locate_loop array v jm ju else locate_loop array v jl jm)
      else Inr jl)"
  by pat_completeness auto
termination
  by (relation "measure (\<lambda>(array, v, jl, ju). nat (ju - jl))")
     (auto simp: int_half_def)

declare locate_loop.simps [simp del]

definition locate :: "fl list \<Rightarrow> fl \<Rightarrow> error + int" where
  "locate array v =
     (let n = int (length array) in
      rbind (locate_loop array v 0 n) (\<lambda>jl.
      rbind (getitem array 0) (\<lambda>first.
        if v \<le> first then Inr 0
        else rbind (getitem array (- 1)) (\<lambda>last.
          if last \<le> v then Inr (n - 1) else Inr jl))))"

section \<open>ZoneManager: growup and growdown\<close>

text \<open>
  The zone map \<^verbatim>\<open>nstr\<close> is an array of 64-bit integers (the default integer of
  numpy) and the compiled functions take \<^verbatim>\<open>nlv\<close> and \<^verbatim>\<open>ngrow\<close> as 64-bit integers:
  the index \<open>n\<close>, the differences and the sums are computed in 64 bits and wrap around.
  \<^verbatim>\<open>nlv\<close> counts the zones from 1. The index is read as a signed number.
\<close>

type_synonym int64 = "64 word"

definition growup :: "int64 \<Rightarrow> int64 list \<Rightarrow> int64 \<Rightarrow> error + int64 list" where
  "growup nlv nstr ngrow =
     (let n = 2 + 3 * (nlv - 1) - 1 in
      rbind (getitem nstr (sint n)) (\<lambda>v. setitem nstr (sint n) (v - 1 * ngrow)))"

definition growdown :: "int64 \<Rightarrow> int64 list \<Rightarrow> int64 \<Rightarrow> error + int64 list" where
  "growdown nlv nstr ngrow =
     (let n = 3 + 3 * (nlv - 1) - 1 in
      rbind (getitem nstr (sint n)) (\<lambda>v.
      rbind (setitem nstr (sint n) (v + 1 * ngrow)) (\<lambda>nstr1.
      rbind (getitem nstr1 (sint (n + 1))) (\<lambda>w.
        setitem nstr1 (sint (n + 1)) (w + 1 * ngrow)))))"


section \<open>ConvectiveGradient: did_grad_cp\<close>

text \<open>
  The first part of \<^verbatim>\<open>did_grad_cp\<close> (source lines 43 to 71): the table positions and
  the two blend factors. The constants 25, 24, 26 and 52, 51, 53 are the source's; a
  factor that no branch assigns is \<open>None\<close>. The result is
  \<open>(pos_t, pos_p, factkt, factkp)\<close>.
\<close>

definition did_grad_cp_factors ::
  "fl \<Rightarrow> fl \<Rightarrow> fl list \<Rightarrow> fl list \<Rightarrow> error + (int \<times> int \<times> fl option \<times> fl option)" where
  "did_grad_cp_factors t p t_table p_table =
     (let temp_log = flog10 t; pres_log = flog10 p in
      rbind (locate t_table temp_log) (\<lambda>pos_t.
      rbind (locate p_table pres_log) (\<lambda>pos_p.
      let (factkp, pos_p, ipflag) =
            (if pos_p = 0 then (Some (Fin 0), pos_p, 1::int)
             else if pos_p = 25 then (Some (Fin 1), 24, 1)
             else (None, pos_p, 0));
          (factkt, pos_t, itflag) =
            (if pos_t = 0 then (Some (Fin 0), pos_t, 1::int)
             else if pos_t = 52 then (Some (Fin 1), 51, 1)
             else (None, pos_t, 0))
      in
      rbind (if 0 < pos_p \<and> pos_p < 26 \<and> ipflag = 0 then
               rbind (getitem p_table pos_p) (\<lambda>lo.
               rbind (getitem p_table (pos_p + 1)) (\<lambda>hi.
               rbind (fdiv (- lo + pres_log) (hi - lo)) (\<lambda>q. Inr (Some q))))
             else Inr factkp) (\<lambda>factkp.
      rbind (if 0 < pos_t \<and> pos_t < 53 \<and> itflag = 0 then
               rbind (getitem t_table pos_t) (\<lambda>lo.
               rbind (getitem t_table (pos_t + 1)) (\<lambda>hi.
               rbind (fdiv (- lo + temp_log) (hi - lo)) (\<lambda>q. Inr (Some q))))
             else Inr factkt) (\<lambda>factkt.
      Inr (pos_t, pos_p, factkt, factkp))))))"

text \<open>
  The bilinear interpolation of the gradient and of \<open>log10 cp\<close> (source lines 74 to 92).
  The argument \<^verbatim>\<open>calc_type\<close> is unused in the source and left out.
\<close>

definition bilinear :: "fl \<Rightarrow> fl \<Rightarrow> fl \<Rightarrow> fl \<Rightarrow> fl \<Rightarrow> fl \<Rightarrow> fl" where
  "bilinear factkt factkp v1 v2 v3 v4 =
     (Fin 1 - factkt) * (Fin 1 - factkp) * v1 + factkt * (Fin 1 - factkp) * v2
       + factkt * factkp * v3 + (Fin 1 - factkt) * factkp * v4"

definition did_grad_cp ::
  "fl \<Rightarrow> fl \<Rightarrow> fl list \<Rightarrow> fl list \<Rightarrow> fl list list \<Rightarrow> fl list list \<Rightarrow> error + (fl \<times> fl)" where
  "did_grad_cp t p t_table p_table grad cp =
     rbind (did_grad_cp_factors t p t_table p_table) (\<lambda>(pos_t, pos_p, factkt, factkp).
     rbind (getitem2 grad pos_t pos_p) (\<lambda>gp1.
     rbind (getitem2 grad (pos_t + 1) pos_p) (\<lambda>gp2.
     rbind (getitem2 grad (pos_t + 1) (pos_p + 1)) (\<lambda>gp3.
     rbind (getitem2 grad pos_t (pos_p + 1)) (\<lambda>gp4.
     rbind (getitem2 cp pos_t pos_p) (\<lambda>cp1.
     rbind (getitem2 cp (pos_t + 1) pos_p) (\<lambda>cp2.
     rbind (getitem2 cp (pos_t + 1) (pos_p + 1)) (\<lambda>cp3.
     rbind (getitem2 cp pos_t (pos_p + 1)) (\<lambda>cp4.
     case (factkt, factkp) of
       (Some kt, Some kp) \<Rightarrow>
         Inr (bilinear kt kp gp1 gp2 gp3 gp4, fpow10 (bilinear kt kp cp1 cp2 cp3 cp4))
     | _ \<Rightarrow> Inl UnboundLocalError)))))))))"

section \<open>LinearSolver: lu_decomp, lu_backsubs and mat_sol\<close>

type_synonym matrix = "fl list list"

definition TINY :: fl where
  "TINY = Fin (1 / 10 ^ 20)"

definition NMAX :: int where
  "NMAX = 100"

text \<open>
  The row scaling (source lines 239 to 246): the largest magnitude of each row of the
  active submatrix; a row whose largest magnitude is zero raises.
\<close>

definition lu_row_max :: "matrix \<Rightarrow> int \<Rightarrow> int \<Rightarrow> error + fl" where
  "lu_row_max a n i =
     for_each (py_range 0 n)
       (\<lambda>j aamax. rbind (getitem2 a i j) (\<lambda>x. Inr (if aamax < \<bar>x\<bar> then \<bar>x\<bar> else aamax)))
       (Fin 0)"

definition lu_scale :: "matrix \<Rightarrow> int \<Rightarrow> fl list \<Rightarrow> error + fl list" where
  "lu_scale a n vv0 =
     for_each (py_range 0 n)
       (\<lambda>i vv. rbind (lu_row_max a n i) (\<lambda>aamax.
          if aamax = Fin 0 then Inl ArrayIsSingular
          else rbind (fdiv (Fin 1) aamax) (\<lambda>r. setitem vv i r)))
       vv0"

text \<open>
  \<^verbatim>\<open>sum = a[i,j]; for k in range(m): sum = sum - a[i,k]*a[k,j]\<close>
\<close>

definition lu_dot :: "matrix \<Rightarrow> int \<Rightarrow> int \<Rightarrow> int \<Rightarrow> error + fl" where
  "lu_dot a i j m =
     rbind (getitem2 a i j)
       (for_each (py_range 0 m)
          (\<lambda>k sum. rbind (getitem2 a i k) (\<lambda>x. rbind (getitem2 a k j) (\<lambda>y. Inr (sum - x * y)))))"

definition lu_upper :: "int \<Rightarrow> matrix \<Rightarrow> error + matrix" where
  "lu_upper j a0 =
     for_each (py_range 0 j) (\<lambda>i a. rbind (lu_dot a i j i) (\<lambda>sum. setitem2 a i j sum)) a0"

text \<open>
  The pivot search of column \<open>j\<close> (source lines 255 to 265), on the matrix, the local
  \<^verbatim>\<open>imax\<close> (\<open>None\<close> while unassigned) and \<^verbatim>\<open>aamax\<close>.
\<close>

definition lu_pivot_step ::
  "int \<Rightarrow> fl list \<Rightarrow> int \<Rightarrow> matrix \<times> int option \<times> fl \<Rightarrow> error + (matrix \<times> int option \<times> fl)" where
  "lu_pivot_step j vv = (\<lambda>i (a, imax, aamax).
       rbind (lu_dot a i j j) (\<lambda>sum.
       rbind (setitem2 a i j sum) (\<lambda>a'.
       rbind (getitem vv i) (\<lambda>w.
         let dum = w * \<bar>sum\<bar> in
         Inr (if aamax \<le> dum then (a', Some i, dum) else (a', imax, aamax))))))"

definition lu_pivot ::
  "int \<Rightarrow> int \<Rightarrow> fl list \<Rightarrow> matrix \<times> int option \<times> fl \<Rightarrow> error + (matrix \<times> int option \<times> fl)" where
  "lu_pivot n j vv = for_each (py_range j n) (lu_pivot_step j vv)"

definition lu_swap :: "int \<Rightarrow> int \<Rightarrow> int \<Rightarrow> matrix \<Rightarrow> error + matrix" where
  "lu_swap n imax j =
     for_each (py_range 0 n) (\<lambda>k a.
       rbind (getitem2 a imax k) (\<lambda>dum.
       rbind (getitem2 a j k) (\<lambda>x.
       rbind (setitem2 a imax k x) (\<lambda>a1. setitem2 a1 j k dum))))"

definition lu_divide :: "int \<Rightarrow> int \<Rightarrow> matrix \<Rightarrow> error + matrix" where
  "lu_divide n j a0 =
     rbind (getitem2 a0 j j) (\<lambda>piv.
     rbind (fdiv (Fin 1) piv) (\<lambda>dum.
       for_each (py_range (j + 1) n)
         (\<lambda>i a. rbind (getitem2 a i j) (\<lambda>x. setitem2 a i j (x * dum))) a0))"

text \<open>
  The state of the column loop: the matrix, the scaling vector, the pivot indices (an
  array of \<^verbatim>\<open>np.int8\<close>: a stored index is truncated to 8 bits and read back signed)
  and the local \<^verbatim>\<open>imax\<close>. The sign \<^verbatim>\<open>d\<close> of the permutation is computed by the source
  and never used or returned; it is left out.
\<close>

record lu_state =
  lu_a :: matrix
  lu_vv :: "fl list"
  lu_indx :: "8 word list"
  lu_imax :: "int option"

definition lu_exchange ::
  "int \<Rightarrow> int \<Rightarrow> int \<Rightarrow> matrix \<Rightarrow> fl list \<Rightarrow> error + (matrix \<times> fl list)" where
  "lu_exchange n imax j a vv =
     (if j \<noteq> imax then
        rbind (lu_swap n imax j a) (\<lambda>a3.
        rbind (getitem vv j) (\<lambda>vj.
        rbind (setitem vv imax vj) (\<lambda>vv'. Inr (a3, vv'))))
      else Inr (a, vv))"

definition lu_tiny :: "int \<Rightarrow> matrix \<Rightarrow> error + matrix" where
  "lu_tiny j a =
     rbind (getitem2 a j j) (\<lambda>piv. if piv = Fin 0 then setitem2 a j j TINY else Inr a)"

definition lu_below :: "int \<Rightarrow> int \<Rightarrow> matrix \<Rightarrow> error + matrix" where
  "lu_below n j a = (if j \<noteq> n - 1 then lu_divide n j a else Inr a)"

text \<open>
  One pass of the column loop (source lines 249 to 282): the entries above the
  diagonal, the pivot search, the exchange of rows \<^verbatim>\<open>imax\<close> and \<open>j\<close> (with
  \<^verbatim>\<open>vv[imax] = vv[j]\<close>), the pivot index, the replacement of a zero pivot by \<open>TINY\<close>
  and the division of the column below the pivot.
\<close>

definition lu_column :: "int \<Rightarrow> int \<Rightarrow> lu_state \<Rightarrow> error + lu_state" where
  "lu_column n j s =
     rbind (lu_upper j (lu_a s)) (\<lambda>a1.
     rbind (lu_pivot n j (lu_vv s) (a1, lu_imax s, Fin 0)) (\<lambda>(a2, imax, aamax).
     case imax of
       None \<Rightarrow> Inl UnboundLocalError
     | Some im \<Rightarrow>
         rbind (lu_exchange n im j a2 (lu_vv s)) (\<lambda>(a3, vv').
         rbind (setitem (lu_indx s) j (word_of_int im)) (\<lambda>indx'.
         rbind (lu_tiny j a3) (\<lambda>a4.
         rbind (lu_below n j a4) (\<lambda>a5.
         Inr \<lparr>lu_a = a5, lu_vv = vv', lu_indx = indx', lu_imax = Some im\<rparr>))))))"

text \<open>
  \<^verbatim>\<open>lu_decomp(a, n, ntot)\<close>: the two arrays are allocated first (a negative \<open>n\<close> is
  refused by \<^verbatim>\<open>np.zeros\<close>), then the rows are scaled and the columns eliminated.
  \<^verbatim>\<open>ntot\<close> is not used by the source.
\<close>

definition lu_columns :: "int \<Rightarrow> int \<Rightarrow> lu_state \<Rightarrow> error + lu_state" where
  "lu_columns n m s = for_each (py_range 0 m) (lu_column n) s"

definition lu_start :: "matrix \<Rightarrow> fl list \<Rightarrow> int \<Rightarrow> lu_state" where
  "lu_start a vv n = \<lparr>lu_a = a, lu_vv = vv, lu_indx = replicate (nat n) 0, lu_imax = None\<rparr>"

definition lu_decomp :: "matrix \<Rightarrow> int \<Rightarrow> int \<Rightarrow> error + (matrix \<times> 8 word list)" where
  "lu_decomp a n ntot =
     (if n < 0 then Inl ShapeError
      else
        rbind (lu_scale a n (replicate (nat NMAX) (Fin 0))) (\<lambda>vv.
        rbind (lu_columns n n (lu_start a vv n)) (\<lambda>s.
        Inr (lu_a s, lu_indx s))))"

text \<open>
  \<^verbatim>\<open>lu_backsubs\<close>: the forward substitution on \<open>(b, ii)\<close>, then the back substitution
  from row \<open>n-1\<close> down to row 0.
\<close>

definition lu_forward_step ::
  "matrix \<Rightarrow> 8 word list \<Rightarrow> int \<Rightarrow> fl list \<times> int \<Rightarrow> error + (fl list \<times> int)" where
  "lu_forward_step a indx = (\<lambda>i (b, ii).
       rbind (getitem indx i) (\<lambda>w.
       let ll = sint w in
       rbind (getitem b ll) (\<lambda>sum0.
       rbind (getitem b i) (\<lambda>bi.
       rbind (setitem b ll bi) (\<lambda>b1.
       rbind (if ii \<noteq> - 1 then
                rbind (for_each (py_range ii i)
                         (\<lambda>j sum. rbind (getitem2 a i j) (\<lambda>x.
                                   rbind (getitem b1 j) (\<lambda>y. Inr (sum - x * y)))) sum0)
                  (\<lambda>sum. Inr (sum, ii))
              else if sum0 \<noteq> Fin 0 then Inr (sum0, i)
              else Inr (sum0, ii)) (\<lambda>(sum, ii').
       rbind (setitem b1 i sum) (\<lambda>b2. Inr (b2, ii'))))))))"

definition lu_forward ::
  "matrix \<Rightarrow> int \<Rightarrow> 8 word list \<Rightarrow> fl list \<times> int \<Rightarrow> error + (fl list \<times> int)" where
  "lu_forward a n indx = for_each (py_range 0 n) (lu_forward_step a indx)"

definition lu_back :: "matrix \<Rightarrow> int \<Rightarrow> fl list \<Rightarrow> error + fl list" where
  "lu_back a n =
     for_each (rev (py_range 0 n)) (\<lambda>i b.
       rbind (getitem b i) (\<lambda>sum0.
       rbind (for_each (py_range (i + 1) n)
                (\<lambda>j sum. rbind (getitem2 a i j) (\<lambda>x.
                          rbind (getitem b j) (\<lambda>y. Inr (sum - x * y)))) sum0) (\<lambda>sum.
       rbind (getitem2 a i i) (\<lambda>piv.
       rbind (fdiv sum piv) (\<lambda>q. setitem b i q)))))"

definition lu_backsubs ::
  "matrix \<Rightarrow> int \<Rightarrow> int \<Rightarrow> 8 word list \<Rightarrow> fl list \<Rightarrow> error + fl list" where
  "lu_backsubs a n ntot indx b =
     rbind (lu_forward a n indx (b, - 1)) (\<lambda>(b1, ii). lu_back a n b1)"

definition mat_sol :: "matrix \<Rightarrow> int \<Rightarrow> int \<Rightarrow> fl list \<Rightarrow> error + (matrix \<times> fl list)" where
  "mat_sol a nlevel nstrat dflux =
     rbind (lu_decomp a nstrat nlevel) (\<lambda>(anew, indx).
     rbind (lu_backsubs anew nstrat nlevel indx dflux) (\<lambda>bnew. Inr (anew, bnew)))"

section \<open>NewtonSolver: check_convergence\<close>

text \<open>
  The three tests of \<^verbatim>\<open>check_convergence\<close>: the largest residual, the gradient test of
  the small-step path (computed with \<^verbatim>\<open>dflux\<close>) and the largest relative temperature
  change. The result is \<open>(flag_converge, check)\<close>.
\<close>

definition cc_residual :: "fl list \<Rightarrow> int \<Rightarrow> error + fl" where
  "cc_residual f_vec n_total =
     for_each (py_range 0 n_total)
       (\<lambda>i test. rbind (getitem f_vec i) (\<lambda>x. Inr (if test < \<bar>x\<bar> then \<bar>x\<bar> else test)))
       (Fin 0)"

definition cc_gradient :: "fl list \<Rightarrow> fl list \<Rightarrow> fl \<Rightarrow> int \<Rightarrow> error + fl" where
  "cc_gradient g dflux den1 n_total =
     for_each (py_range 0 n_total)
       (\<lambda>i test. rbind (getitem g i) (\<lambda>gi. rbind (getitem dflux i) (\<lambda>di.
                  rbind (fdiv (\<bar>gi\<bar> * di) den1) (\<lambda>tmp.
                  Inr (if test < tmp then tmp else test)))))
       (Fin 0)"

definition cc_tempchange :: "fl list \<Rightarrow> fl list \<Rightarrow> int \<Rightarrow> error + fl" where
  "cc_tempchange temp temp_old n_total =
     for_each (py_range 0 n_total)
       (\<lambda>i test. rbind (getitem temp i) (\<lambda>ti. rbind (getitem temp_old i) (\<lambda>oi.
                  rbind (fdiv \<bar>ti - oi\<bar> oi) (\<lambda>tmp.
                  Inr (if test < tmp then tmp else test)))))
       (Fin 0)"

definition check_convergence ::
  "fl list \<Rightarrow> int \<Rightarrow> fl \<Rightarrow> bool \<Rightarrow> fl \<Rightarrow> fl list \<Rightarrow> fl \<Rightarrow> fl list \<Rightarrow> fl list \<Rightarrow> fl list \<Rightarrow> fl
     \<Rightarrow> error + (int \<times> bool)" where
  "check_convergence f_vec n_total tolf check f dflux tolmin temp temp_old g tolx =
     rbind (cc_residual f_vec n_total) (\<lambda>test.
     if test < tolf then Inr (2, False)
     else if check then
       (let den1 = py_max f (Fin 0.5 * of_py_int n_total) in
        rbind (cc_gradient g dflux den1 n_total) (\<lambda>test.
        if test < tolmin then Inr (2, True) else Inr (2, False)))
     else
       rbind (cc_tempchange temp temp_old n_total) (\<lambda>test.
       if test < tolx then Inr (2, check) else Inr (1, check)))"

section \<open>NewtonSolver: the data of t_start\<close>

text \<open>
  The flux engine. \<^verbatim>\<open>climate\<close> allocates the arrays it returns and hands its
  arguments to the two-stream kernels of \<^verbatim>\<open>fluxes.py\<close>, which are not part of this
  file; it assigns to none of its array arguments. It is taken as a function of the
  pressure and temperature profiles, the two band selectors \<^verbatim>\<open>reflected\<close> and
  \<^verbatim>\<open>thermal\<close> and the patchy-cloud switch (the optical arrays are the same in every
  call of one run of \<^verbatim>\<open>t_start\<close>). Its result is the tuple of eight arrays.
\<close>

record flux =
  fx_net_v_layer_full :: "fl list list list"
  fx_net_v_full :: "fl list list list"
  fx_plus_v_full :: "fl list list list list"
  fx_minus_v_full :: "fl list list list list"
  fx_net_ir_layer_full :: "fl list"
  fx_net_ir_full :: "fl list"
  fx_plus_ir_full :: "fl list list"
  fx_minus_ir_full :: "fl list list"

text \<open>
  The arguments of \<^verbatim>\<open>t_start\<close> that are scalars, tables or functions.
  \<^verbatim>\<open>moist_grad\<close> reads an object of the opacity layer and is taken as a function of
  temperature and pressure. \<open>in_do_holes\<close> and \<open>in_moist\<close> are the tests
  \<^verbatim>\<open>do_holes == True\<close> and \<^verbatim>\<open>moist == True\<close>. \<^verbatim>\<open>conv\<close> and \<^verbatim>\<open>x_max_mult\<close> are unused.
  \<open>in_around_temp k i\<close> is what lies at position \<open>i\<close> of the \<open>k\<close>-th buffer bound to the
  name \<^verbatim>\<open>temp\<close>, for a position \<open>i\<close> outside that buffer: buffer 0 is the array of the
  caller, the later ones are the copies made by the NaN guard.
\<close>

text \<open>
  The memory around the profile. The damper of the line search reads and writes
  \<^verbatim>\<open>temp[nlevel]\<close>, one position past the profile, and the compiled code does not check
  the index. Which array lies there is decided by the allocator, not by this file: it
  is an argument of the model. A position outside a buffer bound to \<^verbatim>\<open>temp\<close> is an
  entry of the pressure array of the caller, an entry of its tidal array, or memory
  that no float array of the caller occupies (a write there changes no array that
  \<^verbatim>\<open>t_start\<close> reads afterwards in the model).
\<close>

datatype cell = In_pressure nat | In_tidal nat | Outside

record inputs =
  in_nofczns :: int
  in_it_max :: int
  in_rfaci :: fl
  in_rfacv :: fl
  in_nlevel :: int
  in_p_table :: "fl list"
  in_t_table :: "fl list"
  in_grad :: matrix
  in_cp :: matrix
  in_tmin :: fl
  in_tmax :: fl
  in_save_profile :: int
  in_do_holes :: bool
  in_moist :: bool
  in_climate :: "fl list \<Rightarrow> fl list \<Rightarrow> bool \<Rightarrow> bool \<Rightarrow> bool \<Rightarrow> flux"
  in_moist_grad :: "fl \<Rightarrow> fl \<Rightarrow> error + (fl \<times> fl)"
  in_around_temp :: "nat \<Rightarrow> int \<Rightarrow> cell"

text \<open>The tuple returned by \<^verbatim>\<open>t_start\<close>.\<close>

record tret =
  r_temp :: "fl list"
  r_dtdp :: "fl list"
  r_flag_converge :: int
  r_flux_net :: "fl list"
  r_flux_plus :: "fl list"
  r_all_profiles :: "fl list"

datatype status = Running | Returned tret | Raised error | OutOfFuel

text \<open>
  The state of \<^verbatim>\<open>t_start\<close>: the arrays of the caller (\<open>st_temp\<close> is the array bound to
  the name \<^verbatim>\<open>temp\<close>, written in place), the local arrays and the local scalars that
  live across statements. \<open>None\<close> is a name not yet assigned. \<open>st_temp_buf\<close> counts the
  buffers that the name \<^verbatim>\<open>temp\<close> has been bound to after the first. \<open>st_status\<close> says
  whether the function is still running, has returned, has raised, or whether the
  line search was cut off by the bound on its iterations that the model adds.
\<close>

record tstate =
  st_temp :: "fl list"
  st_pressure :: "fl list"
  st_tidal :: "fl list"
  st_nstr :: "int list"
  st_all_profiles :: "fl list"
  st_beta :: "fl list"
  st_temp_old :: "fl list"
  st_flux_net :: "fl list"
  st_flux_net_midpt :: "fl list"
  st_flux_net_old :: "fl list"
  st_flux_net_midpt_old :: "fl list"
  st_flux_net_v_layer :: "fl list"
  st_flux_net_v :: "fl list"
  st_flux_net_ir_layer :: "fl list"
  st_flux_net_ir :: "fl list"
  st_flux_plus_ir :: "fl list list"
  st_dflux :: "fl list"
  st_f_vec :: "fl list"
  st_p :: "fl list"
  st_g :: "fl list"
  st_A :: matrix
  st_n_total :: int
  st_sum_1 :: fl
  st_test :: fl
  st_step_max :: fl
  st_f :: fl
  st_f_old :: fl
  st_f2 :: fl
  st_slope :: fl
  st_alamin :: fl
  st_alam :: fl
  st_alam2 :: fl
  st_tmplam :: "fl option"
  st_check :: bool
  st_flag_converge :: "int option"
  st_jmx :: "int option"
  st_no :: int
  st_flag_no :: int
  st_ndo :: int
  st_flag_ndo :: int
  st_temp_buf :: nat
  st_status :: status

text \<open>
  A statement that raises leaves the state as it is and records the exception; a list
  of statements stops at the first one that raises or returns.
\<close>

definition raise :: "error \<Rightarrow> tstate \<Rightarrow> tstate" where
  "raise e s = s\<lparr>st_status := Raised e\<rparr>"

definition exec :: "tstate \<Rightarrow> error + tstate \<Rightarrow> tstate" where
  "exec s r = (case r of Inl e \<Rightarrow> raise e s | Inr s' \<Rightarrow> s')"

primrec run :: "(tstate \<Rightarrow> tstate) list \<Rightarrow> tstate \<Rightarrow> tstate" where
  "run [] s = s"
| "run (stmt # rest) s = (if st_status s = Running then run rest (stmt s) else s)"

definition ts_for :: "int list \<Rightarrow> (int \<Rightarrow> tstate \<Rightarrow> tstate) \<Rightarrow> tstate \<Rightarrow> tstate" where
  "ts_for xs body = run (map body xs)"

text \<open>\<^verbatim>\<open>range(0, 3*nofczns, 3)\<close>\<close>

definition zone_range :: "int \<Rightarrow> int list" where
  "zone_range nofczns = map (\<lambda>k. 3 * k) (py_range 0 nofczns)"

text \<open>
  Array arithmetic of numpy on vectors: a scalar times a vector, and the sum of two
  vectors, where a vector of one entry is broadcast and other lengths that differ are
  refused.
\<close>

definition np_scale :: "fl \<Rightarrow> fl list \<Rightarrow> fl list" where
  "np_scale c xs = map (\<lambda>x. c * x) xs"

definition np_add :: "fl list \<Rightarrow> fl list \<Rightarrow> error + fl list" where
  "np_add xs ys =
     (if length xs = length ys then Inr (map2 (+) xs ys)
      else if length xs = 1 then Inr (map (\<lambda>y. hd xs + y) ys)
      else if length ys = 1 then Inr (map (\<lambda>x. x + hd ys) xs)
      else Inl ShapeError)"

definition np_zeros :: "int \<Rightarrow> error + fl list" where
  "np_zeros n = (if n < 0 then Inl ShapeError else Inr (replicate (nat n) (Fin 0)))"

definition np_zeros2 :: "int \<Rightarrow> error + matrix" where
  "np_zeros2 n =
     (if n < 0 then Inl ShapeError else Inr (replicate (nat n) (replicate (nat n) (Fin 0))))"

definition np_sum :: "fl list \<Rightarrow> fl" where
  "np_sum xs = foldl (+) (Fin 0) xs"

text \<open>
  \<^verbatim>\<open>rfaci * flux_net_ir + rfacv * flux_net_v + tidal\<close>
\<close>

definition total_flux :: "fl \<Rightarrow> fl \<Rightarrow> fl list \<Rightarrow> fl list \<Rightarrow> fl list \<Rightarrow> error + fl list" where
  "total_flux rfaci rfacv ir v tidal =
     rbind (np_add (np_scale rfaci ir) (np_scale rfacv v)) (\<lambda>t. np_add t tidal)"

text \<open>
  The three entries of the zone map that describe the zone starting at index \<open>nz\<close>.
\<close>

definition zone_bounds :: "int list \<Rightarrow> int \<Rightarrow> error + (int \<times> int \<times> int)" where
  "zone_bounds nstr nz =
     rbind (getitem nstr nz) (\<lambda>a.
     rbind (getitem nstr (nz + 1)) (\<lambda>b.
     rbind (getitem nstr (nz + 2)) (\<lambda>c. Inr (a, b, c))))"

text \<open>
  A statement that starts by reading the three entries of its zone.
\<close>

definition with_zone ::
  "int \<Rightarrow> (int \<Rightarrow> int \<Rightarrow> int \<Rightarrow> tstate \<Rightarrow> tstate) \<Rightarrow> tstate \<Rightarrow> tstate" where
  "with_zone nz body s =
     (case zone_bounds (st_nstr s) nz of
        Inl e \<Rightarrow> raise e s
      | Inr (a, b, c) \<Rightarrow> body a b c s)"

text \<open>
  The lapse rate computed before every return (source lines 557 to 559, 993 to 995 and
  1004 to 1006).
\<close>

definition lapse_rate :: "int \<Rightarrow> fl list \<Rightarrow> fl list \<Rightarrow> error + fl list" where
  "lapse_rate nlevel temp pressure =
     rbind (np_zeros (nlevel - 1))
       (for_each (py_range 0 (nlevel - 1)) (\<lambda>j dtdp.
          rbind (getitem temp j) (\<lambda>t0.
          rbind (getitem temp (j + 1)) (\<lambda>t1.
          rbind (getitem pressure j) (\<lambda>p0.
          rbind (getitem pressure (j + 1)) (\<lambda>p1.
          rbind (fdiv (flog t0 - flog t1) (flog p0 - flog p1)) (\<lambda>q.
          setitem dtdp j q)))))))"

section \<open>NewtonSolver: the residual of the base flux\<close>

text \<open>
  The residual assembly (source lines 488 to 549). Its local state: the two vectors,
  the three accumulators, the count of radiative levels, and the offset \<^verbatim>\<open>nao\<close> with
  its flag (a negative offset is set to 0 for the first zone and restored afterwards;
  \<open>rs_nao_temporary\<close> is read only when the flag is 1, that is after it was assigned).
\<close>

record resid =
  rs_dflux :: "fl list"
  rs_f_vec :: "fl list"
  rs_sum :: fl
  rs_sum_1 :: fl
  rs_test :: fl
  rs_n_total :: int
  rs_nao :: int
  rs_flag_nao :: int
  rs_nao_temporary :: int

definition resid_start :: "int \<Rightarrow> fl list \<Rightarrow> fl list \<Rightarrow> resid" where
  "resid_start n_top_r dflux f_vec =
     \<lparr>rs_dflux = dflux, rs_f_vec = f_vec, rs_sum = Fin 0, rs_sum_1 = Fin 0, rs_test = Fin 0,
      rs_n_total = 0,
      rs_nao = (if n_top_r < 0 then 0 else n_top_r),
      rs_flag_nao = (if n_top_r < 0 then 1 else 0),
      rs_nao_temporary = n_top_r\<rparr>"

text \<open>
  One residual entry: \<^verbatim>\<open>dflux[k] = v; f_vec[k] = dflux[k]; sum += f_vec[k]**2;
  sum_1 += temp[k]**2; if abs(f_vec[k]) > test: test = abs(dflux[k]); n_total += 1\<close>.
\<close>

definition resid_entry :: "fl list \<Rightarrow> int \<Rightarrow> fl \<Rightarrow> resid \<Rightarrow> error + resid" where
  "resid_entry temp k v r =
     rbind (setitem (rs_dflux r) k v) (\<lambda>dflux.
     rbind (setitem (rs_f_vec r) k v) (\<lambda>f_vec.
     rbind (getitem temp k) (\<lambda>t.
     Inr (r\<lparr>rs_dflux := dflux, rs_f_vec := f_vec,
            rs_sum := rs_sum r + v * v,
            rs_sum_1 := rs_sum_1 r + t * t,
            rs_test := (if rs_test r < \<bar>v\<bar> then \<bar>v\<bar> else rs_test r),
            rs_n_total := rs_n_total r + 1\<rparr>))))"

definition resid_zone ::
  "int \<Rightarrow> int list \<Rightarrow> fl list \<Rightarrow> fl list \<Rightarrow> fl list \<Rightarrow> int \<Rightarrow> resid \<Rightarrow> error + resid" where
  "resid_zone n_top_r nstr flux_net flux_net_midpt temp nca r =
     rbind (zone_bounds nstr nca) (\<lambda>(n_top_a, n_strt_a, nb).
     let n_bot_a = nb + 1 in
     rbind (if n_top_a = n_top_r + 1 then
              rbind (getitem flux_net (n_top_r + 1)) (\<lambda>v. resid_entry temp 0 v r)
            else Inr r) (\<lambda>r1.
     rbind (for_each (py_range (n_top_a + 1) (n_strt_a + 1))
              (\<lambda>j r. rbind (getitem flux_net_midpt (j - 1))
                       (\<lambda>v. resid_entry temp (j - rs_nao r) v r)) r1) (\<lambda>r2.
     let r3 = (if rs_flag_nao r2 = 1
               then r2\<lparr>rs_nao := rs_nao_temporary r2, rs_flag_nao := 0\<rparr> else r2)
     in Inr (r3\<lparr>rs_nao := rs_nao r3 + (n_bot_a - n_strt_a)\<rparr>))))"

definition residual ::
  "int \<Rightarrow> int \<Rightarrow> int list \<Rightarrow> fl list \<Rightarrow> fl list \<Rightarrow> fl list \<Rightarrow> fl list \<Rightarrow> fl list
     \<Rightarrow> error + resid" where
  "residual n_top_r nofczns nstr flux_net flux_net_midpt temp dflux f_vec =
     for_each (zone_range nofczns) (resid_zone n_top_r nstr flux_net flux_net_midpt temp)
       (resid_start n_top_r dflux f_vec)"

section \<open>NewtonSolver: the Jacobian\<close>

text \<open>
  A convective level: the temperature at level \<open>j1\<close> follows the adiabat from level
  \<open>j1 - 1\<close> (source lines 625 to 633 and 835 to 842). The gradient is evaluated at the
  temperature \<open>tsrc[j1-1]\<close>: \<^verbatim>\<open>beta\<close> in the Jacobian, \<^verbatim>\<open>temp\<close> in the line search.
\<close>

definition adiabat_level ::
  "inputs \<Rightarrow> fl list \<Rightarrow> fl list \<Rightarrow> int \<Rightarrow> fl list \<Rightarrow> error + fl list" where
  "adiabat_level inp pressure tsrc j1 temp =
     rbind (getitem pressure (j1 - 1)) (\<lambda>p0.
     rbind (getitem pressure j1) (\<lambda>p1.
     let press = fsqrt (p0 * p1) in
     rbind (getitem tsrc (j1 - 1)) (\<lambda>tb.
     rbind (if in_moist inp then in_moist_grad inp tb press
            else did_grad_cp tb press (in_t_table inp) (in_p_table inp)
                   (in_grad inp) (in_cp inp)) (\<lambda>(grad_x, cp_x).
     rbind (getitem temp (j1 - 1)) (\<lambda>t0.
     setitem temp j1 (fexp (flog t0 + grad_x * (flog p1 - flog p0))))))))"

definition copy_beta :: "int \<Rightarrow> tstate \<Rightarrow> tstate" where
  "copy_beta j1 s =
     exec s (rbind (getitem (st_beta s) j1) (\<lambda>v.
             rbind (setitem (st_temp s) j1 v) (\<lambda>t. Inr (s\<lparr>st_temp := t\<rparr>))))"

definition adiabat_beta :: "inputs \<Rightarrow> int \<Rightarrow> tstate \<Rightarrow> tstate" where
  "adiabat_beta inp j1 s =
     exec s (rbind (adiabat_level inp (st_pressure s) (st_beta s) j1 (st_temp s))
               (\<lambda>t. Inr (s\<lparr>st_temp := t\<rparr>)))"

definition adiabat_temp :: "inputs \<Rightarrow> int \<Rightarrow> tstate \<Rightarrow> tstate" where
  "adiabat_temp inp j1 s =
     exec s (rbind (adiabat_level inp (st_pressure s) (st_temp s) j1 (st_temp s))
               (\<lambda>t. Inr (s\<lparr>st_temp := t\<rparr>)))"

text \<open>
  The profile rebuilt from the perturbed \<^verbatim>\<open>beta\<close> (source lines 604 to 633): in every
  zone the radiative levels are copied and the convective levels follow the adiabat.
\<close>

definition reconstruct_zone :: "inputs \<Rightarrow> int \<Rightarrow> tstate \<Rightarrow> tstate" where
  "reconstruct_zone inp nb =
     with_zone nb (\<lambda>a n_strt_b c.
       let n_top_b = (if nb = 0 then a + 1 - 1 else a + 1);
           n_conv_top_b = n_strt_b + 1;
           n_bot_b = c + 1
       in run [ts_for (py_range n_top_b (n_strt_b + 1)) copy_beta,
               ts_for (py_range n_conv_top_b (n_bot_b + 1)) (adiabat_beta inp)])"

definition reconstruct :: "inputs \<Rightarrow> tstate \<Rightarrow> tstate" where
  "reconstruct inp = ts_for (zone_range (in_nofczns inp)) (reconstruct_zone inp)"

text \<open>
  The thermal-only call of the flux engine and the extraction of its infrared arrays
  (source lines 640 to 658 and 859 to 877).
\<close>

definition thermal_flux :: "inputs \<Rightarrow> tstate \<Rightarrow> tstate" where
  "thermal_flux inp s =
     (let fx = in_climate inp (st_pressure s) (st_temp s) False True False;
          fx = (if in_do_holes inp
                then in_climate inp (st_pressure s) (st_temp s) False True True else fx)
      in s\<lparr>st_flux_net_ir_layer := fx_net_ir_layer_full fx,
            st_flux_net_ir := fx_net_ir_full fx,
            st_flux_plus_ir := fx_plus_ir_full fx\<rparr>)"

text \<open>
  One column of the Jacobian (source lines 663 to 711), on the matrix and the offset
  \<^verbatim>\<open>nco\<close> with its flag.
\<close>

definition jac_entry :: "fl list \<Rightarrow> fl list \<Rightarrow> int \<Rightarrow> fl \<Rightarrow> error + fl" where
  "jac_entry new old k del_t =
     rbind (getitem new k) (\<lambda>x. rbind (getitem old k) (\<lambda>y. fdiv (x - y) del_t))"

definition jac_zone ::
  "int \<Rightarrow> tstate \<Rightarrow> fl \<Rightarrow> int \<Rightarrow> int \<Rightarrow> matrix \<times> int \<times> int \<Rightarrow> error + (matrix \<times> int \<times> int)" where
  "jac_zone n_top_r s del_t col nc = (\<lambda>(A, nco, flag_nco).
     rbind (zone_bounds (st_nstr s) nc) (\<lambda>(a, n_strt_c, c).
     let n_top_c = (if nc = 0 then a + 1 - 1 else a + 1);
         n_bot_c = c + 1
     in
     rbind (if n_top_c = n_top_r + 1 then
              rbind (jac_entry (st_flux_net_ir s) (st_flux_net_old s) n_top_c del_t)
                (setitem2 A (n_top_c - nco) col)
            else
              rbind (jac_entry (st_flux_net_ir_layer s) (st_flux_net_midpt_old s)
                       (n_top_c - 1) del_t)
                (setitem2 A (n_top_c - nco) col)) (\<lambda>A1.
     rbind (for_each (py_range n_top_c n_strt_c)
              (\<lambda>im A. rbind (jac_entry (st_flux_net_ir_layer s) (st_flux_net_midpt_old s)
                               im del_t)
                         (setitem2 A (im + 1 - nco) col)) A1) (\<lambda>A2.
     let nco1 = (if flag_nco = 1 then n_top_r else nco)
     in Inr (A2, nco1 + (n_bot_c - n_strt_c), 0)))))"

definition jac_column :: "inputs \<Rightarrow> int \<Rightarrow> fl \<Rightarrow> int \<Rightarrow> tstate \<Rightarrow> tstate" where
  "jac_column inp n_top_r del_t jm s =
     exec s (rbind (for_each (zone_range (in_nofczns inp))
                      (jac_zone n_top_r s del_t (jm - st_no s))
                      (st_A s, if n_top_r < 0 then 0 else n_top_r,
                       if n_top_r < 0 then 1 else 0))
               (\<lambda>(A, nco, flag_nco). Inr (s\<lparr>st_A := A\<rparr>)))"

definition add_beta :: "int \<Rightarrow> fl \<Rightarrow> tstate \<Rightarrow> tstate" where
  "add_beta jm d s =
     exec s (rbind (getitem (st_beta s) jm) (\<lambda>b.
             rbind (setitem (st_beta s) jm (b + d)) (\<lambda>beta. Inr (s\<lparr>st_beta := beta\<rparr>))))"

definition sub_beta :: "int \<Rightarrow> fl \<Rightarrow> tstate \<Rightarrow> tstate" where
  "sub_beta jm d s =
     exec s (rbind (getitem (st_beta s) jm) (\<lambda>b.
             rbind (setitem (st_beta s) jm (b - d)) (\<lambda>beta. Inr (s\<lparr>st_beta := beta\<rparr>))))"

text \<open>
  The perturbation of one radiative level \<open>jm\<close> (source lines 595 to 715), with
  \<^verbatim>\<open>eps = 1e-4\<close>.
\<close>

definition jacobian_level :: "inputs \<Rightarrow> int \<Rightarrow> int \<Rightarrow> tstate \<Rightarrow> tstate" where
  "jacobian_level inp n_top_r jm s =
     (case getitem (st_temp_old s) jm of
        Inl e \<Rightarrow> raise e s
      | Inr t \<Rightarrow>
          let del_t = py_max (Fin (1 / 10000) * t) (Fin 3)
          in run [add_beta jm del_t, reconstruct inp, thermal_flux inp,
                  jac_column inp n_top_r del_t jm, sub_beta jm del_t] s)"

definition next_no :: "int \<Rightarrow> int \<Rightarrow> tstate \<Rightarrow> tstate" where
  "next_no n_top_r d s =
     (let s1 = (if st_flag_no s = 1 then s\<lparr>st_no := n_top_r, st_flag_no := 0\<rparr> else s)
      in s1\<lparr>st_no := st_no s1 + d\<rparr>)"

definition jacobian_zone :: "inputs \<Rightarrow> int \<Rightarrow> int \<Rightarrow> tstate \<Rightarrow> tstate" where
  "jacobian_zone inp n_top_r nz =
     with_zone nz (\<lambda>a n_strt c.
       let n_top = (if nz = 0 then a + 1 - 1 else a + 1);
           n_conv_bot = c + 1
       in run [ts_for (py_range n_top (n_strt + 1)) (jacobian_level inp n_top_r),
               next_no n_top_r (n_conv_bot - n_strt)])"

definition jacobian :: "inputs \<Rightarrow> int \<Rightarrow> tstate \<Rightarrow> tstate" where
  "jacobian inp n_top_r s =
     ts_for (zone_range (in_nofczns inp)) (jacobian_zone inp n_top_r)
       (s\<lparr>st_no := (if n_top_r < 0 then 0 else n_top_r),
          st_flag_no := (if n_top_r < 0 then 1 else 0)\<rparr>)"

section \<open>NewtonSolver: direction and step\<close>

text \<open>
  The gradient \<open>g = A\<^sup>T f_vec\<close> and the right-hand side \<open>p = - f_vec\<close> (source lines 726
  to 733), then the linear solve.
\<close>

definition direction ::
  "matrix \<Rightarrow> fl list \<Rightarrow> int \<Rightarrow> fl list \<times> fl list \<Rightarrow> error + (fl list \<times> fl list)" where
  "direction A f_vec n_total =
     for_each (py_range 0 n_total) (\<lambda>i (g, p).
       rbind (for_each (py_range 0 n_total)
                (\<lambda>j sum. rbind (getitem2 A j i) (\<lambda>x.
                          rbind (getitem f_vec j) (\<lambda>y. Inr (sum + x * y)))) (Fin 0)) (\<lambda>sum.
       rbind (setitem g i sum) (\<lambda>g'.
       rbind (getitem f_vec i) (\<lambda>fv.
       rbind (setitem p i (- fv)) (\<lambda>p'. Inr (g', p'))))))"

definition solve_direction :: "inputs \<Rightarrow> tstate \<Rightarrow> tstate" where
  "solve_direction inp s =
     exec s (rbind (direction (st_A s) (st_f_vec s) (st_n_total s) (st_g s, st_p s)) (\<lambda>(g, p).
             rbind (mat_sol (st_A s) (in_nlevel inp) (st_n_total s) p) (\<lambda>(A, p').
             Inr (s\<lparr>st_g := g, st_p := p', st_A := A, st_f_old := st_f s\<rparr>))))"

text \<open>
  The cap on the step (source lines 743 to 760), the slope, the smallest step
  \<^verbatim>\<open>alamin\<close> and the start of the line search (lines 762 to 786), with \<^verbatim>\<open>tolx = 5e-3\<close>.
\<close>

definition step_norm :: "fl list \<Rightarrow> int \<Rightarrow> error + fl" where
  "step_norm p n_total =
     rbind (for_each (py_range 2 n_total)
              (\<lambda>i sum. rbind (getitem p i) (\<lambda>x. Inr (sum + x * x))) (Fin 0))
       (\<lambda>sum. Inr (fsqrt sum))"

definition scale_step ::
  "fl \<Rightarrow> fl \<Rightarrow> int \<Rightarrow> fl list \<times> fl list \<Rightarrow> error + (fl list \<times> fl list)" where
  "scale_step step_max len n_total =
     for_each (py_range 0 n_total) (\<lambda>i (p, dflux).
       rbind (getitem p i) (\<lambda>x.
       rbind (fdiv step_max len) (\<lambda>q.
       rbind (setitem p i (x * q)) (\<lambda>p'.
       rbind (getitem p' i) (\<lambda>y.
       rbind (setitem dflux i (- y)) (\<lambda>dflux'. Inr (p', dflux')))))))"

definition slope_of :: "fl list \<Rightarrow> fl list \<Rightarrow> int \<Rightarrow> error + fl" where
  "slope_of g p n_total =
     for_each (py_range 0 n_total)
       (\<lambda>i slope. rbind (getitem g i) (\<lambda>x. rbind (getitem p i) (\<lambda>y. Inr (slope + x * y))))
       (Fin 0)"

definition rel_step :: "fl list \<Rightarrow> fl list \<Rightarrow> int \<Rightarrow> error + fl" where
  "rel_step p temp_old n_total =
     for_each (py_range 0 n_total)
       (\<lambda>i test. rbind (getitem p i) (\<lambda>x. rbind (getitem temp_old i) (\<lambda>t.
                  rbind (fdiv \<bar>x\<bar> t) (\<lambda>tmp. Inr (if test < tmp then tmp else test)))))
       (Fin 0)"

definition prepare_search :: "tstate \<Rightarrow> tstate" where
  "prepare_search s =
     exec s (rbind (step_norm (st_p s) (st_n_total s)) (\<lambda>sum.
             rbind (if st_step_max s < sum
                    then scale_step (st_step_max s) sum (st_n_total s) (st_p s, st_dflux s)
                    else Inr (st_p s, st_dflux s)) (\<lambda>(p, dflux).
             rbind (slope_of (st_g s) p (st_n_total s)) (\<lambda>slope.
             rbind (rel_step p (st_temp_old s) (st_n_total s)) (\<lambda>test.
             rbind (fdiv (Fin (5 / 1000)) test) (\<lambda>alamin.
             Inr (s\<lparr>st_check := False, st_p := p, st_dflux := dflux, st_slope := slope,
                    st_test := test, st_alamin := alamin, st_alam := Fin 1,
                    st_f2 := st_f s, st_flag_converge := Some 0\<rparr>)))))))"

section \<open>NewtonSolver: the line search\<close>

text \<open>
  The statistics at the head of the loop (source lines 791 to 807). Only \<^verbatim>\<open>jmx\<close>
  outlives them; it is read before any assignment when no step entry is non-zero.
\<close>

definition ls_stats :: "int \<Rightarrow> tstate \<Rightarrow> tstate" where
  "ls_stats n_top_r s =
     exec s (rbind (for_each (py_range 0 (st_n_total s)) (\<lambda>j (dmx, jmx, err).
                      rbind (getitem (st_p s) j) (\<lambda>x.
                      let dzx = \<bar>x\<bar> in
                      Inr (if dmx < dzx then (dzx, Some (j + n_top_r), err + dzx)
                           else (dmx, jmx, err + dzx))))
                      (Fin 0, st_jmx s, Fin 0)) (\<lambda>(dmx, jmx, err).
             rbind (fdiv err (of_py_int (st_n_total s) * Fin 1)) (\<lambda>err'.
             case jmx of
               None \<Rightarrow> Inl UnboundLocalError
             | Some j \<Rightarrow>
                 rbind (getitem (st_nstr s) 1) (\<lambda>n1.
                 rbind (if n1 < j then
                          rbind (getitem (st_nstr s) 2) (\<lambda>n2.
                          rbind (getitem (st_nstr s) 1) (\<lambda>n1'. Inr (j + (n2 - n1'))))
                        else Inr j) (\<lambda>j'.
                 Inr (s\<lparr>st_jmx := Some j'\<rparr>))))))"

text \<open>
  The trial profile \<open>T = T_old + alam * p\<close> in the radiative levels, the adiabat below
  them (source lines 809 to 848).
\<close>

definition move_level :: "int \<Rightarrow> tstate \<Rightarrow> tstate" where
  "move_level j s =
     exec s (rbind (getitem (st_beta s) j) (\<lambda>b.
             rbind (getitem (st_p s) (j - st_ndo s)) (\<lambda>x.
             rbind (setitem (st_temp s) j (b + st_alam s * x)) (\<lambda>t.
             Inr (s\<lparr>st_temp := t\<rparr>)))))"

definition next_ndo :: "int \<Rightarrow> int \<Rightarrow> tstate \<Rightarrow> tstate" where
  "next_ndo n_top_r d s =
     (let s1 = (if st_flag_ndo s = 1 then s\<lparr>st_ndo := n_top_r, st_flag_ndo := 0\<rparr> else s)
      in s1\<lparr>st_ndo := st_ndo s1 + d\<rparr>)"

definition ls_update_zone :: "inputs \<Rightarrow> int \<Rightarrow> int \<Rightarrow> tstate \<Rightarrow> tstate" where
  "ls_update_zone inp n_top_r nd =
     with_zone nd (\<lambda>a n_strt_d c.
       let n_top_d = (if nd = 0 then a + 1 - 1 else a + 1);
           n_bot_d = c + 1
       in run [ts_for (py_range n_top_d (n_strt_d + 1)) move_level,
               ts_for (py_range (n_strt_d + 1) (n_bot_d + 1)) (adiabat_temp inp),
               next_ndo n_top_r (n_bot_d - n_strt_d)])"

definition ls_update :: "inputs \<Rightarrow> int \<Rightarrow> tstate \<Rightarrow> tstate" where
  "ls_update inp n_top_r s =
     ts_for (zone_range (in_nofczns inp)) (ls_update_zone inp n_top_r)
       (s\<lparr>st_ndo := (if n_top_r < 0 then 0 else n_top_r),
          st_flag_ndo := (if n_top_r < 0 then 1 else 0)\<rparr>)"

text \<open>
  The artificial damper (source lines 852 to 856):
  \<^verbatim>\<open>for j1 in range(n_top_r+1, nlevel+1)\<close>, with
  \<^verbatim>\<open>if temp[j1] < tmin: temp[j1] = tmin + 0.1\<close> and
  \<^verbatim>\<open>elif temp[j1] > tmax: temp[j1] = tmax - 0.1\<close>. An index inside the profile (a
  negative one counts from the end) is an entry of the profile. Any other index is a
  position outside the buffer: the same test and the same assignments are made on the
  cell that lies there, and the loop goes on.
\<close>

definition damper_cell :: "inputs \<Rightarrow> int \<Rightarrow> tstate \<Rightarrow> tstate" where
  "damper_cell inp i s =
     (case in_around_temp inp (st_temp_buf s) i of
        In_pressure k \<Rightarrow>
          if k < length (st_pressure s) then
            (let t = st_pressure s ! k in
             if t < in_tmin inp
             then s\<lparr>st_pressure := (st_pressure s)[k := in_tmin inp + Fin (1 / 10)]\<rparr>
             else if in_tmax inp < t
             then s\<lparr>st_pressure := (st_pressure s)[k := in_tmax inp - Fin (1 / 10)]\<rparr>
             else s)
          else s
      | In_tidal k \<Rightarrow>
          if k < length (st_tidal s) then
            (let t = st_tidal s ! k in
             if t < in_tmin inp
             then s\<lparr>st_tidal := (st_tidal s)[k := in_tmin inp + Fin (1 / 10)]\<rparr>
             else if in_tmax inp < t
             then s\<lparr>st_tidal := (st_tidal s)[k := in_tmax inp - Fin (1 / 10)]\<rparr>
             else s)
          else s
      | Outside \<Rightarrow> s)"

definition damper_level :: "inputs \<Rightarrow> int \<Rightarrow> tstate \<Rightarrow> tstate" where
  "damper_level inp j1 s =
     (case py_index (length (st_temp s)) j1 of
        Inr k \<Rightarrow>
          (let t = st_temp s ! k in
           if t < in_tmin inp
           then s\<lparr>st_temp := (st_temp s)[k := in_tmin inp + Fin (1 / 10)]\<rparr>
           else if in_tmax inp < t
           then s\<lparr>st_temp := (st_temp s)[k := in_tmax inp - Fin (1 / 10)]\<rparr>
           else s)
      | Inl e \<Rightarrow>
          damper_cell inp (if j1 < 0 then j1 + int (length (st_temp s)) else j1) s)"

definition damper :: "inputs \<Rightarrow> int \<Rightarrow> tstate \<Rightarrow> tstate" where
  "damper inp n_top_r = ts_for (py_range (n_top_r + 1) (in_nlevel inp + 1)) (damper_level inp)"

text \<open>
  The total net flux (source lines 474 to 475 and 880 to 881); the visible part is the
  one of the first call.
\<close>

definition net_flux :: "inputs \<Rightarrow> tstate \<Rightarrow> tstate" where
  "net_flux inp s =
     exec s (rbind (total_flux (in_rfaci inp) (in_rfacv inp) (st_flux_net_ir s)
                      (st_flux_net_v s) (st_tidal s)) (\<lambda>fn.
             rbind (total_flux (in_rfaci inp) (in_rfacv inp) (st_flux_net_ir_layer s)
                      (st_flux_net_v_layer s) (st_tidal s)) (\<lambda>fm.
             Inr (s\<lparr>st_flux_net := fn, st_flux_net_midpt := fm\<rparr>))))"

text \<open>
  The residual and the merit \<open>f\<close> of the trial profile (source lines 883 to 921).
\<close>

definition ls_resid_entry :: "fl list \<Rightarrow> int \<Rightarrow> fl \<Rightarrow> fl \<Rightarrow> error + (fl list \<times> fl)" where
  "ls_resid_entry f_vec k v acc = rbind (setitem f_vec k v) (\<lambda>fv. Inr (fv, acc + v * v))"

definition ls_resid_zone ::
  "int \<Rightarrow> int list \<Rightarrow> fl list \<Rightarrow> fl list \<Rightarrow> int \<Rightarrow> fl list \<times> fl \<times> int \<times> int
     \<Rightarrow> error + (fl list \<times> fl \<times> int \<times> int)" where
  "ls_resid_zone n_top_r nstr flux_net flux_net_midpt nca = (\<lambda>(f_vec, sum, nao, flag_nao).
     rbind (zone_bounds nstr nca) (\<lambda>(a, n_strt_a, c).
     let n_top_a = (if nca = 0 then a + 1 - 1 else a + 1);
         n_bot_a = c + 1
     in
     rbind (if n_top_a = n_top_r + 1 then
              rbind (getitem flux_net (n_top_r + 1)) (\<lambda>v. ls_resid_entry f_vec 0 v sum)
            else
              rbind (getitem flux_net_midpt (n_top_a - 1))
                (\<lambda>v. ls_resid_entry f_vec (n_top_a - nao) v sum)) (\<lambda>(f1, sum1).
     rbind (for_each (py_range (n_top_a + 1) (n_strt_a + 1))
              (\<lambda>j (f_vec, sum). rbind (getitem flux_net_midpt (j - 1))
                                  (\<lambda>v. ls_resid_entry f_vec (j - nao) v sum))
              (f1, sum1)) (\<lambda>(f2, sum2).
     let nao1 = (if flag_nao = 1 then n_top_r else nao)
     in Inr (f2, sum2, nao1 + (n_bot_a - n_strt_a), 0)))))"

definition ls_residual :: "inputs \<Rightarrow> int \<Rightarrow> tstate \<Rightarrow> tstate" where
  "ls_residual inp n_top_r s =
     exec s (rbind (for_each (zone_range (in_nofczns inp))
                      (ls_resid_zone n_top_r (st_nstr s) (st_flux_net s) (st_flux_net_midpt s))
                      (st_f_vec s, Fin 0, if n_top_r < 0 then 0 else n_top_r,
                       if n_top_r < 0 then 1 else 0))
               (\<lambda>(f_vec, sum, nao, flag_nao).
                  Inr (s\<lparr>st_f_vec := f_vec, st_f := Fin (1 / 2) * sum\<rparr>)))"

text \<open>
  The backtracking step \<^verbatim>\<open>tmplam\<close> (source lines 945 to 975): the quadratic model on
  the first trial, the cubic model afterwards, capped at half the step there only.
\<close>

definition backtrack :: "tstate \<Rightarrow> error + fl" where
  "backtrack s =
     (let alam = st_alam s; alam2 = st_alam2 s; f = st_f s; f_old = st_f_old s;
          f2 = st_f2 s; slope = st_slope s
      in
      if alam = Fin 1 then fdiv (- slope) (Fin 2 * (f - f_old - slope))
      else
        (let rhs_1 = f - f_old - alam * slope;
             rhs_2 = f2 - f_old - alam2 * slope
         in
         rbind (fdiv rhs_1 (alam * alam)) (\<lambda>q1.
         rbind (fdiv rhs_2 (alam2 * alam2)) (\<lambda>q2.
         rbind (fdiv (q1 - q2) (alam - alam2)) (\<lambda>anr.
         rbind (fdiv (- alam2 * rhs_1) (alam * alam)) (\<lambda>q3.
         rbind (fdiv (alam * rhs_2) (alam2 * alam2)) (\<lambda>q4.
         rbind (fdiv (q3 + q4) (alam - alam2)) (\<lambda>b.
         rbind (if anr = Fin 0 then fdiv (- slope) (Fin 2 * b)
                else
                  (let disc = b * b - Fin 3 * anr * slope in
                   if disc < Fin 0 then Inr (Fin (1 / 2) * alam)
                   else if b \<le> Fin 0 then fdiv (- b + fsqrt disc) (Fin 3 * anr)
                   else fdiv (- slope) (b + fsqrt disc))) (\<lambda>tmplam.
         Inr (if Fin (1 / 2) * alam < tmplam then Fin (1 / 2) * alam else tmplam))))))))))"

text \<open>
  The three branches after a trial (source lines 923 to 975), with \<^verbatim>\<open>tolf = tolx =
  5e-3\<close>, \<^verbatim>\<open>tolmin = 1e-5\<close> and \<^verbatim>\<open>alf = 1e-4\<close>.
\<close>

definition converged :: "bool \<Rightarrow> tstate \<Rightarrow> tstate" where
  "converged check s =
     exec (s\<lparr>st_check := check\<rparr>)
       (rbind (check_convergence (st_f_vec s) (st_n_total s) (Fin (5 / 1000)) check (st_f s)
                 (st_dflux s) (Fin (1 / 100000)) (st_temp s) (st_temp_old s) (st_g s)
                 (Fin (5 / 1000)))
          (\<lambda>(flag_converge, check').
             Inr (s\<lparr>st_flag_converge := Some flag_converge, st_check := check'\<rparr>)))"

definition ls_decide :: "tstate \<Rightarrow> tstate" where
  "ls_decide s =
     (if st_alam s < st_alamin s then converged True s
      else if st_f s \<le> st_f_old s + Fin (1 / 10000) * st_alam s * st_slope s
      then converged (st_check s) s
      else exec s (rbind (backtrack s) (\<lambda>t. Inr (s\<lparr>st_tmplam := Some t\<rparr>))))"

text \<open>Source lines 976 to 980.\<close>

definition ls_next_alam :: "tstate \<Rightarrow> tstate" where
  "ls_next_alam s =
     (if st_flag_converge s \<noteq> Some 2 \<and> st_flag_converge s \<noteq> Some 1 then
        (case st_tmplam s of
           None \<Rightarrow> raise UnboundLocalError (s\<lparr>st_alam2 := st_alam s, st_f2 := st_f s\<rparr>)
         | Some t \<Rightarrow>
             s\<lparr>st_alam2 := st_alam s, st_f2 := st_f s,
               st_alam := py_max t (Fin (1 / 10) * st_alam s)\<rparr>)
      else s)"

text \<open>
  The NaN guard (source lines 982 to 986): \<^verbatim>\<open>np.isnan(np.sum(temp))\<close>, then
  \<^verbatim>\<open>flag_converge = 1\<close> and \<^verbatim>\<open>temp = temp_old.copy() + 0.5\<close>, which binds the name
  \<^verbatim>\<open>temp\<close> to a new buffer.
\<close>

definition nan_guard :: "tstate \<Rightarrow> tstate" where
  "nan_guard s =
     (if isnan (np_sum (st_temp s))
      then s\<lparr>st_flag_converge := Some 1,
             st_temp := map (\<lambda>x. x + Fin (1 / 2)) (st_temp_old s),
             st_temp_buf := st_temp_buf s + 1\<rparr>
      else s)"

definition line_search_body :: "inputs \<Rightarrow> int \<Rightarrow> tstate \<Rightarrow> tstate" where
  "line_search_body inp n_top_r =
     run [ls_stats n_top_r, ls_update inp n_top_r, damper inp n_top_r, thermal_flux inp,
          net_flux inp, ls_residual inp n_top_r, ls_decide, ls_next_alam, nan_guard]"

text \<open>
  \<^verbatim>\<open>while flag_converge == 0\<close>. The source gives no bound on the number of trials; the
  model takes one and stops with \<open>OutOfFuel\<close> when it is used up.
\<close>

primrec line_search :: "inputs \<Rightarrow> int \<Rightarrow> nat \<Rightarrow> tstate \<Rightarrow> tstate" where
  "line_search inp n_top_r 0 s =
     (if st_status s = Running \<and> st_flag_converge s = Some 0
      then s\<lparr>st_status := OutOfFuel\<rparr> else s)"
| "line_search inp n_top_r (Suc k) s =
     (if st_status s = Running \<and> st_flag_converge s = Some 0
      then line_search inp n_top_r k (line_search_body inp n_top_r s) else s)"

section \<open>NewtonSolver: t_start\<close>

text \<open>
  Every return of \<^verbatim>\<open>t_start\<close>: the lapse rate, then the tuple. The fourth component is
  \<^verbatim>\<open>flux_net_ir\<close> at the two converged returns and \<^verbatim>\<open>flux_net_ir_layer\<close> at the last
  one.
\<close>

definition return_with :: "inputs \<Rightarrow> fl list \<Rightarrow> tstate \<Rightarrow> tstate" where
  "return_with inp flux_out s =
     exec s (rbind (lapse_rate (in_nlevel inp) (st_temp s) (st_pressure s)) (\<lambda>dtdp.
             case st_flag_converge s of
               None \<Rightarrow> Inl UnboundLocalError
             | Some fc \<Rightarrow>
                 rbind (getitem (st_flux_plus_ir s) 0) (\<lambda>fp.
                 Inr (s\<lparr>st_status := Returned
                        \<lparr>r_temp = st_temp s, r_dtdp = dtdp, r_flag_converge = fc,
                         r_flux_net = flux_out, r_flux_plus = fp,
                         r_all_profiles = st_all_profiles s\<rparr>\<rparr>))))"

text \<open>
  Source lines 477 to 486: the copies taken before an outer iteration.
\<close>

definition snapshot :: "tstate \<Rightarrow> tstate" where
  "snapshot s =
     s\<lparr>st_beta := st_temp s, st_temp_old := st_temp s,
       st_flux_net_old := st_flux_net_ir s,
       st_flux_net_midpt_old := st_flux_net_ir_layer s\<rparr>"

definition assemble :: "inputs \<Rightarrow> int \<Rightarrow> tstate \<Rightarrow> tstate" where
  "assemble inp n_top_r s =
     exec s (rbind (residual n_top_r (in_nofczns inp) (st_nstr s) (st_flux_net s)
                      (st_flux_net_midpt s) (st_temp s) (st_dflux s) (st_f_vec s)) (\<lambda>r.
             Inr (s\<lparr>st_dflux := rs_dflux r, st_f_vec := rs_f_vec r,
                    st_sum_1 := rs_sum_1 r, st_test := rs_test r,
                    st_n_total := rs_n_total r, st_f := Fin (1 / 2) * rs_sum r\<rparr>)))"

text \<open>
  The test for a root (source lines 553 to 561):
  \<^verbatim>\<open>if (test/abs(tidal[0])) < 0.01*tolf\<close> with \<^verbatim>\<open>tolf = 5e-3\<close>.
\<close>

definition root_check :: "inputs \<Rightarrow> tstate \<Rightarrow> tstate" where
  "root_check inp s =
     exec s (rbind (getitem (st_tidal s) 0) (\<lambda>t0.
             rbind (fdiv (st_test s) \<bar>t0\<bar>) (\<lambda>q.
             if q < Fin (5 / 100000)
             then Inr (return_with inp (st_flux_net_ir s) (s\<lparr>st_flag_converge := Some 2\<rparr>))
             else Inr s)))"

text \<open>Source line 565: \<^verbatim>\<open>step_max *= max(sqrt(sum_1), n_total*1.0)\<close>.\<close>

definition grow_step_max :: "tstate \<Rightarrow> tstate" where
  "grow_step_max s =
     s\<lparr>st_step_max :=
         st_step_max s * py_max (fsqrt (st_sum_1 s)) (of_py_int (st_n_total s) * Fin 1)\<rparr>"

text \<open>
  After the line search (source lines 987 to 1001). Of the \<^verbatim>\<open>print\<close> only what can
  raise is kept: the extremes of an empty profile and the quotient
  \<^verbatim>\<open>flux_net[0]/abs(tidal[0])\<close>.
\<close>

definition outer_tail :: "inputs \<Rightarrow> tstate \<Rightarrow> tstate" where
  "outer_tail inp s =
     exec s (if st_temp s = [] then Inl ShapeError
             else
               rbind (getitem (st_flux_net s) 0) (\<lambda>f0.
               rbind (getitem (st_tidal s) 0) (\<lambda>t0.
               rbind (fdiv f0 \<bar>t0\<bar>) (\<lambda>q.
               let s1 = (if in_save_profile inp = 1
                         then s\<lparr>st_all_profiles := st_all_profiles s @ st_temp_old s\<rparr>
                         else s)
               in if st_flag_converge s1 = Some 2
                  then Inr (return_with inp (st_flux_net_ir s1) s1)
                  else Inr s1))))"

definition outer_body :: "inputs \<Rightarrow> int \<Rightarrow> nat \<Rightarrow> int \<Rightarrow> tstate \<Rightarrow> tstate" where
  "outer_body inp n_top_r fuel its =
     run [net_flux inp, snapshot, assemble inp n_top_r, root_check inp, grow_step_max,
          jacobian inp n_top_r, solve_direction inp, prepare_search,
          line_search inp n_top_r fuel, outer_tail inp]"

text \<open>
  Source lines 430 to 466: the first call of the flux engine, for both bands, the
  slices \<^verbatim>\<open>[0,0,:]\<close> of the visible arrays, and the local arrays of zeros.
\<close>

definition prologue :: "inputs \<Rightarrow> tstate \<Rightarrow> tstate" where
  "prologue inp s =
     (let fx = in_climate inp (st_pressure s) (st_temp s) True True (in_do_holes inp) in
      exec s (rbind (getitem2 (fx_net_v_layer_full fx) 0 0) (\<lambda>v_layer.
              rbind (getitem2 (fx_net_v_full fx) 0 0) (\<lambda>v.
              rbind (getitem2 (fx_plus_v_full fx) 0 0) (\<lambda>plus_v.
              rbind (getitem2 (fx_minus_v_full fx) 0 0) (\<lambda>minus_v.
              rbind (np_zeros (in_nlevel inp)) (\<lambda>z.
              rbind (np_zeros2 (in_nlevel inp)) (\<lambda>A.
              Inr (s\<lparr>st_flux_net_v_layer := v_layer, st_flux_net_v := v,
                     st_flux_net_ir_layer := fx_net_ir_layer_full fx,
                     st_flux_net_ir := fx_net_ir_full fx,
                     st_flux_plus_ir := fx_plus_ir_full fx,
                     st_flux_net := z, st_flux_net_midpt := z, st_dflux := z,
                     st_f_vec := z, st_p := z, st_g := z, st_A := A\<rparr>)))))))))"

text \<open>
  The state when \<^verbatim>\<open>t_start\<close> is entered: the five arrays of the caller, the constants
  \<^verbatim>\<open>step_max = 0.01\<close> and \<^verbatim>\<open>alam2 = 0.0\<close>, and every other local not yet assigned.
\<close>

definition initial :: "fl list \<Rightarrow> fl list \<Rightarrow> fl list \<Rightarrow> int list \<Rightarrow> fl list \<Rightarrow> tstate" where
  "initial temp pressure tidal nstr all_profiles =
     \<lparr>st_temp = temp, st_pressure = pressure, st_tidal = tidal, st_nstr = nstr,
      st_all_profiles = all_profiles, st_beta = [], st_temp_old = [], st_flux_net = [],
      st_flux_net_midpt = [], st_flux_net_old = [], st_flux_net_midpt_old = [],
      st_flux_net_v_layer = [], st_flux_net_v = [], st_flux_net_ir_layer = [],
      st_flux_net_ir = [], st_flux_plus_ir = [], st_dflux = [], st_f_vec = [], st_p = [],
      st_g = [], st_A = [], st_n_total = 0, st_sum_1 = Fin 0, st_test = Fin 0,
      st_step_max = Fin (1 / 100), st_f = Fin 0, st_f_old = Fin 0, st_f2 = Fin 0,
      st_slope = Fin 0, st_alamin = Fin 0, st_alam = Fin 0, st_alam2 = Fin 0,
      st_tmplam = None, st_check = False, st_flag_converge = None, st_jmx = None,
      st_no = 0, st_flag_no = 0, st_ndo = 0, st_flag_ndo = 0, st_temp_buf = 0,
      st_status = Running\<rparr>"

definition final_return :: "inputs \<Rightarrow> tstate \<Rightarrow> tstate" where
  "final_return inp s = return_with inp (st_flux_net_ir_layer s) s"

definition t_start ::
  "inputs \<Rightarrow> nat \<Rightarrow> fl list \<Rightarrow> fl list \<Rightarrow> fl list \<Rightarrow> int list \<Rightarrow> fl list \<Rightarrow> tstate" where
  "t_start inp fuel temp pressure tidal nstr all_profiles =
     (let s0 = initial temp pressure tidal nstr all_profiles in
      case getitem nstr 0 of
        Inl e \<Rightarrow> raise e s0
      | Inr n0 \<Rightarrow>
          let n_top_r = n0 - 1
          in run [prologue inp,
                  ts_for (py_range 0 (in_it_max inp)) (outer_body inp n_top_r fuel),
                  final_return inp] s0)"

section \<open>A stub of the flux engine\<close>

text \<open>
  A flux engine that returns no visible flux and the same thermal net flux \<open>c\<close> at
  every level, whatever the profile (one gauss angle, one chebyshev angle, one spectral
  bin), and the arguments of a run on a 2-level atmosphere with one zone, no patchy
  clouds, the dry adiabat, temperatures kept between 150 and 4000, and no array of the
  caller next to a profile in memory.
\<close>

definition stub_flux :: "fl \<Rightarrow> nat \<Rightarrow> flux" where
  "stub_flux c n =
     \<lparr>fx_net_v_layer_full = [[replicate n (Fin 0)]],
      fx_net_v_full = [[replicate n (Fin 0)]],
      fx_plus_v_full = [[replicate n [Fin 0]]],
      fx_minus_v_full = [[replicate n [Fin 0]]],
      fx_net_ir_layer_full = replicate n c,
      fx_net_ir_full = replicate n c,
      fx_plus_ir_full = replicate n [Fin 0],
      fx_minus_ir_full = replicate n [Fin 0]\<rparr>"

definition stub_inputs :: "fl \<Rightarrow> inputs" where
  "stub_inputs c =
     \<lparr>in_nofczns = 1, in_it_max = 3, in_rfaci = Fin 1, in_rfacv = Fin 1, in_nlevel = 2,
      in_p_table = [], in_t_table = [], in_grad = [], in_cp = [],
      in_tmin = Fin 150, in_tmax = Fin 4000, in_save_profile = 0,
      in_do_holes = False, in_moist = False,
      in_climate = (\<lambda>pressure temp reflected thermal holes. stub_flux c (length temp)),
      in_moist_grad = (\<lambda>t p. Inr (Fin 0, Fin 0)),
      in_around_temp = (\<lambda>k i. Outside)\<rparr>"

text \<open>
  A flux engine whose thermal net flux at a level is the temperature of that level and
  at a midpoint the temperature of the level below it (no visible flux), and the
  arguments of a run on a 2-level atmosphere in which the pressure array of the caller
  lies right behind its profile in memory: position \<open>2 + k\<close> of the profile is entry
  \<open>k\<close> of the pressure array.
\<close>

definition linear_flux :: "fl list \<Rightarrow> flux" where
  "linear_flux temp =
     \<lparr>fx_net_v_layer_full = [[map (\<lambda>t. Fin 0) temp]],
      fx_net_v_full = [[map (\<lambda>t. Fin 0) temp]],
      fx_plus_v_full = [[map (\<lambda>t. [Fin 0]) temp]],
      fx_minus_v_full = [[map (\<lambda>t. [Fin 0]) temp]],
      fx_net_ir_layer_full = drop 1 temp @ drop (length temp - 1) temp,
      fx_net_ir_full = temp,
      fx_plus_ir_full = map (\<lambda>t. [Fin 0]) temp,
      fx_minus_ir_full = map (\<lambda>t. [Fin 0]) temp\<rparr>"

definition adjacent_inputs :: inputs where
  "adjacent_inputs =
     \<lparr>in_nofczns = 1, in_it_max = 3, in_rfaci = Fin 1, in_rfacv = Fin 1, in_nlevel = 2,
      in_p_table = [], in_t_table = [], in_grad = [], in_cp = [],
      in_tmin = Fin 150, in_tmax = Fin 4000, in_save_profile = 0,
      in_do_holes = False, in_moist = False,
      in_climate = (\<lambda>pressure temp reflected thermal holes. linear_flux temp),
      in_moist_grad = (\<lambda>t p. Inr (Fin 0, Fin 0)),
      in_around_temp = (\<lambda>k i. if k = 0 \<and> 2 \<le> i then In_pressure (nat (i - 2)) else Outside)\<rparr>"

text \<open>
  The states of that run on the profile \<open>[300, 400]\<close>, the pressures \<open>[1, 10]\<close>, the
  tidal flux \<open>-350\<close> and one radiative zone of two levels: after the first call of the
  flux engine, after the residual and the root test, after the Jacobian, after the
  linear solve, before the line search, after the damper of the first trial, after the
  first trial, and after the statements that follow the line search.
\<close>

definition run_entered :: tstate where
  "run_entered =
     prologue adjacent_inputs
       (initial [Fin 300, Fin 400] [Fin 1, Fin 10] [Fin (- 350), Fin (- 350)]
          [0, 1, 0, 0, 0, 0] [])"

definition run_assembled :: tstate where
  "run_assembled =
     run [net_flux adjacent_inputs, snapshot, assemble adjacent_inputs (- 1),
          root_check adjacent_inputs, grow_step_max] run_entered"

definition run_jacobian :: tstate where
  "run_jacobian = jacobian adjacent_inputs (- 1) run_assembled"

definition run_solved :: tstate where
  "run_solved = solve_direction adjacent_inputs run_jacobian"

definition run_prepared :: tstate where
  "run_prepared = prepare_search run_solved"

definition run_damped :: tstate where
  "run_damped =
     run [ls_stats (- 1), ls_update adjacent_inputs (- 1), damper adjacent_inputs (- 1)]
       run_prepared"

definition run_tried :: tstate where
  "run_tried =
     run [thermal_flux adjacent_inputs, net_flux adjacent_inputs,
          ls_residual adjacent_inputs (- 1), ls_decide, ls_next_alam, nan_guard] run_damped"

definition run_returned :: tstate where
  "run_returned = outer_tail adjacent_inputs run_tried"

text \<open>
  A statement that leaves the pressure, the tidal heating and the zone map of a state
  as they are; and a layout of the memory in which no position around a profile
  belongs to an array of the caller.
\<close>

definition same_inputs :: "tstate \<Rightarrow> tstate \<Rightarrow> bool" where
  "same_inputs s s' = (st_pressure s' = st_pressure s \<and> st_tidal s' = st_tidal s
                        \<and> st_nstr s' = st_nstr s)"

definition apart :: "inputs \<Rightarrow> bool" where
  "apart inp = (\<forall>k i. in_around_temp inp k i = Outside)"

definition keeps :: "(tstate \<Rightarrow> tstate) \<Rightarrow> bool" where
  "keeps stmt = (\<forall>s. st_pressure (stmt s) = st_pressure s \<and> st_tidal (stmt s) = st_tidal s
                     \<and> st_nstr (stmt s) = st_nstr s)"

section \<open>Predicates of the statements about the linear solver\<close>

text \<open>
  \<open>upd2\<close> is the matrix after one entry is written. \<open>mat_shape N a\<close>: the array holds
  the active \<open>N \<times> N\<close> submatrix; \<open>mat_finite\<close>: its entries are finite numbers;
  \<open>zero_row\<close>: a row of the active submatrix is zero throughout, so its largest
  magnitude is zero; \<open>vv_ok\<close>: the first \<open>N\<close> scale factors are positive numbers. The
  three \<open>same_...\<close> predicates say which entries of the active submatrix a loop leaves
  as they were.
\<close>

definition upd2 :: "'a list list \<Rightarrow> nat \<Rightarrow> nat \<Rightarrow> 'a \<Rightarrow> 'a list list" where
  "upd2 a i j v = a[i := (a ! i)[j := v]]"

definition mat_shape :: "nat \<Rightarrow> 'a list list \<Rightarrow> bool" where
  "mat_shape N a = (N \<le> length a \<and> (\<forall>i<N. N \<le> length (a ! i)))"

definition mat_finite :: "nat \<Rightarrow> matrix \<Rightarrow> bool" where
  "mat_finite N a = (\<forall>i<N. \<forall>j<N. isfinite (a ! i ! j))"

definition zero_row :: "nat \<Rightarrow> matrix \<Rightarrow> nat \<Rightarrow> bool" where
  "zero_row N a i = (\<forall>j<N. a ! i ! j = Fin 0)"

definition vv_ok :: "nat \<Rightarrow> fl list \<Rightarrow> bool" where
  "vv_ok N vv = (N \<le> length vv \<and> (\<forall>i<N. \<exists>r. 0 < r \<and> vv ! i = Fin r))"

definition mat_ok :: "nat \<Rightarrow> matrix \<Rightarrow> bool" where
  "mat_ok N a = (mat_shape N a \<and> mat_finite N a)"

definition same_off_col :: "nat \<Rightarrow> nat \<Rightarrow> matrix \<Rightarrow> matrix \<Rightarrow> bool" where
  "same_off_col N j a b = (\<forall>r<N. \<forall>c<N. c \<noteq> j \<longrightarrow> b ! r ! c = a ! r ! c)"

definition same_off_rows :: "nat \<Rightarrow> nat \<Rightarrow> nat \<Rightarrow> matrix \<Rightarrow> matrix \<Rightarrow> bool" where
  "same_off_rows N p q a b = (\<forall>r<N. \<forall>c<N. r \<noteq> p \<and> r \<noteq> q \<longrightarrow> b ! r ! c = a ! r ! c)"

definition same_but_below :: "nat \<Rightarrow> nat \<Rightarrow> matrix \<Rightarrow> matrix \<Rightarrow> bool" where
  "same_but_below N j a b = (\<forall>r<N. \<forall>c<N. \<not> (c = j \<and> j < r) \<longrightarrow> b ! r ! c = a ! r ! c)"

text \<open>
  The invariant of the pivot search of column \<open>j\<close> when it reaches row \<open>i\<close>: before the
  first row \<^verbatim>\<open>aamax\<close> is 0, afterwards \<^verbatim>\<open>imax\<close> is assigned a row from \<open>j\<close> to \<open>i-1\<close>.
\<close>

definition pivot_inv ::
  "nat \<Rightarrow> int \<Rightarrow> matrix \<Rightarrow> int \<Rightarrow> matrix \<times> int option \<times> fl \<Rightarrow> bool" where
  "pivot_inv N j a i st = (case st of (a', imax, aamax) \<Rightarrow>
       mat_ok N a' \<and> same_off_col N (nat j) a a' \<and> (\<exists>m. 0 \<le> m \<and> aamax = Fin m) \<and>
       ((i = j \<and> aamax = Fin 0) \<or> (\<exists>im. imax = Some im \<and> j \<le> im \<and> im < i)))"

text \<open>
  The invariant of the column loop before column \<open>j\<close>: the shapes, finite entries,
  positive scale factors, non-zero pivots in the columns done, and in each of them a
  pivot index that is the 8-bit image of a row from that column on.
\<close>

definition diag_nz :: "nat \<Rightarrow> matrix \<Rightarrow> bool" where
  "diag_nz j a = (\<forall>k<j. a ! k ! k \<noteq> Fin 0)"

definition lu_inv :: "nat \<Rightarrow> nat \<Rightarrow> lu_state \<Rightarrow> bool" where
  "lu_inv N j s =
     (mat_ok N (lu_a s) \<and> vv_ok N (lu_vv s) \<and> length (lu_indx s) = N \<and> diag_nz j (lu_a s) \<and>
      (\<forall>k<j. \<exists>im. k \<le> im \<and> im < N \<and> lu_indx s ! k = word_of_int (int im)))"

text \<open>
  \<open>pivots_ok N m s0 s\<close>: for each of the first \<open>m\<close> columns \<open>k\<close>, the pivot index read
  back from the 8-bit array of \<open>s\<close> is the row \<^verbatim>\<open>imax\<close> that the pass for column \<open>k\<close>
  chose (the local \<^verbatim>\<open>imax\<close> after the passes 0 to \<open>k\<close> from the state \<open>s0\<close>), and that
  row lies between \<open>k\<close> and \<open>N - 1\<close>.
\<close>

definition pivots_ok :: "nat \<Rightarrow> nat \<Rightarrow> lu_state \<Rightarrow> lu_state \<Rightarrow> bool" where
  "pivots_ok N m s0 s =
     (\<forall>k<m. \<exists>sk. lu_columns (int N) (int (Suc k)) s0 = Inr sk \<and>
               lu_imax sk = Some (sint (lu_indx s ! k)) \<and>
               int k \<le> sint (lu_indx s ! k) \<and> sint (lu_indx s ! k) < int N)"

definition indx_ok :: "nat \<Rightarrow> 8 word list \<Rightarrow> bool" where
  "indx_ok N indx = (length indx = N \<and> (\<forall>k<N. 0 \<le> sint (indx ! k) \<and> sint (indx ! k) < int N))"

text \<open>
  The clamp of the specification: a temperature below \<open>tmin\<close> becomes \<open>tmin + 0.1\<close>, one
  above \<open>tmax\<close> becomes \<open>tmax - 0.1\<close>, any other is kept.
\<close>

definition spec_clamp :: "fl \<Rightarrow> fl \<Rightarrow> fl \<Rightarrow> fl" where
  "spec_clamp tmin tmax t =
     (if t < tmin then tmin + Fin (1 / 10) else if tmax < t then tmax - Fin (1 / 10) else t)"

section \<open>Basic facts about the model\<close>

lemma rbind_Inr [simp]: "rbind (Inr x) f = f x"
  by (simp add: rbind_def)

lemma rbind_Inl [simp]: "rbind (Inl e) f = Inl e"
  by (simp add: rbind_def)

lemma getitem_nat:
  "0 \<le> i \<Longrightarrow> i < int (length xs) \<Longrightarrow> getitem xs i = Inr (xs ! nat i)"
  by (simp add: getitem_def py_index_def)

lemma setitem_nat:
  "0 \<le> i \<Longrightarrow> i < int (length xs) \<Longrightarrow> setitem xs i v = Inr (xs[nat i := v])"
  by (simp add: setitem_def py_index_def)

lemma minus_Fin [simp]: "Fin a - Fin b = Fin (a - b)"
  by (simp add: minus_fl_def)

lemma fdiv_returns: "d \<noteq> Fin 0 \<Longrightarrow> \<exists>q. fdiv x d = Inr q"
  by (cases x; cases d) auto

lemma py_range_rec: "lo < hi \<Longrightarrow> py_range lo hi = lo # py_range (lo + 1) hi"
  by (simp add: py_range_def upto_rec1)

lemma py_range_empty [simp]: "hi \<le> lo \<Longrightarrow> py_range lo hi = []"
  by (simp add: py_range_def)

lemma set_py_range [simp]: "set (py_range lo hi) = {lo..<hi}"
  by (auto simp: py_range_def)

text \<open>
  Two rules for loops: a loop whose body returns and keeps an invariant returns and
  keeps it; for a range the invariant may depend on the index reached.
\<close>

lemma for_each_inv:
  assumes "P s" "\<And>i s. i \<in> set xs \<Longrightarrow> P s \<Longrightarrow> \<exists>s'. body i s = Inr s' \<and> P s'"
  shows "\<exists>s'. for_each xs body s = Inr s' \<and> P s'"
  using assms
proof (induction xs arbitrary: s)
  case Nil
  then show ?case by simp
next
  case (Cons i xs)
  obtain s1 where s1: "body i s = Inr s1" "P s1" using Cons.prems by fastforce
  show ?case using Cons.IH[OF s1(2)] Cons.prems(2) s1 by simp
qed

lemma for_range_inv:
  assumes "lo \<le> hi" "P lo s"
    "\<And>i s. lo \<le> i \<Longrightarrow> i < hi \<Longrightarrow> P i s \<Longrightarrow> \<exists>s'. body i s = Inr s' \<and> P (i + 1) s'"
  shows "\<exists>s'. for_each (py_range lo hi) body s = Inr s' \<and> P hi s'"
  using assms
proof (induction "nat (hi - lo)" arbitrary: lo s)
  case 0
  then have "lo = hi" by simp
  then show ?case using 0 by simp
next
  case (Suc k)
  then have lt: "lo < hi" by simp
  obtain s1 where s1: "body lo s = Inr s1" "P (lo + 1) s1"
    using Suc.prems(3)[of lo s] Suc.prems lt by auto
  have "\<exists>s'. for_each (py_range (lo + 1) hi) body s1 = Inr s' \<and> P hi s'"
    using Suc.hyps(1)[of "lo + 1" s1] Suc.hyps(2) lt s1 Suc.prems(3) by simp
  then show ?case using s1 lt by (simp add: py_range_rec)
qed

lemma fl_total: "a \<noteq> NaN \<Longrightarrow> b \<noteq> NaN \<Longrightarrow> a \<le> b \<or> b < (a::fl)"
  by (cases a; cases b) auto

lemma fl_less_imp_le: "a < b \<Longrightarrow> a \<le> (b::fl)"
  by (cases a; cases b) auto

lemma fl_le_less_False: "a \<le> b \<Longrightarrow> b < (a::fl) \<Longrightarrow> False"
  by (cases a; cases b) auto

lemma fl_le_trans: "a \<le> b \<Longrightarrow> b \<le> c \<Longrightarrow> a \<le> (c::fl)"
  by (cases a; cases b; cases c) auto

lemma fl_le_refl: "a \<noteq> NaN \<Longrightarrow> a \<le> (a::fl)"
  by (cases a) auto

section \<open>Properties of locate\<close>

lemma int_half_between:
  "1 < ju - jl \<Longrightarrow> jl < int_half (ju + jl) \<and> int_half (ju + jl) < ju"
  by (auto simp: int_half_def)

lemma sorted_nth_le:
  assumes "sorted_wrt (<) (xs::fl list)" "\<forall>x\<in>set xs. x \<noteq> NaN" "i \<le> j" "j < length xs"
  shows "xs ! i \<le> xs ! j"
proof (cases "i = j")
  case True
  then show ?thesis using assms by (simp add: fl_le_refl)
next
  case False
  then have "i < j" using assms by simp
  then have "xs ! i < xs ! j" using assms by (simp add: sorted_wrt_iff_nth_less)
  then show ?thesis by (rule fl_less_imp_le)
qed

text \<open>
  The bisection keeps the query bracketed: the element at \<open>jl\<close> is not above it
  (or \<open>jl\<close> is still 0), the element at \<open>ju\<close> is above it (or \<open>ju\<close> is still the
  length). It always returns, with an index of the array.
\<close>

lemma locate_loop_bracket:
  "\<forall>x\<in>set array. x \<noteq> NaN \<Longrightarrow> v \<noteq> NaN \<Longrightarrow> 0 \<le> jl \<Longrightarrow> jl < ju \<Longrightarrow>
   ju \<le> int (length array) \<Longrightarrow> (jl = 0 \<or> array ! nat jl \<le> v) \<Longrightarrow>
   (ju = int (length array) \<or> v < array ! nat ju) \<Longrightarrow>
   \<exists>r. locate_loop array v jl ju = Inr r \<and> 0 \<le> r \<and> r < int (length array) \<and>
       (r = 0 \<or> array ! nat r \<le> v) \<and> (r + 1 = int (length array) \<or> v < array ! nat (r + 1))"
proof (induction array v jl ju rule: locate_loop.induct)
  case (1 array v jl ju)
  show ?case
  proof (cases "ju - jl > 1")
    case False
    then have ju: "ju = jl + 1" using "1.prems" by simp
    have "locate_loop array v jl ju = Inr jl"
      using False by (subst locate_loop.simps) simp
    then show ?thesis using "1.prems" unfolding ju by (auto simp: add.commute)
  next
    case True
    define jm where "jm = int_half (ju + jl)"
    have b: "jl < jm" "jm < ju" using int_half_between[OF True] by (simp_all add: jm_def)
    then have g: "getitem array jm = Inr (array ! nat jm)"
      using "1.prems" by (simp add: getitem_nat)
    have "nat jm < length array" using b "1.prems" by simp
    then have nn: "array ! nat jm \<noteq> NaN" using "1.prems"(1) by simp
    show ?thesis
    proof (cases "array ! nat jm \<le> v")
      case le: True
      have "\<exists>r. locate_loop array v jm ju = Inr r \<and> 0 \<le> r \<and> r < int (length array) \<and>
         (r = 0 \<or> array ! nat r \<le> v) \<and> (r + 1 = int (length array) \<or> v < array ! nat (r + 1))"
        using "1.IH"(1)[OF True jm_def g le] b "1.prems" le by simp
      moreover have "locate_loop array v jl ju = locate_loop array v jm ju"
        using True g le by (subst locate_loop.simps) (simp add: jm_def[symmetric])
      ultimately show ?thesis by simp
    next
      case nle: False
      then have lt: "v < array ! nat jm" using fl_total[OF nn "1.prems"(2)] by blast
      have "\<exists>r. locate_loop array v jl jm = Inr r \<and> 0 \<le> r \<and> r < int (length array) \<and>
         (r = 0 \<or> array ! nat r \<le> v) \<and> (r + 1 = int (length array) \<or> v < array ! nat (r + 1))"
        using "1.IH"(2)[OF True jm_def g nle] b "1.prems" lt by simp
      moreover have "locate_loop array v jl ju = locate_loop array v jl jm"
        using True g nle by (subst locate_loop.simps) (simp add: jm_def[symmetric])
      ultimately show ?thesis by simp
    qed
  qed
qed

text \<open>
  Claim C6. On a non-empty, strictly increasing array of numbers and for a query that
  is a number (not a NaN), \<open>locate\<close> returns 0 when the query is at most the first
  element, the last index when the query is at least the last element, and otherwise
  the index \<open>r\<close> with \<open>array[r] \<le> query < array[r+1]\<close>; that index is the only one
  bracketing the query and the largest one whose element is at most the query.
\<close>

theorem locate_brackets:
  assumes ne: "array \<noteq> []" and inc: "sorted_wrt (<) array"
    and nn: "\<forall>x\<in>set array. x \<noteq> NaN" and vn: "v \<noteq> NaN"
  shows "\<exists>r. locate array v = Inr r \<and>
     (v \<le> array ! 0 \<longrightarrow> r = 0) \<and>
     (array ! (length array - 1) \<le> v \<longrightarrow> r = int (length array) - 1) \<and>
     (\<not> v \<le> array ! 0 \<and> \<not> array ! (length array - 1) \<le> v \<longrightarrow>
        0 \<le> r \<and> r + 1 < int (length array) \<and>
        array ! nat r \<le> v \<and> v < array ! nat (r + 1) \<and>
        (\<forall>j. j + 1 < length array \<and> array ! j \<le> v \<and> v < array ! (j + 1) \<longrightarrow> int j = r) \<and>
        (\<forall>j < length array. array ! j \<le> v \<longrightarrow> int j \<le> r))"
proof -
  let ?n = "length array"
  have n0: "0 < ?n" using ne by simp
  obtain r0 where r0: "locate_loop array v 0 (int ?n) = Inr r0" "0 \<le> r0" "r0 < int ?n"
      "r0 = 0 \<or> array ! nat r0 \<le> v" "r0 + 1 = int ?n \<or> v < array ! nat (r0 + 1)"
    using locate_loop_bracket[OF nn vn, of 0 "int ?n"] n0 by auto
  have g0: "getitem array 0 = Inr (array ! 0)" using n0 by (simp add: getitem_nat)
  have gl: "getitem array (- 1) = Inr (array ! (?n - 1))"
    using n0 by (cases array) (simp_all add: getitem_def py_index_def)
  have first_nn: "array ! 0 \<noteq> NaN" and last_nn: "array ! (?n - 1) \<noteq> NaN"
    using nn n0 by simp_all
  show ?thesis
  proof (cases "v \<le> array ! 0")
    case True
    then have res: "locate array v = Inr 0"
      by (simp add: locate_def Let_def r0 g0)
    have "array ! (?n - 1) \<le> v \<Longrightarrow> ?n = 1"
    proof (rule ccontr)
      assume a: "array ! (?n - 1) \<le> v" and "?n \<noteq> 1"
      then have "0 < ?n - 1" using n0 by (cases array) auto
      then have "array ! 0 < array ! (?n - 1)" using inc n0 by (simp add: sorted_wrt_iff_nth_less)
      moreover have "array ! (?n - 1) \<le> array ! 0" using a True by (rule fl_le_trans)
      ultimately show False using fl_le_less_False by blast
    qed
    then show ?thesis using res True by auto
  next
    case nfirst: False
    show ?thesis
    proof (cases "array ! (?n - 1) \<le> v")
      case True
      then show ?thesis using nfirst by (simp add: locate_def Let_def r0 g0 gl)
    next
      case nlast: False
      have res: "locate array v = Inr r0"
        using nfirst nlast by (simp add: locate_def Let_def r0 g0 gl)
      have lo: "array ! nat r0 \<le> v"
      proof (cases "r0 = 0")
        case True
        have "array ! 0 < v" using fl_total[OF vn first_nn] nfirst by blast
        then show ?thesis using True by (simp add: fl_less_imp_le)
      next
        case False
        then show ?thesis using r0(4) by simp
      qed
      have r1: "r0 + 1 < int ?n"
      proof (rule ccontr)
        assume "\<not> r0 + 1 < int ?n"
        then have "nat r0 = ?n - 1" using r0(2,3) by simp
        then show False using lo nlast by simp
      qed
      then have hi: "v < array ! nat (r0 + 1)" using r0(5) by simp
      have largest: "int j \<le> r0" if j: "j < ?n" "array ! j \<le> v" for j
      proof (rule ccontr)
        assume "\<not> int j \<le> r0"
        then have "nat (r0 + 1) \<le> j" using r0(2) by simp
        then have "array ! nat (r0 + 1) \<le> array ! j"
          using sorted_nth_le[OF inc nn _ j(1)] by simp
        then have "array ! nat (r0 + 1) \<le> v" using j(2) by (rule fl_le_trans)
        then show False using hi fl_le_less_False by blast
      qed
      have uniq: "int j = r0" if j: "j + 1 < ?n" "array ! j \<le> v" "v < array ! (j + 1)" for j
      proof (rule ccontr)
        assume ne: "int j \<noteq> r0"
        have "int j \<le> r0" using largest[of j] j by simp
        then have "j + 1 \<le> nat r0" using ne by simp
        then have "array ! (j + 1) \<le> array ! nat r0"
          using sorted_nth_le[OF inc nn, of "j + 1" "nat r0"] r0(2,3) by simp
        then have "array ! (j + 1) \<le> v" using lo by (rule fl_le_trans)
        then show False using j(3) fl_le_less_False by blast
      qed
      show ?thesis using res nfirst nlast r0(2) r1 lo hi largest uniq by auto
    qed
  qed
qed

theorem locate_brackets_witness:
  "sorted_wrt (<) [Fin 1, Fin 2, Fin 4] \<and> locate [Fin 1, Fin 2, Fin 4] (Fin 3) = Inr 1
   \<and> locate [Fin 1, Fin 2, Fin 4] (Fin 0) = Inr 0 \<and> locate [Fin 1, Fin 2, Fin 4] PInf = Inr 2"
  using locate_brackets[of "[Fin 1, Fin 2, Fin 4]" "Fin 3"]
    locate_brackets[of "[Fin 1, Fin 2, Fin 4]" "Fin 0"]
    locate_brackets[of "[Fin 1, Fin 2, Fin 4]" "PInf"]
  by auto

section \<open>Properties of growup and growdown\<close>

lemma sint_int64:
  "- (2 ^ 63) \<le> k \<Longrightarrow> k < 2 ^ 63 \<Longrightarrow> sint (word_of_int k :: int64) = k"
  by (simp add: sint_sbintrunc' signed_take_bit_int_eq_self)

text \<open>
  The arithmetic of the two functions wraps around: raising the largest 64-bit integer
  by one gives the smallest.
\<close>

lemma growup_wraps:
  "growup 1 [0, 9223372036854775807, 8] (- 1) = Inr [0, - 9223372036854775808, 8]"
  by (simp add: growup_def getitem_def setitem_def py_index_def)

text \<open>
  Claim C4 as stated fails: \<open>growdown\<close> followed by \<open>growup\<close> on the same zone does
  not restore the zone map. On the map \<open>[0, 5, 8, 0, 0, 0]\<close>, zone 1 and one level,
  \<open>growdown\<close> moves entries 2 and 3 down by one and \<open>growup\<close> then moves entry 1 up by
  one: three entries differ from the original.
\<close>

theorem grow_roundtrip_counterexample:
  "rbind (growdown 1 [0, 5, 8, 0, 0, 0] 1) (\<lambda>m. growup 1 m 1) = Inr [0, 4, 9, 1, 0, 0]
   \<and> [0, 4, 9, 1, 0, 0] \<noteq> [0, 5, 8, 0, 0, (0::int64)]"
  by (simp add: growdown_def growup_def getitem_def setitem_def py_index_def)

text \<open>
  Claim C4, amended. For a zone \<open>z \<ge> 1\<close> whose entries \<open>3z-2\<close>, \<open>3z-1\<close> and \<open>3z\<close> lie in
  the zone map (an array of less than \<open>2\<^sup>6\<^sup>3\<close> entries), \<open>growdown z n\<close> followed by
  \<open>growup z n\<close> returns the map with entry \<open>3z-2\<close> (the top of the convective zone)
  lowered by \<open>n\<close>, entries \<open>3z-1\<close> and \<open>3z\<close> (the bottom of the zone and the top of the
  next region) raised by \<open>n\<close>, in 64-bit arithmetic that wraps around, and every other
  entry unchanged; the result is the original map exactly when \<open>n = 0\<close>.
\<close>

theorem grow_down_then_up:
  assumes "1 \<le> z" "3 * z < int (length nstr)" "length nstr < 2 ^ 63"
  shows "rbind (growdown (word_of_int z) nstr n) (\<lambda>m. growup (word_of_int z) m n) =
     Inr (nstr[nat (3 * z - 1) := nstr ! nat (3 * z - 1) + n,
               nat (3 * z) := nstr ! nat (3 * z) + n,
               nat (3 * z - 2) := nstr ! nat (3 * z - 2) - n])
   \<and> (rbind (growdown (word_of_int z) nstr n) (\<lambda>m. growup (word_of_int z) m n) = Inr nstr
        \<longleftrightarrow> n = 0)"
proof -
  define a where "a = nat (3 * z - 2)"
  have "int (length nstr) < 2 ^ 63" using assms(3) by (simp flip: of_nat_less_iff)
  then have big: "3 * z < 2 ^ 63" using assms(2) by linarith
  have w1: "3 + 3 * (word_of_int z - 1) - 1 = (word_of_int (3 * z - 1) :: int64)"
    and w2: "3 + 3 * (word_of_int z - 1) - 1 + 1 = (word_of_int (3 * z) :: int64)"
    and w3: "2 + 3 * (word_of_int z - 1) - 1 = (word_of_int (3 * z - 2) :: int64)"
    by (simp_all add: algebra_simps)
  have i1: "sint (word_of_int (3 * z - 1) :: int64) = 3 * z - 1"
    by (rule sint_int64) (use assms(1) big in simp_all)
  have i2: "sint (word_of_int (3 * z) :: int64) = 3 * z"
    by (rule sint_int64) (use assms(1) big in simp_all)
  have i3: "sint (word_of_int (3 * z - 2) :: int64) = 3 * z - 2"
    by (rule sint_int64) (use assms(1) big in simp_all)
  have j1: "sint (3 + 3 * (word_of_int z - 1) - 1 :: int64) = 3 * z - 1"
    by (simp only: w1 i1)
  have j2: "sint (3 + 3 * (word_of_int z - 1) - 1 + 1 :: int64) = 3 * z"
    by (simp only: w2 i2)
  have j3: "sint (2 + 3 * (word_of_int z - 1) - 1 :: int64) = 3 * z - 2"
    by (simp only: w3 i3)
  have n1: "nat (3 * z - 1) = Suc a" and n2: "nat (3 * z) = Suc (Suc a)"
    and la: "Suc (Suc a) < length nstr"
    using assms by (simp_all add: a_def nat_eq_iff)
  let ?out = "nstr[Suc a := nstr ! Suc a + n, Suc (Suc a) := nstr ! Suc (Suc a) + n,
                   a := nstr ! a - n]"
  have eq: "rbind (growdown (word_of_int z) nstr n) (\<lambda>m. growup (word_of_int z) m n) = Inr ?out"
    unfolding growdown_def growup_def Let_def j2 j1 j3
    using assms la by (simp add: getitem_nat setitem_nat n1 n2 a_def[symmetric])
  have "(?out = nstr) = (n = 0)"
  proof
    assume h: "?out = nstr"
    have "?out ! a = nstr ! a - n" using la by simp
    with h show "n = 0" by simp
  next
    assume "n = 0"
    then show "?out = nstr" by simp
  qed
  with eq show ?thesis by (simp add: n1 n2 a_def[symmetric])
qed

theorem grow_down_then_up_witness:
  "(1::int) \<le> 2 \<and> 3 * 2 < int (length [0, 3, 5, 6, 8, 9, 10 :: int64])
   \<and> length [0, 3, 5, 6, 8, 9, 10 :: int64] < 2 ^ 63
   \<and> rbind (growdown 2 [0, 3, 5, 6, 8, 9, 10] 2) (\<lambda>m. growup 2 m 2)
       = Inr [0, 3, 5, 6, 6, 11, 12]"
  using grow_down_then_up[of 2 "[0, 3, 5, 6, 8, 9, 10]" 2] by simp


section \<open>Properties of did_grad_cp\<close>

lemma locate_first_interval_53:
  "locate (map (\<lambda>i. Fin (2 * real i)) [0..<53]) (Fin 1) = Inr 0"
  by (simp add: locate_def locate_loop.simps int_half_def getitem_def py_index_def)

lemma locate_first_interval_26:
  "locate (map (\<lambda>i. Fin (2 * real i)) [0..<26]) (Fin 1) = Inr 0"
  by (simp add: locate_def locate_loop.simps int_half_def getitem_def py_index_def)

lemma sorted_even_table: "sorted_wrt (<) (map (\<lambda>i. Fin (2 * real i)) [0..<n])"
  by (simp add: sorted_wrt_iff_nth_less)

text \<open>
  Claim C7 fails on the code for a query inside the first table interval. With the
  strictly increasing tables \<open>0, 2, 4, ...\<close> (53 and 26 entries) and \<open>T = P = 10\<close>, the
  query \<open>log10 = 1\<close> lies strictly between the first two entries and strictly between
  the first and the last entry of each table, so its fractional position is
  \<open>(1 - 0) / (2 - 0) = 1/2\<close>. \<open>locate\<close> returns 0 for it, as it does for a query at or
  below the first entry, and \<^verbatim>\<open>did_grad_cp\<close> takes the branch \<^verbatim>\<open>pos == 0\<close>: both blend
  factors are 0 and the result is the value stored at the first node (gradient 0 and
  \<open>cp = 10^0\<close>), not the interpolated one.
\<close>

theorem did_grad_cp_first_interval:
  "sorted_wrt (<) (map (\<lambda>i. Fin (2 * real i)) [0..<53])
   \<and> sorted_wrt (<) (map (\<lambda>i. Fin (2 * real i)) [0..<26])
   \<and> flog10 (Fin 10) = Fin 1
   \<and> map (\<lambda>i. Fin (2 * real i)) [0..<53] ! 0 = Fin 0
   \<and> map (\<lambda>i. Fin (2 * real i)) [0..<53] ! 1 = Fin 2
   \<and> map (\<lambda>i. Fin (2 * real i)) [0..<53] ! 52 = Fin 104
   \<and> map (\<lambda>i. Fin (2 * real i)) [0..<26] ! 25 = Fin 50
   \<and> fdiv (Fin 1 - Fin 0) (Fin 2 - Fin 0) = Inr (Fin (1 / 2))
   \<and> did_grad_cp_factors (Fin 10) (Fin 10)
        (map (\<lambda>i. Fin (2 * real i)) [0..<53]) (map (\<lambda>i. Fin (2 * real i)) [0..<26])
       = Inr (0, 0, Some (Fin 0), Some (Fin 0))
   \<and> did_grad_cp (Fin 10) (Fin 10)
        (map (\<lambda>i. Fin (2 * real i)) [0..<53]) (map (\<lambda>i. Fin (2 * real i)) [0..<26])
        (map (\<lambda>i. replicate 26 (Fin (real i))) [0..<53])
        (map (\<lambda>i. replicate 26 (Fin (real i))) [0..<53])
       = Inr (Fin 0, Fin 1)"
  by (simp add: did_grad_cp_def did_grad_cp_factors_def locate_first_interval_53
      locate_first_interval_26 sorted_even_table getitem2_def getitem_def py_index_def
      bilinear_def)

section \<open>Properties of check_convergence\<close>

lemma cc_residual_returns:
  assumes "n_total \<le> int (length f_vec)"
  shows "\<exists>t. cc_residual f_vec n_total = Inr t"
proof -
  have "\<exists>t. for_each (py_range 0 n_total)
       (\<lambda>i test. rbind (getitem f_vec i) (\<lambda>x. Inr (if test < \<bar>x\<bar> then \<bar>x\<bar> else test)))
       (Fin 0) = Inr t \<and> True"
    by (rule for_each_inv) (use assms in \<open>auto simp: getitem_nat\<close>)
  then show ?thesis by (simp add: cc_residual_def)
qed

lemma py_max_half_nonzero:
  "1 \<le> n \<Longrightarrow> py_max f (Fin 0.5 * of_py_int n) \<noteq> Fin 0"
  by (cases f) (auto simp: py_max_def of_py_int_def)

lemma cc_gradient_returns:
  assumes "n_total \<le> int (length g)" "n_total \<le> int (length dflux)" "den1 \<noteq> Fin 0"
  shows "\<exists>t. cc_gradient g dflux den1 n_total = Inr t"
proof -
  have "\<exists>t. for_each (py_range 0 n_total)
       (\<lambda>i test. rbind (getitem g i) (\<lambda>gi. rbind (getitem dflux i) (\<lambda>di.
                  rbind (fdiv (\<bar>gi\<bar> * di) den1) (\<lambda>tmp.
                  Inr (if test < tmp then tmp else test)))))
       (Fin 0) = Inr t \<and> True"
  proof (rule for_each_inv)
    fix i s
    assume "i \<in> set (py_range 0 n_total)"
    then have i: "0 \<le> i" "i < int (length g)" "i < int (length dflux)" using assms by auto
    obtain q where "fdiv (\<bar>g ! nat i\<bar> * dflux ! nat i) den1 = Inr q"
      using fdiv_returns[OF assms(3)] by blast
    then show "\<exists>s'. rbind (getitem g i) (\<lambda>gi. rbind (getitem dflux i) (\<lambda>di.
                  rbind (fdiv (\<bar>gi\<bar> * di) den1) (\<lambda>tmp.
                  Inr (if s < tmp then tmp else s)))) = Inr s' \<and> True"
      using i by (simp add: getitem_nat)
  qed simp
  then show ?thesis by (simp add: cc_gradient_def)
qed

text \<open>
  Claim C2 as stated fails. With \<open>check = True\<close> (the small-step path), one residual
  \<open>1 \<ge> tolf\<close>, a gradient test of \<open>|1| * 1 / max(0.5, 0.5) = 2 \<ge> tolmin\<close> and a relative
  temperature change of \<open>|200 - 100| / 100 = 1 \<ge> tolx\<close>, neither criterion holds and
  \<^verbatim>\<open>check_convergence\<close> still returns \<open>flag_converge = 2\<close>, the converged status.
\<close>

theorem check_convergence_small_step_counterexample:
  "cc_residual [Fin 1] 1 = Inr (Fin 1) \<and> \<not> Fin 1 < Fin (5 / 1000)
   \<and> cc_gradient [Fin 1] [Fin 1] (py_max (Fin (1 / 2)) (Fin 0.5 * of_py_int 1)) 1 = Inr (Fin 2)
   \<and> \<not> Fin 2 < Fin (1 / 100000)
   \<and> cc_tempchange [Fin 200] [Fin 100] 1 = Inr (Fin 1) \<and> \<not> Fin 1 < Fin (5 / 1000)
   \<and> check_convergence [Fin 1] 1 (Fin (5 / 1000)) True (Fin (1 / 2)) [Fin 1]
        (Fin (1 / 100000)) [Fin 200] [Fin 100] [Fin 1] (Fin (5 / 1000)) = Inr (2, False)"
  by (simp add: check_convergence_def cc_residual_def cc_gradient_def cc_tempchange_def
      py_range_def upto_rec1 getitem_def py_index_def py_max_def of_py_int_def)

text \<open>
  Claim C2, amended. When the convergence check is entered on the small-step path
  (\<open>check = True\<close>) with residual, gradient and \<^verbatim>\<open>dflux\<close> vectors of at least \<open>n_total\<close>
  entries, it returns \<open>flag_converge = 2\<close> whatever the tests give: when the residual
  test holds the returned \<open>check\<close> is \<open>False\<close>; when it fails the returned \<open>check\<close> says
  whether the gradient test \<open>max_i |g_i| * dflux_i / max(f, 0.5 * n_total) < tolmin\<close>
  holds, and the relative temperature change is not examined (the result does not
  depend on \<^verbatim>\<open>temp\<close>, \<^verbatim>\<open>temp_old\<close> or \<^verbatim>\<open>tolx\<close>).
\<close>

theorem check_convergence_small_step:
  assumes "n_total \<le> int (length f_vec)" "n_total \<le> int (length g)"
    "n_total \<le> int (length dflux)"
  shows "\<exists>t1. cc_residual f_vec n_total = Inr t1 \<and>
     (if t1 < tolf
      then check_convergence f_vec n_total tolf True f dflux tolmin temp temp_old g tolx
             = Inr (2, False)
      else \<exists>t2. cc_gradient g dflux (py_max f (Fin 0.5 * of_py_int n_total)) n_total = Inr t2 \<and>
             check_convergence f_vec n_total tolf True f dflux tolmin temp temp_old g tolx
               = Inr (2, t2 < tolmin))"
proof -
  obtain t1 where t1: "cc_residual f_vec n_total = Inr t1"
    using cc_residual_returns[OF assms(1)] by blast
  show ?thesis
  proof (cases "t1 < tolf")
    case True
    then show ?thesis using t1 by (simp add: check_convergence_def)
  next
    case False
    have "\<exists>t2. cc_gradient g dflux (py_max f (Fin 0.5 * of_py_int n_total)) n_total = Inr t2"
    proof (cases "1 \<le> n_total")
      case True
      then show ?thesis using cc_gradient_returns[OF assms(2,3) py_max_half_nonzero] by blast
    next
      case False
      then show ?thesis by (simp add: cc_gradient_def)
    qed
    then obtain t2
      where t2: "cc_gradient g dflux (py_max f (Fin 0.5 * of_py_int n_total)) n_total = Inr t2"
      by blast
    show ?thesis using t1 t2 False by (auto simp: check_convergence_def Let_def)
  qed
qed

theorem check_convergence_small_step_witness:
  "(2::int) \<le> int (length [Fin 3, Fin (- 4)])
   \<and> cc_residual [Fin 3, Fin (- 4)] 2 = Inr (Fin 4)
   \<and> check_convergence [Fin 3, Fin (- 4)] 2 (Fin (5 / 1000)) True (Fin (25 / 2))
        [Fin 0, Fin 0] (Fin (1 / 100000)) [Fin 500, Fin 900] [Fin 100, Fin 100]
        [Fin 7, Fin 9] (Fin (5 / 1000)) = Inr (2, True)"
  using check_convergence_small_step[of 2 "[Fin 3, Fin (- 4)]" "[Fin 7, Fin 9]"
      "[Fin 0, Fin 0]" "Fin (5 / 1000)" "Fin (25 / 2)" "Fin (1 / 100000)"
      "[Fin 500, Fin 900]" "[Fin 100, Fin 100]" "Fin (5 / 1000)"]
  by (simp add: cc_residual_def cc_gradient_def
      py_range_def upto_rec1 getitem_def py_index_def py_max_def of_py_int_def)

section \<open>Properties of the linear solver\<close>

lemma isfinite_iff: "isfinite x = (\<exists>r. x = Fin r)"
  by (cases x) (simp_all add: isfinite_def)

lemma isfinite_Fin [simp]: "isfinite (Fin r)"
  by (simp add: isfinite_def)

lemma isfinite_ops:
  "isfinite x \<Longrightarrow> isfinite y \<Longrightarrow> isfinite (x - y)"
  "isfinite x \<Longrightarrow> isfinite y \<Longrightarrow> isfinite (x * y)"
  "isfinite x \<Longrightarrow> isfinite \<bar>x\<bar>"
  by (auto simp: isfinite_iff)

lemma getitem2_nat:
  "i < length a \<Longrightarrow> j < length (a ! i) \<Longrightarrow> getitem2 a (int i) (int j) = Inr (a ! i ! j)"
  by (simp add: getitem2_def getitem_nat)

lemma setitem2_nat:
  "i < length a \<Longrightarrow> j < length (a ! i) \<Longrightarrow> setitem2 a (int i) (int j) v = Inr (upd2 a i j v)"
  by (simp add: setitem2_def getitem_nat setitem_nat upd2_def)

lemma nat_lt: "0 \<le> i \<Longrightarrow> i < int N \<Longrightarrow> nat i < N"
  by simp

lemma getitem2_shape:
  assumes "mat_shape N a" "0 \<le> i" "i < int N" "0 \<le> j" "j < int N"
  shows "getitem2 a i j = Inr (a ! nat i ! nat j)"
proof -
  have "nat i < N" "nat j < N" using assms by simp_all
  then have "nat i < length a" "nat j < length (a ! nat i)"
    using assms(1) by (auto simp: mat_shape_def)
  then show ?thesis using getitem2_nat[of "nat i" a "nat j"] assms by simp
qed

lemma setitem2_shape:
  assumes "mat_shape N a" "0 \<le> i" "i < int N" "0 \<le> j" "j < int N"
  shows "setitem2 a i j v = Inr (upd2 a (nat i) (nat j) v)"
proof -
  have "nat i < N" "nat j < N" using assms by simp_all
  then have "nat i < length a" "nat j < length (a ! nat i)"
    using assms(1) by (auto simp: mat_shape_def)
  then show ?thesis using setitem2_nat[of "nat i" a "nat j"] assms by simp
qed

lemma upd2_nth:
  "r < length a \<Longrightarrow> c < length (a ! r) \<Longrightarrow>
   upd2 a i j v ! r ! c = (if r = i \<and> c = j then v else a ! r ! c)"
  by (cases "r = i"; cases "c = j") (simp_all add: upd2_def)

lemma upd2_length [simp]: "length (upd2 a i j v) = length a"
  by (simp add: upd2_def)

lemma upd2_row_length [simp]: "r < length a \<Longrightarrow> length (upd2 a i j v ! r) = length (a ! r)"
  by (cases "r = i") (simp_all add: upd2_def)

lemma upd2_shape: "mat_shape N a \<Longrightarrow> mat_shape N (upd2 a i j v)"
  by (simp add: mat_shape_def)

lemma upd2_nth_shape:
  assumes "mat_shape N a" "r < N" "c < N"
  shows "upd2 a i j v ! r ! c = (if r = i \<and> c = j then v else a ! r ! c)"
proof -
  have "r < length a" "c < length (a ! r)" using assms by (auto simp: mat_shape_def)
  then show ?thesis by (rule upd2_nth)
qed

lemma upd2_finite:
  "mat_shape N a \<Longrightarrow> mat_finite N a \<Longrightarrow> isfinite v \<Longrightarrow> mat_finite N (upd2 a i j v)"
  by (simp add: mat_finite_def upd2_nth_shape)

lemma lu_row_max_spec:
  assumes sh: "mat_shape N a" and fin: "mat_finite N a" and i: "0 \<le> i" "i < int N"
  shows "\<exists>m. lu_row_max a (int N) i = Inr (Fin m) \<and> 0 \<le> m \<and> (m = 0 \<longleftrightarrow> zero_row N a (nat i))"
proof -
  let ?P = "\<lambda>j x. \<exists>m. x = Fin m \<and> 0 \<le> m \<and> (m = 0 \<longleftrightarrow> (\<forall>k<nat j. a ! nat i ! k = Fin 0))"
  have "\<exists>x. for_each (py_range 0 (int N))
       (\<lambda>j aamax. rbind (getitem2 a i j) (\<lambda>x. Inr (if aamax < \<bar>x\<bar> then \<bar>x\<bar> else aamax)))
       (Fin 0) = Inr x \<and> ?P (int N) x"
  proof (rule for_range_inv)
    show "?P 0 (Fin 0)" by simp
  next
    fix j s assume j: "0 \<le> j" "j < int N" and P: "?P j s"
    then obtain m where m: "s = Fin m" "0 \<le> m" "m = 0 \<longleftrightarrow> (\<forall>k<nat j. a ! nat i ! k = Fin 0)" by blast
    have "nat i < N" "nat j < N" using i j by simp_all
    then obtain x where x: "a ! nat i ! nat j = Fin x"
      using fin by (auto simp: mat_finite_def isfinite_iff)
    have g: "getitem2 a i j = Inr (Fin x)" using getitem2_shape[OF sh i j] x by simp
    have n: "nat (j + 1) = Suc (nat j)" using j by simp
    show "\<exists>s'. rbind (getitem2 a i j) (\<lambda>x. Inr (if s < \<bar>x\<bar> then \<bar>x\<bar> else s)) = Inr s' \<and> ?P (j + 1) s'"
      using m x by (auto simp: g n less_Suc_eq)
  qed simp
  then show ?thesis by (auto simp: lu_row_max_def zero_row_def)
qed

lemma for_range_inv_raise:
  assumes "lo \<le> hi" "P lo s"
    "\<And>i s. lo \<le> i \<Longrightarrow> i < hi \<Longrightarrow> P i s \<Longrightarrow>
       (bad i \<and> body i s = Inl e) \<or> (\<not> bad i \<and> (\<exists>s'. body i s = Inr s' \<and> P (i + 1) s'))"
  shows "((\<exists>i. lo \<le> i \<and> i < hi \<and> bad i) \<and> for_each (py_range lo hi) body s = Inl e) \<or>
         ((\<forall>i. lo \<le> i \<and> i < hi \<longrightarrow> \<not> bad i) \<and>
          (\<exists>s'. for_each (py_range lo hi) body s = Inr s' \<and> P hi s'))"
  using assms
proof (induction "nat (hi - lo)" arbitrary: lo s)
  case 0
  then have "lo = hi" by simp
  then show ?case using 0 by auto
next
  case (Suc k)
  then have lt: "lo < hi" by simp
  have pr: "py_range lo hi = lo # py_range (lo + 1) hi" using lt by (rule py_range_rec)
  show ?case
  proof (cases "bad lo")
    case True
    then have "body lo s = Inl e" using Suc.prems(3)[of lo s] Suc.prems(2) lt by auto
    moreover have "\<exists>i. lo \<le> i \<and> i < hi \<and> bad i" using True lt by auto
    ultimately show ?thesis by (simp add: pr)
  next
    case False
    then obtain s1 where s1: "body lo s = Inr s1" "P (lo + 1) s1"
      using Suc.prems(3)[of lo s] Suc.prems(2) lt by auto
    have run: "for_each (py_range lo hi) body s = for_each (py_range (lo + 1) hi) body s1"
      using s1 by (simp add: pr)
    have IH: "((\<exists>i. lo + 1 \<le> i \<and> i < hi \<and> bad i) \<and> for_each (py_range (lo + 1) hi) body s1 = Inl e) \<or>
         ((\<forall>i. lo + 1 \<le> i \<and> i < hi \<longrightarrow> \<not> bad i) \<and>
          (\<exists>s'. for_each (py_range (lo + 1) hi) body s1 = Inr s' \<and> P hi s'))"
      using Suc.hyps(1)[of "lo + 1" s1] Suc.hyps(2) lt s1 Suc.prems(3) by simp
    from IH show ?thesis
    proof
      assume a: "(\<exists>i. lo + 1 \<le> i \<and> i < hi \<and> bad i) \<and> for_each (py_range (lo + 1) hi) body s1 = Inl e"
      then obtain i where "lo + 1 \<le> i" "i < hi" "bad i" by blast
      then have "\<exists>i. lo \<le> i \<and> i < hi \<and> bad i" by (intro exI[of _ i]) simp
      then show ?thesis using a run by simp
    next
      assume a: "(\<forall>i. lo + 1 \<le> i \<and> i < hi \<longrightarrow> \<not> bad i) \<and>
          (\<exists>s'. for_each (py_range (lo + 1) hi) body s1 = Inr s' \<and> P hi s')"
      have "\<not> bad i" if "lo \<le> i" "i < hi" for i
      proof (cases "i = lo")
        case True then show ?thesis using False by simp
      next
        case ne: False
        then have "lo + 1 \<le> i" using that by simp
        then show ?thesis using a that by blast
      qed
      then show ?thesis using a run by simp
    qed
  qed
qed

lemma lu_scale_spec:
  assumes sh: "mat_shape N a" and fin: "mat_finite N a" and len: "N \<le> length vv0"
  shows "((\<exists>i<N. zero_row N a i) \<and> lu_scale a (int N) vv0 = Inl ArrayIsSingular) \<or>
         ((\<forall>i<N. \<not> zero_row N a i) \<and>
          (\<exists>vv. lu_scale a (int N) vv0 = Inr vv \<and> length vv = length vv0 \<and> vv_ok N vv))"
proof -
  let ?P = "\<lambda>i vv. length vv = length vv0 \<and> (\<forall>k<nat i. \<exists>r. 0 < r \<and> vv ! k = Fin r)"
  let ?body = "\<lambda>i vv. rbind (lu_row_max a (int N) i) (\<lambda>aamax.
          if aamax = Fin 0 then Inl ArrayIsSingular
          else rbind (fdiv (Fin 1) aamax) (\<lambda>r. setitem vv i r))"
  let ?bad = "\<lambda>i. zero_row N a (nat i)"
  have "((\<exists>i. 0 \<le> i \<and> i < int N \<and> ?bad i) \<and> for_each (py_range 0 (int N)) ?body vv0 = Inl ArrayIsSingular) \<or>
         ((\<forall>i. 0 \<le> i \<and> i < int N \<longrightarrow> \<not> ?bad i) \<and>
          (\<exists>s'. for_each (py_range 0 (int N)) ?body vv0 = Inr s' \<and> ?P (int N) s'))"
  proof (rule for_range_inv_raise)
    show "?P 0 vv0" by simp
  next
    fix i s assume i: "0 \<le> i" "i < int N" and P: "?P i s"
    obtain m where m: "lu_row_max a (int N) i = Inr (Fin m)" "0 \<le> m" "m = 0 \<longleftrightarrow> zero_row N a (nat i)"
      using lu_row_max_spec[OF sh fin i] by blast
    show "(?bad i \<and> ?body i s = Inl ArrayIsSingular) \<or> (\<not> ?bad i \<and> (\<exists>s'. ?body i s = Inr s' \<and> ?P (i + 1) s'))"
    proof (cases "m = 0")
      case True
      then show ?thesis using m by simp
    next
      case False
      have n: "nat (i + 1) = Suc (nat i)" using i by simp
      have il: "i < int (length s)" using i P len by simp
      have "0 < 1 / m" using False m(2) by simp
      then show ?thesis using False m P i il
        by (auto simp: setitem_nat n less_Suc_eq nth_list_update)
    qed
  qed simp
  moreover have "(\<exists>i. 0 \<le> i \<and> i < int N \<and> ?bad i) = (\<exists>i<N. zero_row N a i)"
    by (metis nat_int nat_less_iff of_nat_0_le_iff of_nat_less_iff)
  moreover have "(\<forall>i. 0 \<le> i \<and> i < int N \<longrightarrow> \<not> ?bad i) = (\<forall>i<N. \<not> zero_row N a i)"
    by (metis nat_int nat_less_iff of_nat_0_le_iff of_nat_less_iff)
  ultimately show ?thesis using len by (auto simp: lu_scale_def vv_ok_def)
qed

lemma sint_int8: "0 \<le> x \<Longrightarrow> x < 128 \<Longrightarrow> sint (word_of_int x :: 8 word) = x"
  by (simp add: sint_sbintrunc' signed_take_bit_int_eq_self)

lemma mat_ok_get:
  assumes "mat_ok N a" "0 \<le> i" "i < int N" "0 \<le> j" "j < int N"
  shows "\<exists>x. getitem2 a i j = Inr (Fin x) \<and> a ! nat i ! nat j = Fin x"
proof -
  have "nat i < N" "nat j < N" using assms by simp_all
  then obtain x where "a ! nat i ! nat j = Fin x"
    using assms(1) by (auto simp: mat_ok_def mat_finite_def isfinite_iff)
  then show ?thesis using getitem2_shape[of N a i j] assms by (simp add: mat_ok_def)
qed

lemma mat_ok_set:
  assumes "mat_ok N a" "0 \<le> i" "i < int N" "0 \<le> j" "j < int N"
  shows "setitem2 a i j (Fin x) = Inr (upd2 a (nat i) (nat j) (Fin x))"
    and "mat_ok N (upd2 a (nat i) (nat j) (Fin x))"
  using assms setitem2_shape[of N a i j] upd2_shape[of N a] upd2_finite[of N a "Fin x"]
  by (simp_all add: mat_ok_def)

lemma lu_dot_spec:
  assumes ok: "mat_ok N a" and i: "0 \<le> i" "i < int N" and j: "0 \<le> j" "j < int N"
    and m: "m \<le> int N"
  shows "\<exists>r. lu_dot a i j m = Inr (Fin r)"
proof -
  obtain x0 where x0: "getitem2 a i j = Inr (Fin x0)" using mat_ok_get[OF ok i j] by blast
  let ?body = "\<lambda>k sum. rbind (getitem2 a i k) (\<lambda>x. rbind (getitem2 a k j) (\<lambda>y. Inr (sum - x * y)))"
  have "\<exists>s'. for_each (py_range 0 m) ?body (Fin x0) = Inr s' \<and> isfinite s'"
  proof (rule for_each_inv)
    fix k s assume k: "k \<in> set (py_range 0 m)" and s: "isfinite s"
    then have kr: "0 \<le> k" "k < int N" using m by auto
    obtain x where x: "getitem2 a i k = Inr (Fin x)" using mat_ok_get[OF ok i kr] by blast
    obtain y where y: "getitem2 a k j = Inr (Fin y)" using mat_ok_get[OF ok kr j] by blast
    show "\<exists>s'. ?body k s = Inr s' \<and> isfinite s'" using x y s by (auto simp: isfinite_iff)
  qed simp
  then show ?thesis using x0 by (auto simp: lu_dot_def isfinite_iff)
qed

lemma same_off_col_refl [simp]: "same_off_col N j a a"
  by (simp add: same_off_col_def)

lemma same_off_col_upd2:
  assumes "mat_ok N b" "same_off_col N j a b"
  shows "same_off_col N j a (upd2 b i j v)"
  unfolding same_off_col_def
proof (intro allI impI)
  fix r c assume rc: "r < N" "c < N" "c \<noteq> j"
  have "upd2 b i j v ! r ! c = b ! r ! c"
    using upd2_nth_shape[of N b r c i j v] assms(1) rc by (simp add: mat_ok_def)
  then show "upd2 b i j v ! r ! c = a ! r ! c" using assms(2) rc by (simp add: same_off_col_def)
qed

lemma lu_upper_spec:
  assumes ok: "mat_ok N a" and j: "0 \<le> j" "j < int N"
  shows "\<exists>a1. lu_upper j a = Inr a1 \<and> mat_ok N a1 \<and> same_off_col N (nat j) a a1"
proof -
  let ?body = "\<lambda>i a. rbind (lu_dot a i j i) (\<lambda>sum. setitem2 a i j sum)"
  have "\<exists>a1. for_each (py_range 0 j) ?body a = Inr a1 \<and> (mat_ok N a1 \<and> same_off_col N (nat j) a a1)"
  proof (rule for_each_inv)
    fix i s assume i: "i \<in> set (py_range 0 j)" and P: "mat_ok N s \<and> same_off_col N (nat j) a s"
    then have ir: "0 \<le> i" "i < int N" "i \<le> int N" using j by auto
    obtain r where r: "lu_dot s i j i = Inr (Fin r)" using lu_dot_spec[OF _ ir(1,2) j ir(3)] P by blast
    show "\<exists>s'. ?body i s = Inr s' \<and> (mat_ok N s' \<and> same_off_col N (nat j) a s')"
      using r mat_ok_set[OF _ ir(1,2) j, of s r] P same_off_col_upd2[of N s "nat j" a "nat i" "Fin r"]
      by simp
  qed (simp add: ok)
  then show ?thesis by (simp add: lu_upper_def)
qed

lemma same_off_col_trans:
  "same_off_col N j a b \<Longrightarrow> same_off_col N j b c \<Longrightarrow> same_off_col N j a c"
  by (simp add: same_off_col_def)

lemma pivot_step:
  assumes vv: "vv_ok N vv" and j: "0 \<le> j" "j < int N"
    and i: "j \<le> i" "i < int N" and P: "pivot_inv N j a i st"
  shows "\<exists>s'. lu_pivot_step j vv i st = Inr s' \<and> pivot_inv N j a (i + 1) s'"
proof -
  obtain a' imax aamax where st: "st = (a', imax, aamax)" by (cases st) auto
  have i0: "0 \<le> i" using i j by simp
  have P': "mat_ok N a'" "same_off_col N (nat j) a a'" using P st by (auto simp: pivot_inv_def)
  obtain m where m: "0 \<le> m" "aamax = Fin m" using P st by (auto simp: pivot_inv_def)
  have first: "i = j \<Longrightarrow> m = 0" using P st m i by (auto simp: pivot_inv_def)
  have later: "i \<noteq> j \<Longrightarrow> \<exists>im. imax = Some im \<and> j \<le> im \<and> im < i"
    using P st by (auto simp: pivot_inv_def)
  have jle: "j \<le> int N" using j by simp
  obtain r where r: "lu_dot a' i j j = Inr (Fin r)"
    using lu_dot_spec[OF P'(1) i0 i(2) j jle] by blast
  let ?a1 = "upd2 a' (nat i) (nat j) (Fin r)"
  have set: "setitem2 a' i j (Fin r) = Inr ?a1" and ok': "mat_ok N ?a1"
    using mat_ok_set[OF P'(1) i0 i(2) j] by simp_all
  have fr: "same_off_col N (nat j) a ?a1"
    using same_off_col_upd2[OF P'(1) P'(2)] by simp
  have "nat i < N" using i i0 by simp
  then obtain w where w: "0 < w" "vv ! nat i = Fin w" "nat i < length vv"
    using vv by (auto simp: vv_ok_def)
  then have gw: "getitem vv i = Inr (Fin w)" using i0 by (simp add: getitem_nat)
  have dumpos: "0 \<le> w * \<bar>r\<bar>" using w by simp
  have run: "lu_pivot_step j vv i st =
     Inr (if m \<le> w * \<bar>r\<bar> then (?a1, Some i, Fin (w * \<bar>r\<bar>)) else (?a1, imax, Fin m))"
    unfolding st lu_pivot_step_def by (simp add: r set gw m Let_def)
  show ?thesis
  proof (cases "m \<le> w * \<bar>r\<bar>")
    case True
    have "pivot_inv N j a (i + 1) (?a1, Some i, Fin (w * \<bar>r\<bar>))"
      unfolding pivot_inv_def using ok' fr dumpos i by simp
    then show ?thesis using run True by simp
  next
    case False
    then have "i \<noteq> j" using first dumpos by auto
    then obtain im where im: "imax = Some im" "j \<le> im" "im < i" using later by blast
    have "pivot_inv N j a (i + 1) (?a1, imax, Fin m)"
      unfolding pivot_inv_def using ok' fr m im by simp
    then show ?thesis using run False by simp
  qed
qed

lemma lu_pivot_spec:
  assumes ok: "mat_ok N a" and vv: "vv_ok N vv" and j: "0 \<le> j" "j < int N"
  shows "\<exists>a2 im aamax. lu_pivot (int N) j vv (a, imax0, Fin 0) = Inr (a2, Some im, aamax) \<and>
           j \<le> im \<and> im < int N \<and> mat_ok N a2 \<and> same_off_col N (nat j) a a2"
proof -
  have jle: "j \<le> int N" using j by simp
  have P0: "pivot_inv N j a j (a, imax0, Fin 0)" using ok by (simp add: pivot_inv_def)
  have "\<exists>st. for_each (py_range j (int N)) (lu_pivot_step j vv) (a, imax0, Fin 0) = Inr st
        \<and> pivot_inv N j a (int N) st"
    using jle P0
  proof (rule for_range_inv[where P = "pivot_inv N j a"])
    fix i st assume "j \<le> i" "i < int N" "pivot_inv N j a i st"
    then show "\<exists>s'. lu_pivot_step j vv i st = Inr s' \<and> pivot_inv N j a (i + 1) s'"
      using pivot_step[OF vv j] by blast
  qed
  then obtain st where res: "for_each (py_range j (int N)) (lu_pivot_step j vv) (a, imax0, Fin 0) = Inr st"
     and P: "pivot_inv N j a (int N) st" by blast
  obtain a2 imax aamax where st: "st = (a2, imax, aamax)" by (cases st) auto
  have "\<exists>im. imax = Some im \<and> j \<le> im \<and> im < int N" using P j st by (auto simp: pivot_inv_def)
  then obtain im where im: "imax = Some im" "j \<le> im" "im < int N" by blast
  have "mat_ok N a2" "same_off_col N (nat j) a a2" using P st by (auto simp: pivot_inv_def)
  moreover have "lu_pivot (int N) j vv (a, imax0, Fin 0) = Inr (a2, Some im, aamax)"
    using res st im by (simp add: lu_pivot_def lu_pivot_step_def)
  ultimately show ?thesis using im by blast
qed


lemma same_off_rows_upd2:
  assumes "mat_ok N b" "same_off_rows N p q a b" "i = p \<or> i = q"
  shows "same_off_rows N p q a (upd2 b i j v)"
  unfolding same_off_rows_def
proof (intro allI impI)
  fix r c assume rc: "r < N" "c < N" "r \<noteq> p \<and> r \<noteq> q"
  have "upd2 b i j v ! r ! c = b ! r ! c"
    using upd2_nth_shape[of N b r c i j v] assms(1,3) rc by (auto simp: mat_ok_def)
  then show "upd2 b i j v ! r ! c = a ! r ! c" using assms(2) rc by (simp add: same_off_rows_def)
qed

lemma lu_swap_spec:
  assumes ok: "mat_ok N a" and im: "0 \<le> im" "im < int N" and j: "0 \<le> j" "j < int N"
  shows "\<exists>a3. lu_swap (int N) im j a = Inr a3 \<and> mat_ok N a3 \<and> same_off_rows N (nat im) (nat j) a a3"
proof -
  let ?body = "\<lambda>k a.
       rbind (getitem2 a im k) (\<lambda>dum.
       rbind (getitem2 a j k) (\<lambda>x.
       rbind (setitem2 a im k x) (\<lambda>a1. setitem2 a1 j k dum)))"
  let ?P = "\<lambda>b. mat_ok N b \<and> same_off_rows N (nat im) (nat j) a b"
  have "\<exists>a3. for_each (py_range 0 (int N)) ?body a = Inr a3 \<and> ?P a3"
  proof (rule for_each_inv)
    show "?P a" using ok by (simp add: same_off_rows_def)
  next
    fix k s assume k: "k \<in> set (py_range 0 (int N))" and P: "?P s"
    then have kr: "0 \<le> k" "k < int N" by auto
    obtain d where d: "getitem2 s im k = Inr (Fin d)" using mat_ok_get[OF _ im kr] P by blast
    obtain x where x: "getitem2 s j k = Inr (Fin x)" using mat_ok_get[OF _ j kr] P by blast
    let ?s1 = "upd2 s (nat im) (nat k) (Fin x)"
    have s1: "setitem2 s im k (Fin x) = Inr ?s1" "mat_ok N ?s1"
      using mat_ok_set[OF _ im kr, of s x] P by simp_all
    have f1: "same_off_rows N (nat im) (nat j) a ?s1"
      using same_off_rows_upd2[of N s "nat im" "nat j" a "nat im"] P by simp
    let ?s2 = "upd2 ?s1 (nat j) (nat k) (Fin d)"
    have s2: "setitem2 ?s1 j k (Fin d) = Inr ?s2" "mat_ok N ?s2"
      using mat_ok_set[OF s1(2) j kr, of d] by simp_all
    have f2: "same_off_rows N (nat im) (nat j) a ?s2"
      using same_off_rows_upd2[OF s1(2) f1, of "nat j"] by simp
    show "\<exists>s'. ?body k s = Inr s' \<and> ?P s'" using d x s1 s2 f2 by simp
  qed
  then show ?thesis by (simp add: lu_swap_def)
qed


lemma lu_divide_spec:
  assumes ok: "mat_ok N a" and j: "0 \<le> j" "j < int N" and piv: "a ! nat j ! nat j \<noteq> Fin 0"
  shows "\<exists>a5. lu_divide (int N) j a = Inr a5 \<and> mat_ok N a5 \<and> same_but_below N (nat j) a a5"
proof -
  obtain pv where pv: "getitem2 a j j = Inr (Fin pv)" "a ! nat j ! nat j = Fin pv"
    using mat_ok_get[OF ok j j] by blast
  then have pv0: "pv \<noteq> 0" using piv by simp
  let ?body = "\<lambda>i a. rbind (getitem2 a i j) (\<lambda>x. setitem2 a i j (x * Fin (1 / pv)))"
  let ?P = "\<lambda>b. mat_ok N b \<and> same_but_below N (nat j) a b"
  have "\<exists>a5. for_each (py_range (j + 1) (int N)) ?body a = Inr a5 \<and> ?P a5"
  proof (rule for_each_inv)
    show "?P a" using ok by (simp add: same_but_below_def)
  next
    fix i s assume i: "i \<in> set (py_range (j + 1) (int N))" and P: "?P s"
    then have ir: "0 \<le> i" "i < int N" "j < i" using j by auto
    obtain x where x: "getitem2 s i j = Inr (Fin x)" using mat_ok_get[OF _ ir(1,2) j] P by blast
    let ?s1 = "upd2 s (nat i) (nat j) (Fin (x * (1 / pv)))"
    have s1: "setitem2 s i j (Fin (x * (1 / pv))) = Inr ?s1" "mat_ok N ?s1"
      using mat_ok_set[OF _ ir(1,2) j, of s] P by simp_all
    have "same_but_below N (nat j) a ?s1"
      unfolding same_but_below_def
    proof (intro allI impI)
      fix r c assume rc: "r < N" "c < N" "\<not> (c = nat j \<and> nat j < r)"
      have "nat j < nat i" using ir j by simp
      then have "?s1 ! r ! c = s ! r ! c"
        using upd2_nth_shape[of N s r c "nat i" "nat j"] P rc by (auto simp: mat_ok_def)
      then show "?s1 ! r ! c = a ! r ! c" using P rc by (simp add: same_but_below_def)
    qed
    then show "\<exists>s'. ?body i s = Inr s' \<and> ?P s'" using x s1 by simp
  qed
  then show ?thesis using pv pv0 by (simp add: lu_divide_def)
qed


lemma TINY_nonzero: "TINY \<noteq> Fin 0"
  by (simp add: TINY_def)

lemma diag_nz_off_col:
  "diag_nz j a \<Longrightarrow> same_off_col N j a b \<Longrightarrow> j < N \<Longrightarrow> diag_nz j b"
  by (simp add: diag_nz_def same_off_col_def)

lemma diag_nz_off_rows:
  "diag_nz j a \<Longrightarrow> same_off_rows N p j a b \<Longrightarrow> j \<le> p \<Longrightarrow> j < N \<Longrightarrow> diag_nz j b"
  by (simp add: diag_nz_def same_off_rows_def)

lemma diag_nz_but_below:
  "diag_nz (Suc j) a \<Longrightarrow> same_but_below N j a b \<Longrightarrow> j < N \<Longrightarrow> diag_nz (Suc j) b"
  by (simp add: diag_nz_def same_but_below_def)

lemma vv_ok_update:
  assumes "vv_ok N vv" "j < N"
  shows "vv_ok N (vv[im := vv ! j])"
  unfolding vv_ok_def
proof (intro conjI allI impI)
  show "N \<le> length (vv[im := vv ! j])" using assms by (simp add: vv_ok_def)
  fix i assume i: "i < N"
  have "i < length vv" using assms i by (simp add: vv_ok_def)
  then have "(vv[im := vv ! j]) ! i = (if i = im then vv ! j else vv ! i)"
    by (simp add: nth_list_update)
  then show "\<exists>r>0. (vv[im := vv ! j]) ! i = Fin r"
    using assms i by (auto simp: vv_ok_def)
qed

lemma lu_exchange_spec:
  assumes ok: "mat_ok N a" and vv: "vv_ok N vv" and j: "j < N" and im: "j \<le> im" "im < N"
    and dg: "diag_nz j a"
  shows "\<exists>a3 vv'. lu_exchange (int N) (int im) (int j) a vv = Inr (a3, vv') \<and>
           mat_ok N a3 \<and> vv_ok N vv' \<and> diag_nz j a3"
proof (cases "j = im")
  case True
  then show ?thesis using ok vv dg by (simp add: lu_exchange_def)
next
  case False
  have r: "0 \<le> int im" "int im < int N" "0 \<le> int j" "int j < int N" using j im by simp_all
  obtain b where b: "lu_swap (int N) (int im) (int j) a = Inr b" "mat_ok N b"
      "same_off_rows N im j a b"
    using lu_swap_spec[OF ok r] by auto
  have lv: "j < length vv" "im < length vv" using vv j im by (simp_all add: vv_ok_def)
  have gv: "getitem vv (int j) = Inr (vv ! j)" using lv by (simp add: getitem_nat)
  have sv: "setitem vv (int im) (vv ! j) = Inr (vv[im := vv ! j])"
    using lv by (simp add: setitem_nat)
  have "lu_exchange (int N) (int im) (int j) a vv = Inr (b, vv[im := vv ! j])"
    using False by (simp add: lu_exchange_def b(1) gv sv)
  then show ?thesis
    using b(2) vv_ok_update[OF vv j] diag_nz_off_rows[OF dg b(3) im(1) j] by blast
qed

lemma lu_tiny_spec:
  assumes ok: "mat_ok N a" and j: "j < N" and dg: "diag_nz j a"
  shows "\<exists>a4. lu_tiny (int j) a = Inr a4 \<and> mat_ok N a4 \<and> diag_nz (Suc j) a4"
proof -
  have jr: "0 \<le> int j" "int j < int N" using j by simp_all
  obtain pv where pv: "getitem2 a (int j) (int j) = Inr (Fin pv)" "a ! j ! j = Fin pv"
    using mat_ok_get[OF ok jr jr] by auto
  show ?thesis
  proof (cases "pv = 0")
    case True
    have st: "setitem2 a (int j) (int j) TINY = Inr (upd2 a j j TINY)"
      and ok': "mat_ok N (upd2 a j j TINY)"
      using mat_ok_set[OF ok jr jr, of "1 / 10 ^ 20"] by (simp_all add: TINY_def)
    have "diag_nz (Suc j) (upd2 a j j TINY)"
      unfolding diag_nz_def
    proof (intro allI impI)
      fix k assume k: "k < Suc j"
      then have "k < N" using j by simp
      then have "upd2 a j j TINY ! k ! k = (if k = j then TINY else a ! k ! k)"
        using upd2_nth_shape[of N a k k j j TINY] ok by (simp add: mat_ok_def)
      then show "upd2 a j j TINY ! k ! k \<noteq> Fin 0"
        using dg k TINY_nonzero by (auto simp: less_Suc_eq diag_nz_def)
    qed
    moreover have "lu_tiny (int j) a = Inr (upd2 a j j TINY)"
      using True by (simp add: lu_tiny_def pv(1) st)
    ultimately show ?thesis using ok' by blast
  next
    case False
    have "diag_nz (Suc j) a" using dg pv False by (auto simp: less_Suc_eq diag_nz_def)
    moreover have "lu_tiny (int j) a = Inr a" using False by (simp add: lu_tiny_def pv(1))
    ultimately show ?thesis using ok by blast
  qed
qed

lemma lu_below_spec:
  assumes ok: "mat_ok N a" and j: "j < N" and dg: "diag_nz (Suc j) a"
  shows "\<exists>a5. lu_below (int N) (int j) a = Inr a5 \<and> mat_ok N a5 \<and> diag_nz (Suc j) a5"
proof (cases "int j = int N - 1")
  case True
  then show ?thesis using ok dg by (simp add: lu_below_def)
next
  case False
  have jr: "0 \<le> int j" "int j < int N" using j by simp_all
  have "a ! nat (int j) ! nat (int j) \<noteq> Fin 0" using dg by (simp add: diag_nz_def)
  then obtain b where b: "lu_divide (int N) (int j) a = Inr b" "mat_ok N b"
      "same_but_below N j a b"
    using lu_divide_spec[OF ok jr] by auto
  have "lu_below (int N) (int j) a = Inr b" using False by (simp add: lu_below_def b(1))
  then show ?thesis using b(2) diag_nz_but_below[OF dg b(3) j] by blast
qed


lemma lu_column_spec:
  assumes inv: "lu_inv N j s" and j: "j < N"
  shows "\<exists>s' im. lu_column (int N) (int j) s = Inr s' \<and> lu_inv N (Suc j) s' \<and>
           lu_imax s' = Some (int im) \<and> j \<le> im \<and> im < N \<and>
           lu_indx s' = (lu_indx s)[j := word_of_int (int im)]"
proof -
  let ?a = "lu_a s" and ?vv = "lu_vv s" and ?ix = "lu_indx s"
  have ok: "mat_ok N ?a" and vv: "vv_ok N ?vv" and lix: "length ?ix = N"
    and dg: "diag_nz j ?a"
    and ixs: "\<forall>k<j. \<exists>im. k \<le> im \<and> im < N \<and> ?ix ! k = word_of_int (int im)"
    using inv by (simp_all add: lu_inv_def)
  have jr: "0 \<le> int j" "int j < int N" using j by simp_all
  obtain a1 where a1: "lu_upper (int j) ?a = Inr a1" "mat_ok N a1" "same_off_col N j ?a a1"
    using lu_upper_spec[OF ok jr] by auto
  obtain a2 imi aamax where a2:
      "lu_pivot (int N) (int j) ?vv (a1, lu_imax s, Fin 0) = Inr (a2, Some imi, aamax)"
      "int j \<le> imi" "imi < int N" "mat_ok N a2" "same_off_col N j a1 a2"
    using lu_pivot_spec[OF a1(2) vv jr, of "lu_imax s"] by auto
  define im where "im = nat imi"
  have im: "imi = int im" "j \<le> im" "im < N" using a2(2,3) by (simp_all add: im_def)
  have d2: "diag_nz j a2"
    using diag_nz_off_col[OF diag_nz_off_col[OF dg a1(3) j] a2(5) j] .
  obtain a3 vv' where a3: "lu_exchange (int N) (int im) (int j) a2 ?vv = Inr (a3, vv')"
      "mat_ok N a3" "vv_ok N vv'" "diag_nz j a3"
    using lu_exchange_spec[OF a2(4) vv j im(2,3) d2] by auto
  have si: "setitem ?ix (int j) (word_of_int (int im)) = Inr (?ix[j := word_of_int (int im)])"
    using lix j by (simp add: setitem_nat)
  obtain a4 where a4: "lu_tiny (int j) a3 = Inr a4" "mat_ok N a4" "diag_nz (Suc j) a4"
    using lu_tiny_spec[OF a3(2) j a3(4)] by auto
  obtain a5 where a5: "lu_below (int N) (int j) a4 = Inr a5" "mat_ok N a5" "diag_nz (Suc j) a5"
    using lu_below_spec[OF a4(2) j a4(3)] by auto
  define s' where "s' = \<lparr>lu_a = a5, lu_vv = vv', lu_indx = ?ix[j := word_of_int (int im)],
      lu_imax = Some (int im)\<rparr>"
  have run: "lu_column (int N) (int j) s = Inr s'"
    unfolding lu_column_def s'_def
    using si by (simp add: a1(1) a2(1) im(1) a3(1) a4(1) a5(1))
  have ix': "\<forall>k<Suc j. \<exists>m. k \<le> m \<and> m < N \<and> (?ix[j := word_of_int (int im)]) ! k = word_of_int (int m)"
  proof (intro allI impI)
    fix k assume k: "k < Suc j"
    show "\<exists>m. k \<le> m \<and> m < N \<and> (?ix[j := word_of_int (int im)]) ! k = word_of_int (int m)"
    proof (cases "k = j")
      case True
      then show ?thesis using im lix j by (intro exI[of _ im]) simp
    next
      case False
      then have "k < j" using k by simp
      then show ?thesis using ixs False by simp
    qed
  qed
  have "lu_inv N (Suc j) s'"
    unfolding lu_inv_def s'_def using a5(2,3) a3(3) lix ix' by simp
  moreover have "lu_imax s' = Some (int im)" "lu_indx s' = ?ix[j := word_of_int (int im)]"
    by (simp_all add: s'_def)
  ultimately show ?thesis using run im(2,3) by blast
qed


lemma for_each_append:
  "for_each (xs @ ys) body s = rbind (for_each xs body s) (for_each ys body)"
  by (induction xs arbitrary: s) (simp_all add: rbind_def split: sum.splits)

lemma py_range_snoc: "lo \<le> hi \<Longrightarrow> py_range lo (hi + 1) = py_range lo hi @ [hi]"
  by (simp add: py_range_def upto_rec2)

lemma lu_columns_Suc:
  "lu_columns n (int (Suc m)) s = rbind (lu_columns n (int m) s) (lu_column n (int m))"
proof -
  have "py_range 0 (int (Suc m)) = py_range 0 (int m) @ [int m]"
    using py_range_snoc[of 0 "int m"] by (simp add: add.commute)
  then show ?thesis by (simp add: lu_columns_def for_each_append rbind_def split: sum.splits)
qed

lemma lu_columns_0: "lu_columns n 0 s = Inr s"
  by (simp add: lu_columns_def)

lemma lu_columns_spec:
  assumes inv: "lu_inv N 0 s0" and N: "N \<le> 128"
  shows "m \<le> N \<Longrightarrow> \<exists>s. lu_columns (int N) (int m) s0 = Inr s \<and> lu_inv N m s \<and> pivots_ok N m s0 s"
proof (induction m)
  case 0
  then show ?case using inv by (simp add: lu_columns_0 pivots_ok_def)
next
  case (Suc m)
  then obtain s where s: "lu_columns (int N) (int m) s0 = Inr s" "lu_inv N m s" "pivots_ok N m s0 s"
    by auto
  have m: "m < N" using Suc.prems by simp
  obtain s' im where s': "lu_column (int N) (int m) s = Inr s'" "lu_inv N (Suc m) s'"
      "lu_imax s' = Some (int im)" "m \<le> im" "im < N"
      "lu_indx s' = (lu_indx s)[m := word_of_int (int im)]"
    using lu_column_spec[OF s(2) m] by blast
  have run: "lu_columns (int N) (int (Suc m)) s0 = Inr s'"
    by (subst lu_columns_Suc) (simp add: s(1) s'(1))
  have len: "length (lu_indx s) = N" using s(2) by (simp add: lu_inv_def)
  have "sint (word_of_int (int im) :: 8 word) = int im"
    using s'(5) N by (intro sint_int8) simp_all
  then have sm: "sint (lu_indx s' ! m) = int im"
    using s'(6) len m by simp
  have "pivots_ok N (Suc m) s0 s'"
    unfolding pivots_ok_def
  proof (intro allI impI)
    fix k assume k: "k < Suc m"
    show "\<exists>sk. lu_columns (int N) (int (Suc k)) s0 = Inr sk \<and>
               lu_imax sk = Some (sint (lu_indx s' ! k)) \<and>
               int k \<le> sint (lu_indx s' ! k) \<and> sint (lu_indx s' ! k) < int N"
    proof (cases "k = m")
      case True
      then show ?thesis using run s'(3,4,5) sm by (intro exI[of _ s']) simp
    next
      case False
      then have km: "k < m" using k by simp
      then have "lu_indx s' ! k = lu_indx s ! k" using s'(6) by simp
      then show ?thesis using s(3) km by (simp add: pivots_ok_def)
    qed
  qed
  then show ?case using run s'(2) by blast
qed


lemma lu_start_inv:
  assumes "mat_ok N a" "vv_ok N vv"
  shows "lu_inv N 0 (lu_start a vv (int N))"
  using assms by (simp add: lu_inv_def lu_start_def diag_nz_def)

lemma lu_decomp_spec:
  assumes ok: "mat_ok N a" and N: "N \<le> 100"
  shows "((\<exists>i<N. zero_row N a i) \<and> lu_decomp a (int N) ntot = Inl ArrayIsSingular) \<or>
         ((\<forall>i<N. \<not> zero_row N a i) \<and>
          (\<exists>vv s. lu_scale a (int N) (replicate (nat NMAX) (Fin 0)) = Inr vv \<and>
                  lu_columns (int N) (int N) (lu_start a vv (int N)) = Inr s \<and>
                  lu_inv N N s \<and> pivots_ok N N (lu_start a vv (int N)) s \<and>
                  lu_decomp a (int N) ntot = Inr (lu_a s, lu_indx s)))"
proof -
  have sh: "mat_shape N a" and fin: "mat_finite N a" using ok by (simp_all add: mat_ok_def)
  have len: "N \<le> length (replicate (nat NMAX) (Fin 0))" using N by (simp add: NMAX_def)
  from lu_scale_spec[OF sh fin len]
  show ?thesis
  proof
    assume "(\<exists>i<N. zero_row N a i) \<and>
        lu_scale a (int N) (replicate (nat NMAX) (Fin 0)) = Inl ArrayIsSingular"
    then show ?thesis by (simp add: lu_decomp_def)
  next
    assume a: "(\<forall>i<N. \<not> zero_row N a i) \<and>
        (\<exists>vv. lu_scale a (int N) (replicate (nat NMAX) (Fin 0)) = Inr vv \<and>
              length vv = length (replicate (nat NMAX) (Fin 0)) \<and> vv_ok N vv)"
    then obtain vv where vv: "lu_scale a (int N) (replicate (nat NMAX) (Fin 0)) = Inr vv" "vv_ok N vv"
      by blast
    have N128: "N \<le> 128" using N by simp
    obtain s where s: "lu_columns (int N) (int N) (lu_start a vv (int N)) = Inr s" "lu_inv N N s"
        "pivots_ok N N (lu_start a vv (int N)) s"
      using lu_columns_spec[OF lu_start_inv[OF ok vv(2)] N128, of N] by auto
    have "lu_decomp a (int N) ntot = Inr (lu_a s, lu_indx s)"
      by (simp add: lu_decomp_def vv(1) s(1))
    then show ?thesis using a vv s by blast
  qed
qed

lemma lu_inner_returns:
  assumes ok: "mat_ok N a" and i: "0 \<le> i" "i < int N" and lo: "0 \<le> lo" and hi: "hi \<le> int N"
    and len: "N \<le> length b"
  shows "\<exists>r. for_each (py_range lo hi)
            (\<lambda>j sum. rbind (getitem2 a i j) (\<lambda>x. rbind (getitem b j) (\<lambda>y. Inr (sum - x * y)))) s0
          = Inr r"
proof -
  have "\<exists>r. for_each (py_range lo hi)
            (\<lambda>j sum. rbind (getitem2 a i j) (\<lambda>x. rbind (getitem b j) (\<lambda>y. Inr (sum - x * y)))) s0
          = Inr r \<and> True"
  proof (rule for_each_inv)
    fix j s assume "j \<in> set (py_range lo hi)"
    then have j: "0 \<le> j" "j < int N" using lo hi by auto
    obtain x where x: "getitem2 a i j = Inr (Fin x)" using mat_ok_get[OF ok i j] by blast
    have "getitem b j = Inr (b ! nat j)" using j len by (simp add: getitem_nat)
    then show "\<exists>s'. rbind (getitem2 a i j) (\<lambda>x. rbind (getitem b j) (\<lambda>y. Inr (s - x * y))) = Inr s' \<and> True"
      using x by simp
  qed simp
  then show ?thesis by simp
qed

lemma lu_forward_step_spec:
  assumes ok: "mat_ok N a" and ix: "indx_ok N indx" and i: "0 \<le> i" "i < int N"
    and len: "length b = L" "N \<le> L" and ii: "- 1 \<le> ii"
  shows "\<exists>b' ii'. lu_forward_step a indx i (b, ii) = Inr (b', ii') \<and> length b' = L \<and> - 1 \<le> ii'"
proof -
  have ni: "nat i < N" using i by simp
  define ll where "ll = sint (indx ! nat i)"
  have gi: "getitem indx i = Inr (indx ! nat i)" using ix i by (simp add: getitem_nat indx_ok_def)
  have llr: "0 \<le> ll" "ll < int N" using ix ni by (simp_all add: indx_ok_def ll_def)
  have g1: "getitem b ll = Inr (b ! nat ll)" using llr len by (simp add: getitem_nat)
  have g2: "getitem b i = Inr (b ! nat i)" using i len by (simp add: getitem_nat)
  define b1 where "b1 = b[nat ll := b ! nat i]"
  have s1: "setitem b ll (b ! nat i) = Inr b1" using llr len by (simp add: setitem_nat b1_def)
  have l1: "length b1 = L" "N \<le> length b1" using len by (simp_all add: b1_def)
  obtain sum ii' where mid: "(if ii \<noteq> - 1 then
                rbind (for_each (py_range ii i)
                         (\<lambda>j sum. rbind (getitem2 a i j) (\<lambda>x.
                                   rbind (getitem b1 j) (\<lambda>y. Inr (sum - x * y)))) (b ! nat ll))
                  (\<lambda>sum. Inr (sum, ii))
              else if b ! nat ll \<noteq> Fin 0 then Inr (b ! nat ll, i)
              else Inr (b ! nat ll, ii)) = Inr (sum, ii')" and ii': "- 1 \<le> ii'"
  proof (cases "ii = - 1")
    case True
    show ?thesis
    proof (cases "b ! nat ll = Fin 0")
      case z: True
      show ?thesis by (rule that[of "b ! nat ll" ii]) (use True z in simp_all)
    next
      case nz: False
      show ?thesis by (rule that[of "b ! nat ll" i]) (use True nz i in simp_all)
    qed
  next
    case False
    then have "0 \<le> ii" using ii by simp
    moreover have "i \<le> int N" using i by simp
    ultimately obtain r where "for_each (py_range ii i)
            (\<lambda>j sum. rbind (getitem2 a i j) (\<lambda>x. rbind (getitem b1 j) (\<lambda>y. Inr (sum - x * y)))) (b ! nat ll)
          = Inr r"
      using lu_inner_returns[OF ok i _ _ l1(2)] by blast
    then show ?thesis using False ii by (intro that[of r ii]) simp_all
  qed
  have s2: "setitem b1 i sum = Inr (b1[nat i := sum])" using i l1 by (simp add: setitem_nat)
  have "lu_forward_step a indx i (b, ii) = Inr (b1[nat i := sum], ii')"
    unfolding lu_forward_step_def
    by (simp add: gi ll_def[symmetric] Let_def g1 g2 s1 mid s2)
  then show ?thesis using l1 ii' by simp
qed


lemma lu_forward_spec:
  assumes ok: "mat_ok N a" and ix: "indx_ok N indx" and len: "N \<le> length (b::fl list)"
  shows "\<exists>b' ii'. lu_forward a (int N) indx (b, - 1) = Inr (b', ii') \<and> length b' = length b"
proof -
  let ?P = "\<lambda>st :: fl list \<times> int. case st of (b', ii') \<Rightarrow> length b' = length b \<and> - 1 \<le> ii'"
  have "\<exists>st. for_each (py_range 0 (int N)) (lu_forward_step a indx) (b, - 1) = Inr st \<and> ?P st"
  proof (rule for_each_inv)
    show "?P (b, - 1)" by simp
  next
    fix i st assume i: "i \<in> set (py_range 0 (int N))" and P: "?P st"
    obtain b0 ii where st: "st = (b0, ii)" by (cases st) auto
    have "\<exists>b' ii'. lu_forward_step a indx i (b0, ii) = Inr (b', ii') \<and> length b' = length b \<and> - 1 \<le> ii'"
      using lu_forward_step_spec[OF ok ix, of i b0 "length b" ii] i P st len by auto
    then show "\<exists>s'. lu_forward_step a indx i st = Inr s' \<and> ?P s'" using st by auto
  qed
  then show ?thesis by (auto simp: lu_forward_def)
qed

lemma lu_back_spec:
  assumes ok: "mat_ok N a" and dg: "diag_nz N a" and len: "N \<le> length (b::fl list)"
  shows "\<exists>b'. lu_back a (int N) b = Inr b' \<and> length b' = length b"
proof -
  let ?body = "\<lambda>i b.
       rbind (getitem b i) (\<lambda>sum0.
       rbind (for_each (py_range (i + 1) (int N))
                (\<lambda>j sum. rbind (getitem2 a i j) (\<lambda>x.
                          rbind (getitem b j) (\<lambda>y. Inr (sum - x * y)))) sum0) (\<lambda>sum.
       rbind (getitem2 a i i) (\<lambda>piv.
       rbind (fdiv sum piv) (\<lambda>q. setitem b i q))))"
  have "\<exists>b'. for_each (rev (py_range 0 (int N))) ?body b = Inr b' \<and> length b' = length b"
  proof (rule for_each_inv)
    fix i and s :: "fl list"
    assume "i \<in> set (rev (py_range 0 (int N)))" and P: "length s = length b"
    then have i: "0 \<le> i" "i < int N" by auto
    have ls: "N \<le> length s" using P len by simp
    have g: "getitem s i = Inr (s ! nat i)" using i ls by (simp add: getitem_nat)
    obtain r where r: "for_each (py_range (i + 1) (int N))
                (\<lambda>j sum. rbind (getitem2 a i j) (\<lambda>x.
                          rbind (getitem s j) (\<lambda>y. Inr (sum - x * y)))) (s ! nat i) = Inr r"
      using lu_inner_returns[OF ok i _ _ ls, of "i + 1" "int N"] i by auto
    obtain pv where pv: "getitem2 a i i = Inr (Fin pv)" "a ! nat i ! nat i = Fin pv"
      using mat_ok_get[OF ok i i] by blast
    have "nat i < N" using i by simp
    then have "pv \<noteq> 0" using dg pv(2) by (auto simp: diag_nz_def)
    then obtain q where q: "fdiv r (Fin pv) = Inr q" using fdiv_returns[of "Fin pv" r] by auto
    have st: "setitem s i q = Inr (s[nat i := q])" using i ls by (simp add: setitem_nat)
    show "\<exists>s'. ?body i s = Inr s' \<and> length s' = length b"
      using P by (simp add: g r pv(1) q st del: fdiv.simps)
  qed simp
  then show ?thesis by (simp add: lu_back_def)
qed

lemma lu_backsubs_spec:
  assumes ok: "mat_ok N a" and dg: "diag_nz N a" and ix: "indx_ok N indx" and len: "N \<le> length (b::fl list)"
  shows "\<exists>b'. lu_backsubs a (int N) ntot indx b = Inr b' \<and> length b' = length b"
proof -
  obtain b1 ii where f: "lu_forward a (int N) indx (b, - 1) = Inr (b1, ii)" "length b1 = length b"
    using lu_forward_spec[OF ok ix len] by blast
  obtain b2 where "lu_back a (int N) b1 = Inr b2" "length b2 = length b1"
    using lu_back_spec[OF ok dg, of b1] f(2) len by auto
  then show ?thesis using f by (simp add: lu_backsubs_def)
qed

lemma pivots_indx_ok:
  assumes "lu_inv N N s" "pivots_ok N N s0 s"
  shows "indx_ok N (lu_indx s)"
  unfolding indx_ok_def
proof (intro conjI allI impI)
  show "length (lu_indx s) = N" using assms(1) by (simp add: lu_inv_def)
  fix k assume k: "k < N"
  then obtain sk where "int k \<le> sint (lu_indx s ! k)" "sint (lu_indx s ! k) < int N"
    using assms(2) by (auto simp: pivots_ok_def)
  then show "0 \<le> sint (lu_indx s ! k)" "sint (lu_indx s ! k) < int N" by simp_all
qed


lemma for_each_pres:
  assumes "\<And>i s s'. body i s = Inr s' \<Longrightarrow> Q s \<Longrightarrow> Q s'"
  shows "Q s \<Longrightarrow> for_each xs body s = Inr s' \<Longrightarrow> Q s'"
proof (induction xs arbitrary: s)
  case Nil
  then show ?case by simp
next
  case (Cons i xs)
  then obtain s1 where s1: "body i s = Inr s1" "for_each xs body s1 = Inr s'"
    by (auto simp: rbind_def split: sum.splits)
  then show ?case using Cons.IH[of s1] assms[OF s1(1) Cons.prems(1)] by simp
qed

lemma py_range_split: "lo \<le> m \<Longrightarrow> m \<le> hi \<Longrightarrow> py_range lo hi = py_range lo m @ py_range m hi"
  using upto_split2[of lo "m - 1" "hi - 1"]
  by (cases "lo = m") (simp_all add: py_range_def)

lemma setitem_length: "setitem xs i v = Inr ys \<Longrightarrow> length ys = length xs"
  by (auto simp: setitem_def py_index_def rbind_def split: if_splits)

lemma lu_scale_overflow:
  assumes "100 < n"
  shows "\<exists>e. lu_scale a n (replicate (nat NMAX) (Fin 0)) = Inl e"
proof -
  let ?body = "\<lambda>i vv. rbind (lu_row_max a n i) (\<lambda>aamax.
          if aamax = Fin 0 then Inl ArrayIsSingular
          else rbind (fdiv (Fin 1) aamax) (\<lambda>r. setitem vv i r))"
  let ?vv0 = "replicate (nat NMAX) (Fin 0)"
  have sp: "py_range 0 n = py_range 0 100 @ (100 # py_range 101 n)"
    using py_range_split[of 0 100 n] py_range_rec[of 100 n] assms by simp
  have pres: "\<And>i s s'. ?body i s = Inr s' \<Longrightarrow> length s = 100 \<Longrightarrow> length s' = 100"
    by (auto simp: rbind_def split: sum.splits if_splits dest: setitem_length)
  show ?thesis
  proof (cases "for_each (py_range 0 100) ?body ?vv0")
    case (Inl e)
    then show ?thesis by (simp add: lu_scale_def sp for_each_append)
  next
    case (Inr vv)
    have "length vv = 100"
      by (rule for_each_pres[where Q = "\<lambda>s. length s = 100", OF pres _ Inr]) (simp_all add: NMAX_def)
    then have "\<And>r. setitem vv 100 r = Inl IndexError"
      by (simp add: setitem_def py_index_def)
    then have "\<exists>e. ?body 100 vv = Inl e"
      by (auto simp: rbind_def split: sum.splits)
    then show ?thesis using Inr by (auto simp: lu_scale_def sp for_each_append)
  qed
qed

lemma lu_decomp_overflow: "100 < n \<Longrightarrow> \<exists>e. lu_decomp a n ntot = Inl e"
  using lu_scale_overflow[of n a] by (auto simp: lu_decomp_def)


text \<open>
  The factorisation of the matrix with all four entries 1: no row is zero, the second
  pivot is \<open>1 - 1 * 1 = 0\<close> and is replaced by \<open>TINY\<close>.
\<close>

lemma py_range_small: "py_range 0 2 = [0, 1]" "py_range 0 1 = [0]" "py_range 1 2 = [1]" "py_range 0 0 = []"
  "py_range 2 2 = []" "py_range 1 1 = []"
  by (simp_all add: py_range_def upto_rec1)

lemma lu_scale_ones: "lu_scale [[Fin 1, Fin 1], [Fin 1, Fin 1]] 2 (replicate (nat NMAX) (Fin 0))
   = Inr ((replicate 100 (Fin 0))[0 := Fin 1, 1 := Fin 1])"
  by (simp add: lu_scale_def lu_row_max_def py_range_small getitem2_def getitem_def setitem_def py_index_def NMAX_def)

lemma lu_column_ones_0: "lu_column 2 0 (lu_start [[Fin 1, Fin 1], [Fin 1, Fin 1]] ((replicate 100 (Fin 0))[0 := Fin 1, 1 := Fin 1]) 2)
  = Inr \<lparr>lu_a = [[Fin 1, Fin 1], [Fin 1, Fin 1]], lu_vv = (replicate 100 (Fin 0))[0 := Fin 1, 1 := Fin 1],
      lu_indx = [1, 0], lu_imax = Some 1\<rparr>"
  by (simp add: lu_column_def lu_start_def lu_upper_def lu_pivot_def lu_pivot_step_def lu_dot_def
      lu_exchange_def lu_swap_def lu_tiny_def lu_below_def lu_divide_def py_range_small
      getitem2_def setitem2_def getitem_def setitem_def py_index_def Let_def numeral_2_eq_2)

lemma lu_column_ones_1: "lu_column 2 1 \<lparr>lu_a = [[Fin 1, Fin 1], [Fin 1, Fin 1]], lu_vv = (replicate 100 (Fin 0))[0 := Fin 1, 1 := Fin 1],
      lu_indx = [1, 0], lu_imax = Some 1\<rparr>
  = Inr \<lparr>lu_a = [[Fin 1, Fin 1], [Fin 1, TINY]], lu_vv = (replicate 100 (Fin 0))[0 := Fin 1, 1 := Fin 1],
      lu_indx = [1, 1], lu_imax = Some 1\<rparr>"
  by (simp add: lu_column_def lu_start_def lu_upper_def lu_pivot_def lu_pivot_step_def lu_dot_def
      lu_exchange_def lu_swap_def lu_tiny_def lu_below_def lu_divide_def py_range_small
      getitem2_def setitem2_def getitem_def setitem_def py_index_def Let_def)

lemma lu_decomp_ones: "lu_decomp [[Fin 1, Fin 1], [Fin 1, Fin 1]] 2 2 = Inr ([[Fin 1, Fin 1], [Fin 1, TINY]], [1, 1])"
  using lu_column_ones_0 lu_column_ones_1 by (simp add: lu_decomp_def lu_scale_ones lu_columns_def py_range_small)

lemma lu_backsubs_example: "lu_backsubs [[Fin 2, Fin 1], [Fin 1, Fin 1]] 2 2 [0, 1] [Fin 4, Fin 3] = Inr [Fin (5 / 2), Fin (- 1)]"
  by (simp add: lu_backsubs_def lu_forward_def lu_forward_step_def lu_back_def py_range_small
      getitem2_def getitem_def setitem_def py_index_def Let_def)


text \<open>
  Claim C5. On an active \<open>N \<times> N\<close> submatrix of finite numbers with \<open>N \<le> NMAX = 100\<close>,
  \<open>lu_decomp\<close> raises the singular-matrix error exactly when some row of the active
  submatrix is zero throughout (its largest magnitude is 0). When no row is zero it
  raises nothing and returns the factored matrix and the pivot indices, and every
  pivot of the returned matrix is non-zero: a pivot that the elimination makes zero
  has been replaced by \<open>TINY\<close>. The witness is the matrix of ones, whose second pivot
  becomes \<open>1 - 1 * 1 = 0\<close>.
\<close>

theorem lu_decomp_singular_iff:
  assumes "mat_ok N a" "N \<le> 100"
  shows "(lu_decomp a (int N) ntot = Inl ArrayIsSingular \<longleftrightarrow> (\<exists>i<N. zero_row N a i)) \<and>
         ((\<forall>i<N. \<not> zero_row N a i) \<longrightarrow>
            (\<exists>a' indx. lu_decomp a (int N) ntot = Inr (a', indx) \<and> mat_ok N a' \<and> diag_nz N a'))"
proof -
  from lu_decomp_spec[OF assms, of ntot]
  show ?thesis
  proof
    assume "(\<exists>i<N. zero_row N a i) \<and> lu_decomp a (int N) ntot = Inl ArrayIsSingular"
    then show ?thesis by auto
  next
    assume a: "(\<forall>i<N. \<not> zero_row N a i) \<and>
          (\<exists>vv s. lu_scale a (int N) (replicate (nat NMAX) (Fin 0)) = Inr vv \<and>
                  lu_columns (int N) (int N) (lu_start a vv (int N)) = Inr s \<and>
                  lu_inv N N s \<and> pivots_ok N N (lu_start a vv (int N)) s \<and>
                  lu_decomp a (int N) ntot = Inr (lu_a s, lu_indx s))"
    then obtain s where s: "lu_inv N N s" "lu_decomp a (int N) ntot = Inr (lu_a s, lu_indx s)"
      by blast
    then have "mat_ok N (lu_a s)" "diag_nz N (lu_a s)" by (simp_all add: lu_inv_def)
    then show ?thesis using a s(2) by auto
  qed
qed

lemma mat_ok_ones: "mat_ok 2 [[Fin 1, Fin 1], [Fin 1, Fin 1]]"
  by (simp add: mat_ok_def mat_shape_def mat_finite_def less_Suc_eq numeral_2_eq_2)

lemma mat_ok_zero_row: "mat_ok 2 [[Fin 0, Fin 0], [Fin 1, Fin 1]]"
  by (simp add: mat_ok_def mat_shape_def mat_finite_def less_Suc_eq numeral_2_eq_2)

theorem lu_decomp_singular_iff_witness:
  "mat_ok 2 [[Fin 1, Fin 1], [Fin 1, Fin 1]] \<and> (2::nat) \<le> 100
   \<and> \<not> zero_row 2 [[Fin 1, Fin 1], [Fin 1, Fin 1]] 0
   \<and> \<not> zero_row 2 [[Fin 1, Fin 1], [Fin 1, Fin 1]] 1
   \<and> lu_decomp [[Fin 1, Fin 1], [Fin 1, Fin 1]] 2 2
        = Inr ([[Fin 1, Fin 1], [Fin 1, TINY]], [1, 1])
   \<and> mat_ok 2 [[Fin 0, Fin 0], [Fin 1, Fin 1]]
   \<and> zero_row 2 [[Fin 0, Fin 0], [Fin 1, Fin 1]] 0
   \<and> lu_decomp [[Fin 0, Fin 0], [Fin 1, Fin 1]] 2 2 = Inl ArrayIsSingular"
proof -
  have z: "zero_row 2 [[Fin 0, Fin 0], [Fin 1, Fin 1]] 0"
    by (simp add: zero_row_def less_Suc_eq numeral_2_eq_2)
  have nz: "\<forall>i<2. \<not> zero_row 2 [[Fin 1, Fin 1], [Fin 1, Fin 1]] i"
    by (auto simp: zero_row_def less_Suc_eq numeral_2_eq_2)
  have "lu_decomp [[Fin 0, Fin 0], [Fin 1, Fin 1]] (int 2) 2 = Inl ArrayIsSingular"
    using lu_decomp_singular_iff[OF mat_ok_zero_row, of 2] z by auto
  then show ?thesis
    using lu_decomp_singular_iff[OF mat_ok_ones, of 2] nz z mat_ok_ones mat_ok_zero_row
      lu_decomp_ones by simp
qed

text \<open>
  Claim C10. The scaling vector has \<open>NMAX = 100\<close> entries and the pivot indices are
  stored in 8 bits. For \<open>N \<le> 100\<close>, an array holding an \<open>N \<times> N\<close> active submatrix of
  finite numbers and a right-hand side of at least \<open>N\<close> entries, \<open>lu_decomp\<close> makes no
  access outside an array; when it returns, each stored pivot index, read back from
  the 8-bit array, is the row \<^verbatim>\<open>imax\<close> chosen in the pass for its column (a row from
  that column to \<open>N - 1\<close>), and the following \<open>lu_backsubs\<close> returns, so that all its
  accesses are inside the arrays as well. For \<open>n > 100\<close> no factorisation is returned
  for any matrix: the write \<^verbatim>\<open>vv[100]\<close> lies outside the scaling vector.
\<close>

theorem lu_in_bounds:
  "(N \<le> 100 \<and> mat_ok N a \<and> N \<le> length (b::fl list) \<longrightarrow>
      lu_decomp a (int N) ntot \<noteq> Inl IndexError \<and>
      (\<forall>a' indx. lu_decomp a (int N) ntot = Inr (a', indx) \<longrightarrow>
         (\<exists>vv s. lu_scale a (int N) (replicate (nat NMAX) (Fin 0)) = Inr vv \<and>
                 lu_columns (int N) (int N) (lu_start a vv (int N)) = Inr s \<and>
                 a' = lu_a s \<and> indx = lu_indx s \<and>
                 pivots_ok N N (lu_start a vv (int N)) s) \<and>
         (\<exists>b'. lu_backsubs a' (int N) ntot indx b = Inr b')))
   \<and> (100 < n \<longrightarrow> (\<forall>m r. lu_decomp m n ntot \<noteq> Inr r))"
proof (intro conjI impI)
  assume h: "N \<le> 100 \<and> mat_ok N a \<and> N \<le> length b"
  then have ok: "mat_ok N a" and N: "N \<le> 100" and len: "N \<le> length b" by simp_all
  from lu_decomp_spec[OF ok N, of ntot]
  show "lu_decomp a (int N) ntot \<noteq> Inl IndexError" by auto
  show "\<forall>a' indx. lu_decomp a (int N) ntot = Inr (a', indx) \<longrightarrow>
         (\<exists>vv s. lu_scale a (int N) (replicate (nat NMAX) (Fin 0)) = Inr vv \<and>
                 lu_columns (int N) (int N) (lu_start a vv (int N)) = Inr s \<and>
                 a' = lu_a s \<and> indx = lu_indx s \<and>
                 pivots_ok N N (lu_start a vv (int N)) s) \<and>
         (\<exists>b'. lu_backsubs a' (int N) ntot indx b = Inr b')"
  proof (intro allI impI)
    fix a' indx assume r: "lu_decomp a (int N) ntot = Inr (a', indx)"
    with lu_decomp_spec[OF ok N, of ntot]
    obtain vv s where s: "lu_scale a (int N) (replicate (nat NMAX) (Fin 0)) = Inr vv"
        "lu_columns (int N) (int N) (lu_start a vv (int N)) = Inr s"
        "lu_inv N N s" "pivots_ok N N (lu_start a vv (int N)) s"
        "a' = lu_a s" "indx = lu_indx s"
      by auto
    have "\<exists>b'. lu_backsubs a' (int N) ntot indx b = Inr b' \<and> length b' = length b"
      unfolding s(5,6)
      by (rule lu_backsubs_spec[OF _ _ pivots_indx_ok[OF s(3,4)] len])
         (use s(3) in \<open>simp_all add: lu_inv_def\<close>)
    then show "(\<exists>vv s. lu_scale a (int N) (replicate (nat NMAX) (Fin 0)) = Inr vv \<and>
                 lu_columns (int N) (int N) (lu_start a vv (int N)) = Inr s \<and>
                 a' = lu_a s \<and> indx = lu_indx s \<and>
                 pivots_ok N N (lu_start a vv (int N)) s) \<and>
         (\<exists>b'. lu_backsubs a' (int N) ntot indx b = Inr b')"
      using s by blast
  qed
next
  assume "100 < n"
  then show "\<forall>m r. lu_decomp m n ntot \<noteq> Inr r"
    using lu_decomp_overflow[of n _ ntot] by (metis Inl_Inr_False)
qed

theorem lu_in_bounds_witness:
  "(2::nat) \<le> 100 \<and> mat_ok 2 [[Fin 1, Fin 1], [Fin 1, Fin 1]] \<and> 2 \<le> length [Fin 4, Fin 3]
   \<and> lu_decomp [[Fin 1, Fin 1], [Fin 1, Fin 1]] 2 2 = Inr ([[Fin 1, Fin 1], [Fin 1, TINY]], [1, 1])
   \<and> (\<exists>b'. lu_backsubs [[Fin 1, Fin 1], [Fin 1, TINY]] 2 2 [1, 1] [Fin 4, Fin 3] = Inr b')
   \<and> (100::int) < 101 \<and> (\<forall>r. lu_decomp [[Fin 1]] 101 101 \<noteq> Inr r)"
  using lu_in_bounds[of 2 "[[Fin 1, Fin 1], [Fin 1, Fin 1]]" "[Fin 4, Fin 3]" 2 101]
    lu_in_bounds[of 0 "[]" "[]" 101 101] mat_ok_ones lu_decomp_ones
  by simp


section \<open>The frame of t_start\<close>

lemma keepsI: "(\<And>s. same_inputs s (stmt s)) \<Longrightarrow> keeps stmt"
  by (simp add: keeps_def same_inputs_def)

lemma keepsD: "keeps stmt \<Longrightarrow> same_inputs s (stmt s)"
  by (simp add: keeps_def same_inputs_def)

lemma same_inputs_refl [simp]: "same_inputs s s"
  by (simp add: same_inputs_def)

lemma same_inputs_trans: "same_inputs s s1 \<Longrightarrow> same_inputs s1 s2 \<Longrightarrow> same_inputs s s2"
  by (simp add: same_inputs_def)

lemma same_inputs_raise [simp]: "same_inputs s (raise e s)"
  by (simp add: same_inputs_def raise_def)

lemma same_inputs_exec:
  "(\<And>s'. r = Inr s' \<Longrightarrow> same_inputs s s') \<Longrightarrow> same_inputs s (exec s r)"
  by (cases r) (simp_all add: exec_def)

lemma keeps_run: "(\<And>stmt. stmt \<in> set stmts \<Longrightarrow> keeps stmt) \<Longrightarrow> keeps (run stmts)"
proof (induction stmts)
  case Nil
  then show ?case by (simp add: keeps_def)
next
  case (Cons a stmts)
  have a: "keeps a" and r: "keeps (run stmts)" using Cons by simp_all
  show ?case
  proof (rule keepsI)
    fix s
    show "same_inputs s (run (a # stmts) s)"
      using same_inputs_trans[OF keepsD[OF a, of s] keepsD[OF r, of "a s"]] by simp
  qed
qed

lemma keeps_ts_for: "(\<And>i. keeps (body i)) \<Longrightarrow> keeps (ts_for xs body)"
  unfolding ts_for_def by (rule keeps_run) auto

lemma keeps_with_zone: "(\<And>a b c. keeps (body a b c)) \<Longrightarrow> keeps (with_zone nz body)"
  by (rule keepsI) (auto simp: with_zone_def keepsD split: sum.splits)

lemma keeps_comp: "keeps f \<Longrightarrow> keeps g \<Longrightarrow> keeps (\<lambda>s. f (g s))"
  by (simp add: keeps_def)

lemma keeps_copy_beta: "keeps (copy_beta j1)"
  by (rule keepsI, unfold copy_beta_def, rule same_inputs_exec)
     (auto simp: rbind_def same_inputs_def split: sum.splits)

lemma keeps_adiabat_beta: "keeps (adiabat_beta inp j1)"
  by (rule keepsI, unfold adiabat_beta_def, rule same_inputs_exec)
     (auto simp: rbind_def same_inputs_def split: sum.splits)

lemma keeps_adiabat_temp: "keeps (adiabat_temp inp j1)"
  by (rule keepsI, unfold adiabat_temp_def, rule same_inputs_exec)
     (auto simp: rbind_def same_inputs_def split: sum.splits)

lemma keeps_reconstruct_zone: "keeps (reconstruct_zone inp nb)"
  unfolding reconstruct_zone_def Let_def
  by (intro keeps_with_zone keeps_run)
     (auto intro: keeps_ts_for keeps_copy_beta keeps_adiabat_beta)

lemma keeps_reconstruct: "keeps (reconstruct inp)"
  unfolding reconstruct_def by (rule keeps_ts_for) (rule keeps_reconstruct_zone)

lemma keeps_thermal_flux: "keeps (thermal_flux inp)"
  by (rule keepsI) (simp add: thermal_flux_def Let_def same_inputs_def)

lemma keeps_jac_column: "keeps (jac_column inp n_top_r del_t jm)"
  by (rule keepsI, unfold jac_column_def, rule same_inputs_exec)
     (auto simp: rbind_def same_inputs_def split: sum.splits)

lemma keeps_add_beta: "keeps (add_beta jm d)"
  by (rule keepsI, unfold add_beta_def, rule same_inputs_exec)
     (auto simp: rbind_def same_inputs_def split: sum.splits)

lemma keeps_sub_beta: "keeps (sub_beta jm d)"
  by (rule keepsI, unfold sub_beta_def, rule same_inputs_exec)
     (auto simp: rbind_def same_inputs_def split: sum.splits)

lemma keeps_jacobian_level: "keeps (jacobian_level inp n_top_r jm)"
proof (rule keepsI)
  fix s
  show "same_inputs s (jacobian_level inp n_top_r jm s)"
  proof (cases "getitem (st_temp_old s) jm")
    case (Inl e)
    then show ?thesis by (simp add: jacobian_level_def)
  next
    case (Inr t)
    have "keeps (run [add_beta jm (py_max (Fin (1 / 10000) * t) (Fin 3)), reconstruct inp,
        thermal_flux inp, jac_column inp n_top_r (py_max (Fin (1 / 10000) * t) (Fin 3)) jm,
        sub_beta jm (py_max (Fin (1 / 10000) * t) (Fin 3))])"
      by (rule keeps_run)
         (auto intro: keeps_add_beta keeps_reconstruct keeps_thermal_flux keeps_jac_column
            keeps_sub_beta)
    then show ?thesis unfolding jacobian_level_def Inr using keepsD by (simp add: Let_def del: run.simps)
  qed
qed

lemma keeps_next_no: "keeps (next_no n_top_r d)"
  by (rule keepsI) (simp add: next_no_def Let_def same_inputs_def)

lemma keeps_jacobian_zone: "keeps (jacobian_zone inp n_top_r nz)"
  unfolding jacobian_zone_def Let_def
  by (intro keeps_with_zone keeps_run)
     (auto intro: keeps_ts_for keeps_jacobian_level keeps_next_no)

lemma keeps_jacobian: "keeps (jacobian inp n_top_r)"
proof (rule keepsI)
  fix s :: tstate
  let ?s0 = "s\<lparr>st_no := (if n_top_r < 0 then 0 else n_top_r),
          st_flag_no := (if n_top_r < 0 then 1 else 0)\<rparr>"
  have "same_inputs ?s0 (ts_for (zone_range (in_nofczns inp)) (jacobian_zone inp n_top_r) ?s0)"
    by (rule keepsD) (rule keeps_ts_for, rule keeps_jacobian_zone)
  then show "same_inputs s (jacobian inp n_top_r s)"
    by (simp add: jacobian_def same_inputs_def)
qed

lemma keeps_solve_direction: "keeps (solve_direction inp)"
  by (rule keepsI, unfold solve_direction_def, rule same_inputs_exec)
     (auto simp: rbind_def same_inputs_def split: sum.splits)

lemma keeps_prepare_search: "keeps prepare_search"
  by (rule keepsI, unfold prepare_search_def, rule same_inputs_exec)
     (auto simp: rbind_def same_inputs_def split: sum.splits if_splits)


lemma keeps_ls_stats: "keeps (ls_stats n_top_r)"
  by (rule keepsI, unfold ls_stats_def, rule same_inputs_exec)
     (auto simp: rbind_def same_inputs_def split: sum.splits option.splits if_splits)

lemma keeps_move_level: "keeps (move_level j)"
  by (rule keepsI, unfold move_level_def, rule same_inputs_exec)
     (auto simp: rbind_def same_inputs_def split: sum.splits)

lemma keeps_next_ndo: "keeps (next_ndo n_top_r d)"
  by (rule keepsI) (simp add: next_ndo_def Let_def same_inputs_def)

lemma keeps_ls_update_zone: "keeps (ls_update_zone inp n_top_r nd)"
  unfolding ls_update_zone_def Let_def
  by (intro keeps_with_zone keeps_run)
     (auto intro: keeps_ts_for keeps_move_level keeps_adiabat_temp keeps_next_ndo)

lemma keeps_ls_update: "keeps (ls_update inp n_top_r)"
proof (rule keepsI)
  fix s :: tstate
  let ?s0 = "s\<lparr>st_ndo := (if n_top_r < 0 then 0 else n_top_r),
          st_flag_ndo := (if n_top_r < 0 then 1 else 0)\<rparr>"
  have "same_inputs ?s0 (ts_for (zone_range (in_nofczns inp)) (ls_update_zone inp n_top_r) ?s0)"
    by (rule keepsD) (rule keeps_ts_for, rule keeps_ls_update_zone)
  then show "same_inputs s (ls_update inp n_top_r s)"
    by (simp add: ls_update_def same_inputs_def)
qed

lemma keeps_damper_level: "apart inp \<Longrightarrow> keeps (damper_level inp j1)"
  by (rule keepsI)
     (simp add: damper_level_def damper_cell_def apart_def same_inputs_def Let_def
        split: sum.splits)

lemma keeps_damper: "apart inp \<Longrightarrow> keeps (damper inp n_top_r)"
  unfolding damper_def by (rule keeps_ts_for) (rule keeps_damper_level)

lemma keeps_net_flux: "keeps (net_flux inp)"
  by (rule keepsI, unfold net_flux_def, rule same_inputs_exec)
     (auto simp: rbind_def same_inputs_def split: sum.splits)

lemma keeps_ls_residual: "keeps (ls_residual inp n_top_r)"
  by (rule keepsI, unfold ls_residual_def, rule same_inputs_exec)
     (auto simp: rbind_def same_inputs_def split: sum.splits)

lemma keeps_converged: "keeps (converged check)"
proof (rule keepsI)
  fix s :: tstate
  have "same_inputs (s\<lparr>st_check := check\<rparr>) (converged check s)"
    unfolding converged_def
    by (rule same_inputs_exec) (auto simp: rbind_def same_inputs_def split: sum.splits)
  then show "same_inputs s (converged check s)" by (simp add: same_inputs_def)
qed

lemma keeps_ls_decide: "keeps ls_decide"
proof (rule keepsI)
  fix s :: tstate
  have "same_inputs s (exec s (rbind (backtrack s) (\<lambda>t. Inr (s\<lparr>st_tmplam := Some t\<rparr>))))"
    by (rule same_inputs_exec) (auto simp: rbind_def same_inputs_def split: sum.splits)
  then show "same_inputs s (ls_decide s)"
    using keepsD[OF keeps_converged] by (simp add: ls_decide_def)
qed

lemma keeps_ls_next_alam: "keeps ls_next_alam"
  by (rule keepsI)
     (simp add: ls_next_alam_def same_inputs_def raise_def split: option.splits)

lemma keeps_nan_guard: "keeps nan_guard"
  by (rule keepsI) (simp add: nan_guard_def same_inputs_def)

lemma keeps_line_search_body: "apart inp \<Longrightarrow> keeps (line_search_body inp n_top_r)"
  unfolding line_search_body_def
  by (rule keeps_run)
     (auto intro: keeps_ls_stats keeps_ls_update keeps_damper keeps_thermal_flux keeps_net_flux
        keeps_ls_residual keeps_ls_decide keeps_ls_next_alam keeps_nan_guard)

lemma keeps_line_search: "apart inp \<Longrightarrow> keeps (line_search inp n_top_r fuel)"
proof (induction fuel)
  case 0
  show ?case by (rule keepsI) (simp add: same_inputs_def)
next
  case (Suc k)
  have ih: "keeps (line_search inp n_top_r k)" using Suc by simp
  have body: "keeps (line_search_body inp n_top_r)"
    using Suc(2) by (rule keeps_line_search_body)
  show ?case
  proof (rule keepsI)
    fix s
    show "same_inputs s (line_search inp n_top_r (Suc k) s)"
      using same_inputs_trans[OF keepsD[OF body, of s]
          keepsD[OF ih, of "line_search_body inp n_top_r s"]]
      by simp
  qed
qed

lemma keeps_return_with: "keeps (return_with inp flux_out)"
  by (rule keepsI, unfold return_with_def, rule same_inputs_exec)
     (auto simp: rbind_def same_inputs_def split: sum.splits option.splits)

lemma keeps_snapshot: "keeps snapshot"
  by (rule keepsI) (simp add: snapshot_def same_inputs_def)

lemma keeps_assemble: "keeps (assemble inp n_top_r)"
  by (rule keepsI, unfold assemble_def, rule same_inputs_exec)
     (auto simp: rbind_def same_inputs_def split: sum.splits)

lemma keeps_root_check: "keeps (root_check inp)"
proof (rule keepsI)
  fix s :: tstate
  have r: "same_inputs s (return_with inp (st_flux_net_ir s) (s\<lparr>st_flag_converge := Some 2\<rparr>))"
    using keepsD[OF keeps_return_with, of "s\<lparr>st_flag_converge := Some 2\<rparr>"]
    by (simp add: same_inputs_def)
  show "same_inputs s (root_check inp s)"
    unfolding root_check_def
    by (rule same_inputs_exec) (use r in \<open>auto simp: rbind_def split: sum.splits if_splits\<close>)
qed

lemma keeps_grow_step_max: "keeps grow_step_max"
  by (rule keepsI) (simp add: grow_step_max_def same_inputs_def)

lemma keeps_outer_tail: "keeps (outer_tail inp)"
proof (rule keepsI)
  fix s :: tstate
  let ?s1 = "if in_save_profile inp = 1
             then s\<lparr>st_all_profiles := st_all_profiles s @ st_temp_old s\<rparr> else s"
  have s1: "same_inputs s ?s1" by (simp add: same_inputs_def)
  have r: "same_inputs s (return_with inp (st_flux_net_ir ?s1) ?s1)"
    by (rule same_inputs_trans[OF s1 keepsD[OF keeps_return_with]])
  show "same_inputs s (outer_tail inp s)"
    unfolding outer_tail_def
    by (rule same_inputs_exec)
       (use r s1 in \<open>auto simp: rbind_def Let_def split: sum.splits if_splits\<close>)
qed

lemma keeps_outer_body: "apart inp \<Longrightarrow> keeps (outer_body inp n_top_r fuel its)"
  unfolding outer_body_def
  by (rule keeps_run)
     (auto intro: keeps_net_flux keeps_snapshot keeps_assemble keeps_root_check
        keeps_grow_step_max keeps_jacobian keeps_solve_direction keeps_prepare_search
        keeps_line_search keeps_outer_tail)

lemma keeps_prologue: "keeps (prologue inp)"
  by (rule keepsI, unfold prologue_def Let_def, rule same_inputs_exec)
     (auto simp: rbind_def same_inputs_def split: sum.splits)

lemma keeps_final_return: "keeps (final_return inp)"
  unfolding final_return_def
  by (rule keepsI) (simp add: keepsD[OF keeps_return_with])

text \<open>
  When no position around a profile belongs to an array of the caller, the pressure
  array, the tidal heating and the zone map of the final state are those the caller
  supplied, whatever the arguments, the number of outer iterations, the bound on the
  line search and the way \<^verbatim>\<open>t_start\<close> ends. The damper is the only statement of the
  model that writes outside the array it indexes; any other access outside an array
  ends the run with \<open>IndexError\<close>.
\<close>

lemma t_start_frame_apart:
  assumes "apart inp"
  shows "st_pressure (t_start inp fuel temp pressure tidal nstr all_profiles) = pressure \<and>
   st_tidal (t_start inp fuel temp pressure tidal nstr all_profiles) = tidal \<and>
   st_nstr (t_start inp fuel temp pressure tidal nstr all_profiles) = nstr"
proof -
  let ?s0 = "initial temp pressure tidal nstr all_profiles"
  have s0: "st_pressure ?s0 = pressure" "st_tidal ?s0 = tidal" "st_nstr ?s0 = nstr"
    by (simp_all add: initial_def)
  have "same_inputs ?s0 (t_start inp fuel temp pressure tidal nstr all_profiles)"
  proof (cases "getitem nstr 0")
    case (Inl e)
    then show ?thesis by (simp add: t_start_def Let_def)
  next
    case (Inr n0)
    have "keeps (run [prologue inp,
                  ts_for (py_range 0 (in_it_max inp)) (outer_body inp (n0 - 1) fuel),
                  final_return inp])"
      using assms
      by (intro keeps_run)
         (auto intro: keeps_prologue keeps_ts_for keeps_outer_body keeps_final_return)
    then show ?thesis unfolding t_start_def Inr using keepsD by (simp add: Let_def del: run.simps)
  qed
  then show ?thesis using s0 by (simp add: same_inputs_def)
qed

section \<open>Properties of the damper\<close>

lemma run_stopped: "st_status s \<noteq> Running \<Longrightarrow> run stmts s = s"
  by (cases stmts) simp_all

lemma run_append: "run (xs @ ys) s = run ys (run xs s)"
  by (induction xs arbitrary: s) (simp_all add: run_stopped)

lemma damper_level_in:
  fixes s :: tstate
  assumes "k < length (st_temp s)"
  shows "damper_level inp (int k) s
           = s\<lparr>st_temp := (st_temp s)[k := spec_clamp (in_tmin inp) (in_tmax inp) (st_temp s ! k)]\<rparr>"
  using assms
  by (simp add: damper_level_def py_index_def spec_clamp_def Let_def)

lemma damper_level_out:
  fixes s :: tstate
  shows "damper_level inp (int (length (st_temp s))) s
           = damper_cell inp (int (length (st_temp s))) s"
  by (simp add: damper_level_def py_index_def)

lemma damper_cell_clamp:
  fixes s :: tstate
  shows "damper_cell inp i s =
     (case in_around_temp inp (st_temp_buf s) i of
        In_pressure k \<Rightarrow>
          if k < length (st_pressure s)
          then s\<lparr>st_pressure := (st_pressure s)
                   [k := spec_clamp (in_tmin inp) (in_tmax inp) (st_pressure s ! k)]\<rparr>
          else s
      | In_tidal k \<Rightarrow>
          if k < length (st_tidal s)
          then s\<lparr>st_tidal := (st_tidal s)
                   [k := spec_clamp (in_tmin inp) (in_tmax inp) (st_tidal s ! k)]\<rparr>
          else s
      | Outside \<Rightarrow> s)"
  by (simp add: damper_cell_def spec_clamp_def Let_def split: cell.splits)

lemma damper_inside:
  fixes s :: tstate
  shows "k \<le> length (st_temp s) \<Longrightarrow> st_status s = Running \<Longrightarrow>
     run (map (damper_level inp) (py_range (int k) (int (length (st_temp s))))) s
       = s\<lparr>st_temp := take k (st_temp s)
                @ map (spec_clamp (in_tmin inp) (in_tmax inp)) (drop k (st_temp s))\<rparr>"
proof (induction "length (st_temp s) - k" arbitrary: k s)
  case 0
  then show ?case by simp
next
  case (Suc d)
  have lt: "k < length (st_temp s)" using Suc by simp
  let ?c = "spec_clamp (in_tmin inp) (in_tmax inp)"
  let ?s' = "s\<lparr>st_temp := (st_temp s)[k := ?c (st_temp s ! k)]\<rparr>"
  have pr: "py_range (int k) (int (length (st_temp s)))
              = int k # py_range (int (Suc k)) (int (length (st_temp ?s')))"
    using py_range_rec[of "int k" "int (length (st_temp s))"] lt by (simp add: add.commute)
  have ih: "run (map (damper_level inp) (py_range (int (Suc k)) (int (length (st_temp ?s'))))) ?s'
       = ?s'\<lparr>st_temp := take (Suc k) (st_temp ?s') @ map ?c (drop (Suc k) (st_temp ?s'))\<rparr>"
    using Suc by (intro Suc(1)) simp_all
  have "take (Suc k) (st_temp ?s') @ map ?c (drop (Suc k) (st_temp ?s'))
         = take k (st_temp s) @ map ?c (drop k (st_temp s))"
    using lt by (simp add: take_Suc_conv_app_nth Cons_nth_drop_Suc[symmetric])
  then show ?case
    using Suc(4) ih by (simp only: pr list.map run.simps damper_level_in[OF lt] if_True) simp
qed

lemma damper_outside:
  fixes s :: tstate
  assumes "st_status s = Running"
    and "int (length (st_temp s)) = in_nlevel inp"
    and "0 \<le> n_top_r + 1" and "n_top_r + 1 \<le> in_nlevel inp"
    and s': "s' = s\<lparr>st_temp := take (nat (n_top_r + 1)) (st_temp s)
                   @ map (spec_clamp (in_tmin inp) (in_tmax inp))
                       (drop (nat (n_top_r + 1)) (st_temp s))\<rparr>"
  shows "damper inp n_top_r s = damper_cell inp (in_nlevel inp) s'"
proof -
  let ?k = "nat (n_top_r + 1)"
  let ?n = "length (st_temp s)"
  have k: "?k \<le> ?n" using assms by linarith
  have pr: "py_range (n_top_r + 1) (in_nlevel inp + 1)
              = py_range (int ?k) (int ?n) @ [int ?n]"
    using py_range_snoc[of "n_top_r + 1" "in_nlevel inp"] assms by simp
  have len: "length (st_temp s') = ?n" using k by (simp add: s')
  have "damper_level inp (int (length (st_temp s'))) s' = damper_cell inp (int (length (st_temp s'))) s'"
    by (rule damper_level_out)
  then have out: "damper_level inp (int ?n) s' = damper_cell inp (in_nlevel inp) s'"
    by (simp only: len assms(2))
  have run1: "st_status s' = Running" using assms(1) by (simp add: s')
  show ?thesis
    unfolding damper_def ts_for_def pr map_append run_append damper_inside[OF k assms(1)]
    using out run1 by (simp add: s')
qed

text \<open>
  Claim C3 fails on the code in its last part. On a running state whose profile has
  \<open>nlevel\<close> entries, with \<open>0 \<le> n_top_r + 1 \<le> nlevel\<close>, the damper sets every level from
  \<open>n_top_r + 1\<close> to \<open>nlevel - 1\<close> that is below \<open>tmin\<close> to \<open>tmin + 0.1\<close> and every one
  above \<open>tmax\<close> to \<open>tmax - 0.1\<close> and keeps the others, as claimed; but its loop is
  \<^verbatim>\<open>range(n_top_r+1, nlevel+1)\<close>, so its last pass is at index \<open>nlevel\<close>, which is not an
  index of the profile: it tests and clamps in the same way the cell that lies one
  position past the profile, which is an entry of the pressure array or of the tidal
  array of the caller when that array lies there, and changes no array of the caller
  otherwise.
\<close>

theorem damper_reads_past_profile:
  fixes s :: tstate
  assumes "st_status s = Running"
    and "int (length (st_temp s)) = in_nlevel inp"
    and "0 \<le> n_top_r + 1" and "n_top_r + 1 \<le> in_nlevel inp"
  shows "(let s' = s\<lparr>st_temp := take (nat (n_top_r + 1)) (st_temp s)
                        @ map (spec_clamp (in_tmin inp) (in_tmax inp))
                            (drop (nat (n_top_r + 1)) (st_temp s))\<rparr>
          in py_index (length (st_temp s')) (in_nlevel inp) = Inl IndexError
           \<and> damper inp n_top_r s =
               (case in_around_temp inp (st_temp_buf s) (in_nlevel inp) of
                  In_pressure k \<Rightarrow>
                    if k < length (st_pressure s)
                    then s'\<lparr>st_pressure := (st_pressure s)
                              [k := spec_clamp (in_tmin inp) (in_tmax inp) (st_pressure s ! k)]\<rparr>
                    else s'
                | In_tidal k \<Rightarrow>
                    if k < length (st_tidal s)
                    then s'\<lparr>st_tidal := (st_tidal s)
                              [k := spec_clamp (in_tmin inp) (in_tmax inp) (st_tidal s ! k)]\<rparr>
                    else s'
                | Outside \<Rightarrow> s'))"
proof -
  define s' where "s' = s\<lparr>st_temp := take (nat (n_top_r + 1)) (st_temp s)
                        @ map (spec_clamp (in_tmin inp) (in_tmax inp))
                            (drop (nat (n_top_r + 1)) (st_temp s))\<rparr>"
  have k: "nat (n_top_r + 1) \<le> length (st_temp s)" using assms by linarith
  have len: "length (st_temp s') = length (st_temp s)" using k by (simp add: s'_def)
  have sp: "st_pressure s' = st_pressure s" "st_tidal s' = st_tidal s"
    "st_temp_buf s' = st_temp_buf s" by (simp_all add: s'_def)
  have d: "damper inp n_top_r s = damper_cell inp (in_nlevel inp) s'"
    using assms s'_def by (rule damper_outside)
  have i: "py_index (length (st_temp s')) (in_nlevel inp) = Inl IndexError"
    using assms(2) by (simp add: len py_index_def)
  have "py_index (length (st_temp s')) (in_nlevel inp) = Inl IndexError
           \<and> damper inp n_top_r s =
               (case in_around_temp inp (st_temp_buf s) (in_nlevel inp) of
                  In_pressure k \<Rightarrow>
                    if k < length (st_pressure s)
                    then s'\<lparr>st_pressure := (st_pressure s)
                              [k := spec_clamp (in_tmin inp) (in_tmax inp) (st_pressure s ! k)]\<rparr>
                    else s'
                | In_tidal k \<Rightarrow>
                    if k < length (st_tidal s)
                    then s'\<lparr>st_tidal := (st_tidal s)
                              [k := spec_clamp (in_tmin inp) (in_tmax inp) (st_tidal s ! k)]\<rparr>
                    else s'
                | Outside \<Rightarrow> s')"
    unfolding d damper_cell_clamp sp using i by simp
  then show ?thesis unfolding s'_def Let_def .
qed

text \<open>
  The profile \<open>[100, 5000]\<close> with \<open>tmin = 150\<close> and \<open>tmax = 4000\<close>, and the pressure
  array \<open>[1, 10]\<close> right behind it: both levels are clamped, to \<open>150.1\<close> and \<open>3999.9\<close>,
  and the third pass of the loop sets the first pressure to \<open>150.1\<close>.
\<close>

theorem damper_reads_past_profile_witness:
  "damper adjacent_inputs (- 1) (initial [Fin 100, Fin 5000] [Fin 1, Fin 10] [] [] [])
     = initial [Fin (1501 / 10), Fin (39999 / 10)] [Fin (1501 / 10), Fin 10] [] [] []"
  using damper_reads_past_profile[of "initial [Fin 100, Fin 5000] [Fin 1, Fin 10] [] [] []"
     adjacent_inputs "- 1"]
  by (simp add: initial_def adjacent_inputs_def spec_clamp_def)

section \<open>A run that writes the pressure array\<close>

lemma py_range_3: "py_range 0 3 = [0, 1, 2]"
  by (simp add: py_range_def upto_rec1)

lemma sqrt_250000: "sqrt 250000 = 500"
  by (rule real_sqrt_unique) simp_all

lemma run_entered_is:
  "run_entered =
     (initial [Fin 300, Fin 400] [Fin 1, Fin 10] [Fin (- 350), Fin (- 350)]
        [0, 1, 0, 0, 0, 0] [])
     \<lparr>st_flux_net_v_layer := [Fin 0, Fin 0], st_flux_net_v := [Fin 0, Fin 0],
      st_flux_net_ir_layer := [Fin 400, Fin 400], st_flux_net_ir := [Fin 300, Fin 400],
      st_flux_plus_ir := [[Fin 0], [Fin 0]],
      st_flux_net := [Fin 0, Fin 0], st_flux_net_midpt := [Fin 0, Fin 0],
      st_dflux := [Fin 0, Fin 0], st_f_vec := [Fin 0, Fin 0], st_p := [Fin 0, Fin 0],
      st_g := [Fin 0, Fin 0], st_A := [[Fin 0, Fin 0], [Fin 0, Fin 0]]\<rparr>"
  by (simp add: run_entered_def prologue_def initial_def adjacent_inputs_def linear_flux_def Let_def
       getitem2_def getitem_def py_index_def np_zeros_def np_zeros2_def exec_def numeral_2_eq_2)

lemma run_assembled_is:
  "run_assembled = run_entered
    \<lparr>st_flux_net := [Fin (- 50), Fin 50], st_flux_net_midpt := [Fin 50, Fin 50],
     st_beta := [Fin 300, Fin 400], st_temp_old := [Fin 300, Fin 400],
     st_flux_net_old := [Fin 300, Fin 400], st_flux_net_midpt_old := [Fin 400, Fin 400],
     st_dflux := [Fin (- 50), Fin 50], st_f_vec := [Fin (- 50), Fin 50],
     st_sum_1 := Fin 250000, st_test := Fin 50, st_n_total := 2, st_f := Fin 2500,
     st_step_max := Fin 5\<rparr>"
  by (simp add: run_assembled_def run_entered_is initial_def adjacent_inputs_def net_flux_def total_flux_def np_add_def
        np_scale_def snapshot_def assemble_def residual_def zone_range_def resid_zone_def
        zone_bounds_def resid_start_def resid_entry_def root_check_def grow_step_max_def
        py_range_small getitem_def setitem_def py_index_def exec_def Let_def py_max_def
        of_py_int_def sqrt_250000)


lemma run_jacobian_is: "run_jacobian = run_assembled\<lparr>st_A := [[Fin 1, Fin 0], [Fin 0, Fin 1]], st_temp := [Fin 300, Fin 403],
     st_flux_net_ir := [Fin 300, Fin 403], st_flux_net_ir_layer := [Fin 403, Fin 403],
     st_no := - 1, st_flag_no := 0\<rparr>"
  by (simp add: run_jacobian_def run_assembled_is run_entered_is initial_def adjacent_inputs_def linear_flux_def jacobian_def
        jacobian_zone_def jacobian_level_def with_zone_def zone_bounds_def zone_range_def
        ts_for_def add_beta_def sub_beta_def reconstruct_def reconstruct_zone_def copy_beta_def
        thermal_flux_def jac_column_def jac_zone_def jac_entry_def next_no_def
        py_range_small getitem_def setitem_def getitem2_def setitem2_def py_index_def exec_def
        Let_def py_max_def)


lemma mat_sol_identity:
  "mat_sol [[Fin 1, Fin 0], [Fin 0, Fin 1]] 2 2 [Fin 50, Fin (- 50)]
     = Inr ([[Fin 1, Fin 0], [Fin 0, Fin 1]], [Fin 50, Fin (- 50)])"
  by (simp add: mat_sol_def lu_decomp_def lu_scale_def lu_row_max_def lu_columns_def
      lu_column_def lu_start_def lu_upper_def lu_dot_def lu_pivot_def lu_pivot_step_def
      lu_exchange_def lu_swap_def lu_tiny_def lu_below_def lu_divide_def NMAX_def
      lu_backsubs_def lu_forward_def lu_forward_step_def lu_back_def
      py_range_small getitem2_def setitem2_def getitem_def setitem_def py_index_def Let_def)

lemma run_solved_is: "run_solved = run_jacobian\<lparr>st_g := [Fin (- 50), Fin 50], st_p := [Fin 50, Fin (- 50)],
     st_f_old := Fin 2500\<rparr>"
  by (simp add: run_solved_def run_jacobian_is run_assembled_is run_entered_is initial_def adjacent_inputs_def solve_direction_def direction_def
        mat_sol_identity py_range_small getitem_def setitem_def getitem2_def py_index_def
        exec_def Let_def)

lemma run_prepared_is: "run_prepared = run_solved\<lparr>st_check := False, st_slope := Fin (- 5000), st_test := Fin (1 / 6),
     st_alamin := Fin (3 / 100), st_alam := Fin 1, st_f2 := Fin 2500,
     st_flag_converge := Some 0\<rparr>"
  by (simp add: run_prepared_def run_solved_is run_jacobian_is run_assembled_is run_entered_is initial_def adjacent_inputs_def
        prepare_search_def step_norm_def scale_step_def slope_of_def rel_step_def
        py_range_small getitem_def setitem_def getitem2_def py_index_def exec_def Let_def)

lemma run_damped_is: "run_damped = run_prepared\<lparr>st_jmx := Some (- 1), st_temp := [Fin 350, Fin 350], st_ndo := - 1,
     st_flag_ndo := 0, st_pressure := [Fin (1501 / 10), Fin 10]\<rparr>"
  by (simp add: run_damped_def run_prepared_is run_solved_is run_jacobian_is run_assembled_is run_entered_is initial_def adjacent_inputs_def ls_stats_def ls_update_def
        ls_update_zone_def move_level_def next_ndo_def with_zone_def zone_bounds_def zone_range_def
        ts_for_def damper_def damper_level_def damper_cell_def of_py_int_def
        py_range_small py_range_3 getitem_def setitem_def py_index_def exec_def Let_def)

lemma run_tried_is: "run_tried = run_damped\<lparr>st_flux_net_ir := [Fin 350, Fin 350], st_flux_net_ir_layer := [Fin 350, Fin 350],
     st_flux_net := [Fin 0, Fin 0], st_flux_net_midpt := [Fin 0, Fin 0],
     st_f_vec := [Fin 0, Fin 0], st_f := Fin 0, st_flag_converge := Some 2, st_check := False\<rparr>"
  by (simp add: run_tried_def run_damped_is run_prepared_is run_solved_is run_jacobian_is run_assembled_is run_entered_is initial_def adjacent_inputs_def linear_flux_def
        thermal_flux_def net_flux_def total_flux_def np_add_def np_scale_def
        ls_residual_def ls_resid_zone_def ls_resid_entry_def zone_bounds_def zone_range_def
        ls_decide_def converged_def check_convergence_def cc_residual_def ls_next_alam_def
        nan_guard_def np_sum_def isnan_def
        py_range_small getitem_def setitem_def py_index_def exec_def Let_def)


lemma outer_loop_returns:
  assumes "1 \<le> it_max" and "st_status s = Running"
    and "st_status (body 0 s) = Returned r"
  shows "run [ts_for (py_range 0 it_max) body, final] s = body 0 s"
proof -
  have pr: "py_range 0 it_max = 0 # py_range 1 it_max"
    using py_range_rec[of 0 it_max] assms(1) by simp
  have "ts_for (py_range 0 it_max) body s = body 0 s"
    using assms(2,3) by (simp add: ts_for_def pr run_stopped)
  then show ?thesis using assms(2,3) by simp
qed

lemma run_tried_body: "line_search_body adjacent_inputs (- 1) run_prepared = run_tried"
proof -
  have "line_search_body adjacent_inputs (- 1)
          = run ([ls_stats (- 1), ls_update adjacent_inputs (- 1), damper adjacent_inputs (- 1)]
                 @ [thermal_flux adjacent_inputs, net_flux adjacent_inputs,
                    ls_residual adjacent_inputs (- 1), ls_decide, ls_next_alam, nan_guard])"
    by (simp add: line_search_body_def)
  then show ?thesis by (simp only: run_append run_damped_def[symmetric] run_tried_def[symmetric])
qed

lemma run_tried_search: "line_search adjacent_inputs (- 1) (Suc fuel) run_prepared = run_tried"
proof -
  have a: "st_status run_prepared = Running" "st_flag_converge run_prepared = Some 0"
    by (simp_all add: run_prepared_is run_solved_is run_jacobian_is run_assembled_is run_entered_is initial_def)
  have b: "st_flag_converge run_tried = Some 2"
    by (simp add: run_tried_is)
  have "line_search adjacent_inputs (- 1) fuel run_tried = run_tried"
    by (cases fuel) (simp_all add: b)
  then show ?thesis using a by (simp add: run_tried_body)
qed

lemma run_returned_is: "run_returned = run_tried\<lparr>st_status := Returned
     \<lparr>r_temp = [Fin 350, Fin 350], r_dtdp = [Fin 0], r_flag_converge = 2,
      r_flux_net = [Fin 350, Fin 350], r_flux_plus = [Fin 0], r_all_profiles = []\<rparr>\<rparr>"
  by (simp add: run_returned_def run_tried_is run_damped_is run_prepared_is run_solved_is run_jacobian_is run_assembled_is run_entered_is initial_def adjacent_inputs_def outer_tail_def
        return_with_def lapse_rate_def np_zeros_def
        py_range_small getitem_def setitem_def py_index_def exec_def Let_def)

lemma run_returned_outer: "outer_body adjacent_inputs (- 1) (Suc fuel) 0 run_entered = run_returned"
proof -
  have split: "outer_body adjacent_inputs (- 1) (Suc fuel) 0
     = run ([net_flux adjacent_inputs, snapshot, assemble adjacent_inputs (- 1),
             root_check adjacent_inputs, grow_step_max]
            @ [jacobian adjacent_inputs (- 1), solve_direction adjacent_inputs, prepare_search,
               line_search adjacent_inputs (- 1) (Suc fuel), outer_tail adjacent_inputs])"
    by (simp add: outer_body_def)
  have r: "st_status run_assembled = Running" "st_status run_jacobian = Running"
    "st_status run_solved = Running" "st_status run_prepared = Running" "st_status run_tried = Running"
    by (simp_all add: run_tried_is run_damped_is run_prepared_is run_solved_is run_jacobian_is run_assembled_is run_entered_is initial_def)
  show ?thesis
    unfolding split run_append run_assembled_def[symmetric]
    using r by (simp add: run_jacobian_def[symmetric] run_solved_def[symmetric] run_prepared_def[symmetric] run_tried_search run_returned_def
        del: line_search.simps)
qed

text \<open>
  Claim C9 fails on the code. The last pass of the damper writes one position past the
  profile (claim C3), and the compiled code does not check the index. In a run on a
  2-level atmosphere whose pressure array \<open>[1, 10]\<close> lies right behind the profile
  \<open>[300, 400]\<close> in memory, with the flux engine \<open>linear_flux\<close>, the tidal flux \<open>-350\<close>
  and one radiative zone, the first trial of the line search moves both levels to 350,
  and its damper finds the first pressure, 1, below \<open>tmin = 150\<close> and sets it to
  \<open>150.1\<close>. The trial is a root, so \<^verbatim>\<open>t_start\<close> returns with status 2, whatever the bound
  on the line search, and the pressure array of the caller is \<open>[150.1, 10]\<close>. Lemma
  \<open>t_start_frame_apart\<close> is the other case: when no array of the caller lies around a
  profile, the pressure array is unchanged in the model, where any other access
  outside an array ends the run.
\<close>

theorem t_start_writes_pressure:
  "\<forall>fuel. st_pressure (t_start adjacent_inputs (Suc fuel) [Fin 300, Fin 400] [Fin 1, Fin 10]
                          [Fin (- 350), Fin (- 350)] [0, 1, 0, 0, 0, 0] [])
             = [Fin (1501 / 10), Fin 10]
         \<and> st_status (t_start adjacent_inputs (Suc fuel) [Fin 300, Fin 400] [Fin 1, Fin 10]
                          [Fin (- 350), Fin (- 350)] [0, 1, 0, 0, 0, 0] [])
             = Returned \<lparr>r_temp = [Fin 350, Fin 350], r_dtdp = [Fin 0], r_flag_converge = 2,
                  r_flux_net = [Fin 350, Fin 350], r_flux_plus = [Fin 0], r_all_profiles = []\<rparr>"
proof
  fix fuel
  let ?t = "t_start adjacent_inputs (Suc fuel) [Fin 300, Fin 400] [Fin 1, Fin 10]
                          [Fin (- 350), Fin (- 350)] [0, 1, 0, 0, 0, 0] []"
  have st: "st_status (outer_body adjacent_inputs (- 1) (Suc fuel) 0 run_entered) = Returned
     \<lparr>r_temp = [Fin 350, Fin 350], r_dtdp = [Fin 0], r_flag_converge = 2,
      r_flux_net = [Fin 350, Fin 350], r_flux_plus = [Fin 0], r_all_profiles = []\<rparr>"
    by (simp add: run_returned_outer run_returned_is)
  have r0: "st_status run_entered = Running" by (simp add: run_entered_is initial_def)
  have it: "1 \<le> in_it_max adjacent_inputs" by (simp add: adjacent_inputs_def)
  have "?t = run [ts_for (py_range 0 (in_it_max adjacent_inputs))
                       (outer_body adjacent_inputs (- 1) (Suc fuel)),
                   final_return adjacent_inputs] run_entered"
    by (simp add: t_start_def getitem_def py_index_def run_entered_def initial_def)
  also have "\<dots> = run_returned"
    using outer_loop_returns[of "in_it_max adjacent_inputs" run_entered
        "outer_body adjacent_inputs (- 1) (Suc fuel)", OF it r0 st] run_returned_outer by simp
  finally have t: "?t = run_returned" .
  show "st_pressure ?t = [Fin (1501 / 10), Fin 10] \<and> st_status ?t = Returned
     \<lparr>r_temp = [Fin 350, Fin 350], r_dtdp = [Fin 0], r_flag_converge = 2,
      r_flux_net = [Fin 350, Fin 350], r_flux_plus = [Fin 0], r_all_profiles = []\<rparr>"
    unfolding t by (simp add: run_returned_is run_tried_is run_damped_is)
qed

section \<open>Properties of the NaN guard\<close>

lemma foldl_plus_NaN: "foldl (+) NaN xs = NaN"
  by (induction xs) simp_all

lemma np_sum_nan_entry: "NaN \<in> set xs \<Longrightarrow> isnan (np_sum xs)"
proof -
  assume "NaN \<in> set xs"
  then obtain ys zs where xs: "xs = ys @ NaN # zs" by (auto simp: in_set_conv_decomp)
  have "foldl (+) (Fin 0) ys + NaN = NaN" by (cases "foldl (+) (Fin 0) ys") simp_all
  then show ?thesis by (simp add: xs np_sum_def isnan_def foldl_plus_NaN)
qed

text \<open>
  Claim C8 as stated fails: the guard tests whether the sum of the profile is a NaN.
  A profile with the entry \<open>+inf\<close> and no NaN sums to \<open>+inf\<close>; the guard leaves it and
  the status flag as they are.
\<close>

theorem nan_guard_counterexample:
  "\<not> isfinite PInf \<and>
   nan_guard ((initial [PInf, Fin 300] [Fin 1, Fin 10] [Fin (- 1), Fin (- 1)] [0, 0, 0] [])
                \<lparr>st_temp_old := [Fin 250, Fin 300], st_flag_converge := Some 0\<rparr>)
     = (initial [PInf, Fin 300] [Fin 1, Fin 10] [Fin (- 1), Fin (- 1)] [0, 0, 0] [])
         \<lparr>st_temp_old := [Fin 250, Fin 300], st_flag_converge := Some 0\<rparr>"
  by (simp add: nan_guard_def initial_def np_sum_def isnan_def isfinite_def)

text \<open>
  Claim C8, amended. When the sum of the trial profile is a NaN (as it is when some
  entry is a NaN, lemma \<open>np_sum_nan_entry\<close>), the guard sets the profile to
  \<open>temp_old + 0.5\<close> at every level and the status flag to 1; the line search then
  stops there, whatever its bound; and the statements after it (with a non-empty old
  profile, a top net flux and a top tidal flux that is not zero) neither raise nor
  return, so that the outer loop goes on with the reset profile.
\<close>

theorem nan_guard_resets:
  fixes s :: tstate
  assumes "isnan (np_sum (st_temp s))"
    and "st_status s = Running"
    and "st_temp_old s \<noteq> []"
    and "getitem (st_flux_net s) 0 = Inr f0"
    and "getitem (st_tidal s) 0 = Inr t0" and "t0 \<noteq> Fin 0"
  shows "st_temp (nan_guard s) = map (\<lambda>x. x + Fin (1 / 2)) (st_temp_old s)
       \<and> st_flag_converge (nan_guard s) = Some 1
       \<and> line_search inp n_top_r fuel (nan_guard s) = nan_guard s
       \<and> st_status (outer_tail inp (nan_guard s)) = Running
       \<and> st_temp (outer_tail inp (nan_guard s)) = map (\<lambda>x. x + Fin (1 / 2)) (st_temp_old s)"
proof -
  let ?g = "nan_guard s"
  have g: "?g = s\<lparr>st_flag_converge := Some 1,
             st_temp := map (\<lambda>x. x + Fin (1 / 2)) (st_temp_old s),
             st_temp_buf := st_temp_buf s + 1\<rparr>"
    using assms(1) by (simp add: nan_guard_def)
  have ls: "line_search inp n_top_r fuel ?g = ?g"
    by (cases fuel) (simp_all add: g)
  obtain q where q: "fdiv f0 \<bar>t0\<bar> = Inr q"
    using assms(6) by (cases t0; cases f0) (auto split: if_splits)
  have ot: "outer_tail inp ?g =
     (if in_save_profile inp = 1
      then ?g\<lparr>st_all_profiles := st_all_profiles s @ st_temp_old s\<rparr> else ?g)"
    using assms(3,4,5) q by (simp add: g outer_tail_def exec_def Let_def del: fdiv.simps)
  show ?thesis using assms(2) by (simp add: ls ot) (simp add: g)
qed

text \<open>
  The trial profile \<open>[300, NaN]\<close> with the old profile \<open>[250, 300]\<close>.
\<close>

theorem nan_guard_resets_witness:
  "st_temp (nan_guard ((initial [Fin 300, NaN] [Fin 1, Fin 10] [Fin (- 1), Fin (- 1)] [0, 0, 0] [])
                \<lparr>st_temp_old := [Fin 250, Fin 300], st_flag_converge := Some 0,
                  st_flux_net := [Fin 2, Fin 2]\<rparr>)) = [Fin (2505 / 10), Fin (3005 / 10)]
   \<and> st_status (outer_tail (stub_inputs (Fin 3))
        (nan_guard ((initial [Fin 300, NaN] [Fin 1, Fin 10] [Fin (- 1), Fin (- 1)] [0, 0, 0] [])
                \<lparr>st_temp_old := [Fin 250, Fin 300], st_flag_converge := Some 0,
                  st_flux_net := [Fin 2, Fin 2]\<rparr>))) = Running"
  using nan_guard_resets[of "(initial [Fin 300, NaN] [Fin 1, Fin 10] [Fin (- 1), Fin (- 1)] [0, 0, 0] [])
                \<lparr>st_temp_old := [Fin 250, Fin 300], st_flag_converge := Some 0,
                  st_flux_net := [Fin 2, Fin 2]\<rparr>" "Fin 2" "Fin (- 1)" "stub_inputs (Fin 3)" "- 1" 5]
  by (simp add: initial_def np_sum_def isnan_def getitem_def py_index_def)

section \<open>The root test of t_start\<close>

lemma lapse_rate_2: 
  assumes "fdiv (flog ta - flog tb) (flog pa - flog pb) = Inr q"
  shows "lapse_rate 2 [ta, tb] [pa, pb] = Inr [q]"
  using assms
  by (simp add: lapse_rate_def np_zeros_def py_range_small getitem_def setitem_def py_index_def
      del: fdiv.simps)

lemma root_check_at_root:
  fixes s :: tstate
  assumes "in_nlevel inp = 2" and "st_test s = Fin 0" and "st_tidal s = Fin t0 # tds" and "t0 \<noteq> 0"
    and "st_temp s = [ta, tb]" and "st_pressure s = [pa, pb]"
    and "fdiv (flog ta - flog tb) (flog pa - flog pb) = Inr q"
    and "getitem (st_flux_plus_ir s) 0 = Inr fp"
  shows "root_check inp s = s\<lparr>st_flag_converge := Some 2, st_status := Returned
            \<lparr>r_temp = [ta, tb], r_dtdp = [q], r_flag_converge = 2, r_flux_net = st_flux_net_ir s,
             r_flux_plus = fp, r_all_profiles = st_all_profiles s\<rparr>\<rparr>"
  using assms(4)
  by (simp add: root_check_def return_with_def assms(1,2,3,5,6,8) lapse_rate_2[OF assms(7)] exec_def
       getitem_nat)

lemma assemble_at_root:
  fixes s :: tstate
  assumes "in_nofczns inp = 1" and "st_nstr s = 0 # n1 # n2 # rest" and "n1 = 0 \<or> n1 = 1"
    and "st_flux_net s = [Fin 0, Fin 0]" and "st_flux_net_midpt s = [Fin 0, Fin 0]"
    and "st_temp s = [ta, tb]" and "st_dflux s = [Fin 0, Fin 0]" and "st_f_vec s = [Fin 0, Fin 0]"
  shows "st_test (assemble inp (- 1) s) = Fin 0 \<and> st_status (assemble inp (- 1) s) = st_status s
       \<and> st_temp (assemble inp (- 1) s) = st_temp s \<and> st_pressure (assemble inp (- 1) s) = st_pressure s
       \<and> st_tidal (assemble inp (- 1) s) = st_tidal s
       \<and> st_flux_plus_ir (assemble inp (- 1) s) = st_flux_plus_ir s
       \<and> st_flux_net_ir (assemble inp (- 1) s) = st_flux_net_ir s
       \<and> st_all_profiles (assemble inp (- 1) s) = st_all_profiles s"
  using assms(3)
proof
  assume "n1 = 0"
  then show ?thesis
    by (simp add: assms(1,2,4-8) assemble_def
        residual_def zone_range_def resid_zone_def zone_bounds_def resid_start_def resid_entry_def
        getitem_def setitem_def py_index_def exec_def py_range_small Let_def)
next
  assume "n1 = 1"
  then show ?thesis
    by (simp add: assms(1,2,4-8) assemble_def
        residual_def zone_range_def resid_zone_def zone_bounds_def resid_start_def resid_entry_def
        getitem_def setitem_def py_index_def exec_def py_range_small Let_def)
qed


text \<open>
  Claim C1 as stated fails. With zero tidal heating the root test
  \<^verbatim>\<open>test/abs(tidal[0])\<close> divides by zero: on a 2-level atmosphere with a flux engine
  that returns zero flux everywhere, \<^verbatim>\<open>t_start\<close> raises \<open>ZeroDivisionError\<close> in the first
  outer iteration, whatever the bound on the line search, and reports no convergence.
\<close>

theorem t_start_zero_tidal_counterexample:
  "\<forall>fuel. st_status (t_start (stub_inputs (Fin 0)) fuel [Fin 300, Fin 400] [Fin 1, Fin 10]
                       [Fin 0, Fin 0] [0, 0, 0, 0, 0, 0] [])
           = Raised ZeroDivisionError"
  by (simp add: t_start_def initial_def stub_inputs_def stub_flux_def prologue_def Let_def
        getitem_def getitem2_def setitem_def py_index_def exec_def raise_def np_zeros_def np_zeros2_def
        ts_for_def py_range_3 py_range_small outer_body_def net_flux_def total_flux_def np_add_def
        np_scale_def snapshot_def assemble_def residual_def zone_range_def resid_zone_def
        zone_bounds_def resid_start_def resid_entry_def root_check_def final_return_def
        numeral_2_eq_2)

text \<open>
  Claim C1, amended. On a 2-level atmosphere with one zone whose radiative part starts
  at the top level, at least one outer iteration allowed, a top tidal flux \<open>t0\<close> that is
  a number other than zero, a flux engine whose result has the shapes \<^verbatim>\<open>t_start\<close> reads
  and gives a total net flux (thermal, visible and tidal) of exactly zero at both levels
  and both midpoints, and pressures for which the lapse rate is defined, \<^verbatim>\<open>t_start\<close>
  returns at the root test of the first outer iteration, before any Newton step: with
  status 2, the profile unchanged, the lapse rate of that profile, the thermal net
  flux and the first row of the upward thermal flux of the engine.
\<close>

theorem t_start_at_root:
  assumes nl: "in_nlevel inp = 2" and nz: "in_nofczns inp = 1" and itm: "1 \<le> in_it_max inp"
    and n1: "n1 = 0 \<or> n1 = 1" and t0: "t0 \<noteq> 0"
    and fx: "fx = in_climate inp [pa, pb] [ta, tb] True True (in_do_holes inp)"
    and vl: "getitem2 (fx_net_v_layer_full fx) 0 0 = Inr vl"
    and v: "getitem2 (fx_net_v_full fx) 0 0 = Inr v"
    and pv: "getitem2 (fx_plus_v_full fx) 0 0 = Inr pv"
    and mv: "getitem2 (fx_minus_v_full fx) 0 0 = Inr mv"
    and fn: "total_flux (in_rfaci inp) (in_rfacv inp) (fx_net_ir_full fx) v (Fin t0 # tds)
               = Inr [Fin 0, Fin 0]"
    and fm: "total_flux (in_rfaci inp) (in_rfacv inp) (fx_net_ir_layer_full fx) vl (Fin t0 # tds)
               = Inr [Fin 0, Fin 0]"
    and fp: "getitem (fx_plus_ir_full fx) 0 = Inr fp"
    and q: "fdiv (flog ta - flog tb) (flog pa - flog pb) = Inr q"
  shows "st_status (t_start inp fuel [ta, tb] [pa, pb] (Fin t0 # tds) (0 # n1 # n2 # rest)
                      all_profiles)
           = Returned \<lparr>r_temp = [ta, tb], r_dtdp = [q], r_flag_converge = 2,
                       r_flux_net = fx_net_ir_full fx, r_flux_plus = fp,
                       r_all_profiles = all_profiles\<rparr>
         \<and> st_temp (t_start inp fuel [ta, tb] [pa, pb] (Fin t0 # tds) (0 # n1 # n2 # rest)
                      all_profiles) = [ta, tb]"
proof -
  let ?s0 = "initial [ta, tb] [pa, pb] (Fin t0 # tds) (0 # n1 # n2 # rest) all_profiles"
  let ?z = "[Fin 0, Fin 0]"
  define s1 where "s1 = prologue inp ?s0"
  have s1: "s1 = ?s0\<lparr>st_flux_net_v_layer := vl, st_flux_net_v := v,
                st_flux_net_ir_layer := fx_net_ir_layer_full fx,
                st_flux_net_ir := fx_net_ir_full fx, st_flux_plus_ir := fx_plus_ir_full fx,
                st_flux_net := ?z, st_flux_net_midpt := ?z, st_dflux := ?z,
                st_f_vec := ?z, st_p := ?z, st_g := ?z, st_A := [?z, ?z]\<rparr>"
    using vl v pv mv
    by (simp add: s1_def prologue_def initial_def fx[symmetric] nl np_zeros_def np_zeros2_def
        exec_def numeral_2_eq_2)
  define s2 where "s2 = net_flux inp s1"
  have s2: "s2 = s1\<lparr>st_flux_net := ?z, st_flux_net_midpt := ?z\<rparr>"
    by (simp add: s2_def net_flux_def s1 initial_def fn fm exec_def)
  define s3 where "s3 = snapshot s2"
  have s3: "s3 = s2\<lparr>st_beta := [ta, tb], st_temp_old := [ta, tb],
                    st_flux_net_old := fx_net_ir_full fx,
                    st_flux_net_midpt_old := fx_net_ir_layer_full fx\<rparr>"
    by (simp add: s3_def snapshot_def s2 s1 initial_def)
  define s4 where "s4 = assemble inp (- 1) s3"
  have s4: "st_test s4 = Fin 0 \<and> st_status s4 = st_status s3
       \<and> st_temp s4 = st_temp s3 \<and> st_pressure s4 = st_pressure s3
       \<and> st_tidal s4 = st_tidal s3
       \<and> st_flux_plus_ir s4 = st_flux_plus_ir s3
       \<and> st_flux_net_ir s4 = st_flux_net_ir s3
       \<and> st_all_profiles s4 = st_all_profiles s3"
    unfolding s4_def
    by (rule assemble_at_root[OF nz _ n1, of _ n2 rest ta tb])
       (simp_all add: s3 s2 s1 initial_def)
  have r1: "st_status s1 = Running" "st_status s2 = Running" "st_status s3 = Running"
    "st_status s4 = Running"
    using s4 by (simp_all add: s3 s2 s1 initial_def)
  define s5 where "s5 = root_check inp s4"
  have s5: "s5 = s4\<lparr>st_flag_converge := Some 2, st_status := Returned
            \<lparr>r_temp = [ta, tb], r_dtdp = [q], r_flag_converge = 2, r_flux_net = st_flux_net_ir s4,
             r_flux_plus = fp, r_all_profiles = st_all_profiles s4\<rparr>\<rparr>"
    unfolding s5_def
    by (rule root_check_at_root[OF nl _ _ t0 _ _ q, of _ tds])
       (simp_all add: s4 s3 s2 s1 initial_def fp)
  have ob: "outer_body inp (- 1) fuel 0 s1 = s5"
    using r1 by (simp add: outer_body_def s2_def[symmetric] s3_def[symmetric] s4_def[symmetric]
        s5_def[symmetric]) (simp add: s5)
  have st: "st_status (outer_body inp (- 1) fuel 0 s1) = Returned
            \<lparr>r_temp = [ta, tb], r_dtdp = [q], r_flag_converge = 2, r_flux_net = fx_net_ir_full fx,
             r_flux_plus = fp, r_all_profiles = all_profiles\<rparr>"
    unfolding ob using s4 by (simp add: s5 s3 s2 s1 initial_def)
  have "t_start inp fuel [ta, tb] [pa, pb] (Fin t0 # tds) (0 # n1 # n2 # rest) all_profiles
          = run [ts_for (py_range 0 (in_it_max inp)) (outer_body inp (- 1) fuel), final_return inp] s1"
    by (simp add: t_start_def getitem_def py_index_def s1_def initial_def)
  also have "\<dots> = s5"
    using outer_loop_returns[of "in_it_max inp" s1 "outer_body inp (- 1) fuel", OF itm r1(1) st] ob by simp
  finally show ?thesis
    using s4 by (simp add: s5 s3 s2 s1 initial_def)
qed

text \<open>
  The stub engine with thermal net flux 1 and tidal flux \<open>-1\<close> at both levels.
\<close>

theorem t_start_at_root_witness:
  "st_status (t_start (stub_inputs (Fin 1)) 7 [Fin 300, Fin 400] [Fin 1, Fin 10]
                [Fin (- 1), Fin (- 1)] [0, 0, 0, 0, 0, 0] [])
     = Returned \<lparr>r_temp = [Fin 300, Fin 400],
                 r_dtdp = [Fin ((ln 300 - ln 400) / (ln 1 - ln 10))],
                 r_flag_converge = 2, r_flux_net = [Fin 1, Fin 1], r_flux_plus = [Fin 0],
                 r_all_profiles = []\<rparr>"
  using t_start_at_root[of "stub_inputs (Fin 1)" 0 "- 1"
          "stub_flux (Fin 1) 2" "Fin 1" "Fin 10" "Fin 300" "Fin 400"
          "[Fin 0, Fin 0]" "[Fin 0, Fin 0]" "[[Fin 0], [Fin 0]]" "[[Fin 0], [Fin 0]]" "[Fin (- 1)]"
          "[Fin 0]" "Fin ((ln 300 - ln 400) / (ln 1 - ln 10))" 7 0 "[0, 0, 0]" "[]"]
  by (simp add: stub_inputs_def stub_flux_def getitem2_def getitem_def py_index_def total_flux_def
      np_add_def np_scale_def numeral_2_eq_2)

end
